theory Spec2Isabelle
  imports Complex_Main
begin

section \<open>JavaScript values\<close>

text \<open>
  The result of \<open>JSON.parse\<close> is a JSON value. Numbers are modelled as integers (the
  records of the upstream protocol carry none that the code reads), printed in decimal
  as JavaScript prints integers below \<open>10^21\<close>. A \<open>char\<close> stands for one code unit of a
  JavaScript string, so \<open>length\<close> is the \<open>.length\<close> of the source. \<open>undefined\<close> is
  \<open>None\<close> of \<open>json option\<close>.
\<close>

datatype json =
    JNull
  | JBool bool
  | JNum int
  | JStr string
  | JArr "json list"
  | JObj "(string \<times> json) list"

text \<open>Truthiness, as tested by \<open>if (v)\<close>, \<open>v && w\<close> and \<open>v || w\<close>.\<close>

fun truthy :: "json \<Rightarrow> bool" where
  "truthy JNull = False"
| "truthy (JBool b) = b"
| "truthy (JNum n) = (n \<noteq> 0)"
| "truthy (JStr s) = (s \<noteq> [])"
| "truthy (JArr _) = True"
| "truthy (JObj _) = True"

text \<open>
  \<open>v.k\<close> for a value \<open>v\<close> that is not \<open>null\<close> (reading a property of \<open>null\<close> throws a
  TypeError, which the callers test for first) and for the keys the code reads
  (\<open>type\<close>, \<open>response\<close>, \<open>delta\<close>, \<open>output\<close>, \<open>text\<close>), none of which is a property of
  a string, number, boolean or array. When \<open>JSON.parse\<close> meets a key twice, the last
  occurrence wins.
\<close>

definition js_get :: "json \<Rightarrow> string \<Rightarrow> json option" where
  "js_get v k = (case v of JObj kvs \<Rightarrow> map_of (rev kvs) k | _ \<Rightarrow> None)"

text \<open>Optional chaining \<open>v?.k\<close>, where \<open>v\<close> may be \<open>undefined\<close> or \<open>null\<close>.\<close>

definition opt_chain :: "json option \<Rightarrow> string \<Rightarrow> json option" where
  "opt_chain v k = (case v of None \<Rightarrow> None | Some JNull \<Rightarrow> None | Some x \<Rightarrow> js_get x k)"

fun digits :: "nat \<Rightarrow> string" where
  "digits n = (if n < 10 then [''0123456789'' ! n]
               else digits (n div 10) @ [''0123456789'' ! (n mod 10)])"

definition number_to_string :: "int \<Rightarrow> string" where
  "number_to_string n = (if n < 0 then ''-'' @ digits (nat (- n)) else digits (nat n))"

fun join :: "string \<Rightarrow> string list \<Rightarrow> string" where
  "join sep [] = []"
| "join sep [x] = x"
| "join sep (x # y # ys) = x @ sep @ join sep (y # ys)"

text \<open>
  The string a value becomes in a template literal or in \<open>+\<close> with a string: a string is
  itself, an array is its elements joined by commas (\<open>null\<close> elements as the empty
  string), an object is \<open>[object Object]\<close>.
\<close>

fun to_string :: "json \<Rightarrow> string" where
  "to_string JNull = ''null''"
| "to_string (JBool b) = (if b then ''true'' else ''false'')"
| "to_string (JNum n) = number_to_string n"
| "to_string (JStr s) = s"
| "to_string (JArr xs) = join '','' (map (\<lambda>x. if x = JNull then [] else to_string x) xs)"
| "to_string (JObj _) = ''[object Object]''"

fun to_number :: "json \<Rightarrow> int" where
  "to_number (JNum n) = n"
| "to_number (JBool b) = (if b then 1 else 0)"
| "to_number _ = 0"

fun is_primitive_number :: "json \<Rightarrow> bool" where
  "is_primitive_number JNull = True"
| "is_primitive_number (JBool _) = True"
| "is_primitive_number (JNum _) = True"
| "is_primitive_number _ = False"

text \<open>
  \<open>a + b\<close> (the \<open>+=\<close> of the accumulation buffer): string concatenation as soon as one
  operand is a string, an array or an object, numeric addition otherwise.
\<close>

definition js_plus :: "json \<Rightarrow> json \<Rightarrow> json" where
  "js_plus a b =
     (if is_primitive_number a \<and> is_primitive_number b then JNum (to_number a + to_number b)
      else JStr (to_string a @ to_string b))"

text \<open>\<open>v.length\<close> of a string or an array; any other value has none, and
  \<open>slice(undefined)\<close> starts at 0.\<close>

fun js_length :: "json \<Rightarrow> nat" where
  "js_length (JStr s) = length s"
| "js_length (JArr xs) = length xs"
| "js_length _ = 0"

text \<open>\<open>v.slice(n)\<close>: defined on strings and arrays; on any other value \<open>slice\<close> is not a
  function and the call throws a TypeError (\<open>None\<close>).\<close>

fun js_slice :: "json \<Rightarrow> nat \<Rightarrow> json option" where
  "js_slice (JStr s) n = Some (JStr (drop n s))"
| "js_slice (JArr xs) n = Some (JArr (drop n xs))"
| "js_slice _ n = None"

fun is_string :: "json \<Rightarrow> bool" where
  "is_string (JStr _) = True"
| "is_string _ = False"

definition startsWith :: "string \<Rightarrow> string \<Rightarrow> bool" where
  "startsWith s p = (take (length p) s = p)"

text \<open>\<open>s.split(sep)\<close> for a one-character separator: never the empty list, and a
  trailing separator gives a trailing empty string.\<close>

fun split :: "char \<Rightarrow> string \<Rightarrow> string list" where
  "split sep [] = [[]]"
| "split sep (c # cs) =
     (if c = sep then [] # split sep cs
      else (case split sep cs of [] \<Rightarrow> [[c]] | l # ls \<Rightarrow> (c # l) # ls))"


section \<open>Stream re-framing\<close>

subsection \<open>The response sink and the upstream body\<close>

text \<open>
  One \<open>res.write\<close>: \<open>Event t d\<close> is the string \<open>event: t\<newline>data: JSON.stringify(d)\<newline>\<newline>\<close>
  built by \<open>createAnthropicStreamEvent\<close>, \<open>Data d\<close> is \<open>data: JSON.stringify(d)\<newline>\<newline>\<close>,
  and \<open>Literal s\<close> is the string \<open>s\<close> written as it stands.
\<close>

datatype sse_write = Event string json | Data json | Literal string

text \<open>
  The upstream response body as the reader delivers it: what each \<open>await reader.read()\<close>
  resolves to, then either the end of the stream or a rejected \<open>read()\<close> (network
  failure, abort), carrying \<open>error.message\<close>. The typed-block route sees the decoded
  text of each chunk. The flat-delta route runs a timeout beside its loop, and the
  callback of a pending timeout can only run while the handler waits for a read; so
  its body is a sequence of arrivals, where \<open>Deadline\<close> says that the delay of the
  pending timeout (if there is one) runs out during the wait for the next read.
\<close>

datatype stream_end = EndOfStream | ReadError string

datatype arrival = Chunk string | Deadline

datatype 'a body = NoBody | Body "'a list" stream_end

datatype call_result = CallError string | Response "string body"

text \<open>The StreamSession: line-reassembly buffer, accumulation buffer, the calls of
  \<open>res.write\<close> so far, how often \<open>Date.now()\<close> was read, whether a timeout is pending
  (\<open>setTimeout\<close> sets it, \<open>clearTimeout\<close> and the run of the callback clear it), and, once
  \<open>res.end()\<close> has been called, how many writes came before the first such call.\<close>

record StreamSession =
  buffer :: string
  fullContent :: json
  written :: "sse_write list"
  ticks :: nat
  timer :: bool
  ended :: "nat option"

text \<open>What a streaming handler leaves behind when it returns: the writes up to then,
  whether \<open>res.end()\<close> was called and after how many writes it was first called, the
  assistant turn handed to \<open>addMessageToConversation\<close> (if any), the final accumulation
  buffer, and what a timeout that is still pending writes when it runs later.\<close>

record emitter_result =
  events :: "sse_write list"
  closed :: bool
  saved :: "json option"
  accumulated :: json
  ended_after :: nat
  late :: "sse_write list"

definition empty_session :: StreamSession where
  "empty_session =
     \<lparr>buffer = [], fullContent = JStr [], written = [], ticks = 0, timer = False, ended = None\<rparr>"

text \<open>A block that may throw part-way: the effects up to the throw persist.\<close>

datatype 'a completion = Normal 'a | Thrown 'a

fun settle :: "'a completion \<Rightarrow> 'a" where
  "settle (Normal s) = s"
| "settle (Thrown s) = s"

text \<open>
  The test both routes apply to a parsed record,
  \<open>r.type === 'response.output_text.delta' && r.response?.type === 'message.answer' && r.response?.delta\<close>,
  giving the delta when it holds.
\<close>

definition answer_delta :: "json \<Rightarrow> json option" where
  "answer_delta parsed =
     (if js_get parsed ''type'' = Some (JStr ''response.output_text.delta'') \<and>
         opt_chain (js_get parsed ''response'') ''type'' = Some (JStr ''message.answer'')
      then (case opt_chain (js_get parsed ''response'') ''delta'' of
              None \<Rightarrow> None
            | Some d \<Rightarrow> if truthy d then Some d else None)
      else None)"

subsection \<open>Storing and logging the response\<close>

text \<open>
  Both routes call \<open>addMessageToConversation\<close> and \<open>logStreamComplete\<close> after the loop,
  inside the \<open>try\<close>. The first throws when the database does: \<open>store_error\<close> is the
  message of that error, \<open>None\<close> when the call returns. The second prints the history
  unless \<open>YDC_NO_HISTORY\<close> is set; for every message \<open>printHistory\<close> evaluates
  \<open>content.length > limit ? content.substring(0, limit) + '...' : content\<close> on
  \<open>item.content || ''\<close>, the limit being 80 with cli-table3 and 50 without, and
  \<open>substring\<close> is a method of strings only. \<open>logRequest\<close> has printed the messages of
  the request in the same way before the upstream call, so what is left to fail is
  the assistant turn that the typed-block route appends: its content is the
  accumulation buffer, a string or an array.
\<close>

record environment =
  store_error :: "string option"
  noHistory :: bool
  tableAvailable :: bool

definition printHistory_item :: "environment \<Rightarrow> json \<Rightarrow> string option" where
  "printHistory_item env content =
     (if truthy content \<and> (if tableAvailable env then 80 else 50) < js_length content \<and>
         \<not> is_string content
      then Some ''content.substring is not a function''
      else None)"

definition logStreamComplete :: "environment \<Rightarrow> json \<Rightarrow> string option" where
  "logStreamComplete env content =
     (if noHistory env then None else printHistory_item env content)"

subsection \<open>Typed-block events (lib/anthropic-mapper.js)\<close>

definition createAnthropicStreamEvent :: "string \<Rightarrow> json \<Rightarrow> sse_write" where
  "createAnthropicStreamEvent eventType data = Event eventType data"

definition createMessageStartEvent :: "int \<Rightarrow> string \<Rightarrow> string option \<Rightarrow> sse_write" where
  "createMessageStartEvent now model conversationId =
     (let message =
        [(''id'', JStr (''msg_'' @ number_to_string now)),
         (''type'', JStr ''message''),
         (''role'', JStr ''assistant''),
         (''content'', JArr []),
         (''model'', JStr model),
         (''stop_reason'', JNull),
         (''stop_sequence'', JNull),
         (''usage'', JObj [(''input_tokens'', JNum 0), (''output_tokens'', JNum 0)])];
        message' =
          (case conversationId of
             None \<Rightarrow> message
           | Some cid \<Rightarrow>
               if cid \<noteq> [] then
                 message @ [(''metadata'', JObj [(''conversation_id'', JStr cid)])]
               else message)
      in createAnthropicStreamEvent ''message_start''
           (JObj [(''type'', JStr ''message_start''), (''message'', JObj message')]))"

definition createContentBlockStartEvent :: "nat \<Rightarrow> sse_write" where
  "createContentBlockStartEvent index =
     createAnthropicStreamEvent ''content_block_start''
       (JObj [(''type'', JStr ''content_block_start''),
              (''index'', JNum (int index)),
              (''content_block'', JObj [(''type'', JStr ''text''), (''text'', JStr [])])])"

definition createContentBlockDeltaEvent :: "json \<Rightarrow> nat \<Rightarrow> sse_write" where
  "createContentBlockDeltaEvent text index =
     createAnthropicStreamEvent ''content_block_delta''
       (JObj [(''type'', JStr ''content_block_delta''),
              (''index'', JNum (int index)),
              (''delta'', JObj [(''type'', JStr ''text_delta''), (''text'', text)])])"

definition createContentBlockStopEvent :: "nat \<Rightarrow> sse_write" where
  "createContentBlockStopEvent index =
     createAnthropicStreamEvent ''content_block_stop''
       (JObj [(''type'', JStr ''content_block_stop''), (''index'', JNum (int index))])"

definition createMessageDeltaEvent :: "nat \<Rightarrow> sse_write" where
  "createMessageDeltaEvent outputTokens =
     createAnthropicStreamEvent ''message_delta''
       (JObj [(''type'', JStr ''message_delta''),
              (''delta'', JObj [(''stop_reason'', JStr ''end_turn''), (''stop_sequence'', JNull)]),
              (''usage'', JObj [(''output_tokens'', JNum (int outputTokens))])])"

definition createMessageStopEvent :: sse_write where
  "createMessageStopEvent =
     createAnthropicStreamEvent ''message_stop'' (JObj [(''type'', JStr ''message_stop'')])"

subsection \<open>Typed-block route: the streaming branch of \<open>POST /v1/messages\<close>\<close>

text \<open>
  The body of the \<open>try\<close> around one record, after \<open>JSON.parse\<close>. First the delta-style
  record: \<open>fullContent += newText\<close> and one \<open>content_block_delta\<close>.
\<close>

definition messages_delta_step :: "StreamSession \<Rightarrow> json \<Rightarrow> StreamSession" where
  "messages_delta_step st parsed =
     (case answer_delta parsed of
        None \<Rightarrow> st
      | Some newText \<Rightarrow>
          if truthy newText then
            st\<lparr>fullContent := js_plus (fullContent st) newText,
               written := written st @ [createContentBlockDeltaEvent newText 0]\<rparr>
          else st)"

text \<open>
  Then the full-output record. For one \<open>item\<close> of \<open>parsed.output\<close>: reading \<open>item.type\<close>
  of \<open>null\<close> throws; \<open>item.text.slice(fullContent.length)\<close> throws unless the text is a
  string or an array; a non-empty remainder replaces the accumulation buffer by the
  whole text and is written as one \<open>content_block_delta\<close>. There is one accumulation
  buffer for all items and for the delta-style records.
\<close>

definition messages_output_item :: "StreamSession \<Rightarrow> json \<Rightarrow> StreamSession completion" where
  "messages_output_item st item =
     (if item = JNull then Thrown st
      else if js_get item ''type'' = Some (JStr ''message.answer'') then
        (case js_get item ''text'' of
           None \<Rightarrow> Normal st
         | Some text \<Rightarrow>
             if \<not> truthy text then Normal st
             else (case js_slice text (js_length (fullContent st)) of
                     None \<Rightarrow> Thrown st
                   | Some newText \<Rightarrow>
                       if truthy newText then
                         Normal (st\<lparr>fullContent := text,
                                    written := written st @ [createContentBlockDeltaEvent newText 0]\<rparr>)
                       else Normal st))
      else Normal st)"

fun messages_output_items :: "StreamSession \<Rightarrow> json list \<Rightarrow> StreamSession completion" where
  "messages_output_items st [] = Normal st"
| "messages_output_items st (item # items) =
     (case messages_output_item st item of
        Thrown st' \<Rightarrow> Thrown st'
      | Normal st' \<Rightarrow> messages_output_items st' items)"

text \<open>
  \<open>for (const item of parsed.output)\<close>: an array is iterated; a string is iterated by
  characters, none of which has a \<open>type\<close>; any other truthy value is not iterable.
\<close>

definition messages_output_step :: "StreamSession \<Rightarrow> json \<Rightarrow> StreamSession completion" where
  "messages_output_step st parsed =
     (case js_get parsed ''output'' of
        None \<Rightarrow> Normal st
      | Some output \<Rightarrow>
          if \<not> truthy output then Normal st
          else (case output of
                  JArr items \<Rightarrow> messages_output_items st items
                | JStr _ \<Rightarrow> Normal st
                | _ \<Rightarrow> Thrown st))"

text \<open>The \<open>catch\<close> of the record skips what is left of it; reading \<open>parsed.type\<close> of
  \<open>null\<close> throws before anything is done.\<close>

definition messages_record :: "StreamSession \<Rightarrow> json \<Rightarrow> StreamSession" where
  "messages_record st parsed =
     (if parsed = JNull then st
      else settle (messages_output_step (messages_delta_step st parsed) parsed))"

text \<open>One line of the buffer. \<open>parse\<close> is \<open>JSON.parse\<close>, \<open>None\<close> when it throws.\<close>

definition messages_line :: "(string \<Rightarrow> json option) \<Rightarrow> StreamSession \<Rightarrow> string \<Rightarrow> StreamSession" where
  "messages_line parse st line =
     (if startsWith line ''data: '' then
        (let data = drop 6 line in
         if data = ''[DONE]'' then st
         else (case parse data of
                 None \<Rightarrow> st
               | Some parsed \<Rightarrow> messages_record st parsed))
      else st)"

text \<open>One turn of the \<open>while\<close> loop: \<open>buffer += decode(value)\<close>, \<open>lines = buffer.split('\<newline>')\<close>,
  \<open>buffer = lines.pop() || ''\<close>, then every remaining line in order.\<close>

definition messages_chunk :: "(string \<Rightarrow> json option) \<Rightarrow> StreamSession \<Rightarrow> string \<Rightarrow> StreamSession" where
  "messages_chunk parse st decoded =
     (let lines = split CHR 0x0A (buffer st @ decoded);
          st' = st\<lparr>buffer := (case lines of [] \<Rightarrow> [] | _ \<Rightarrow> last lines)\<rparr>
      in foldl (messages_line parse) st' (butlast lines))"

definition messages_error_tail :: "string \<Rightarrow> sse_write list" where
  "messages_error_tail message =
     [createContentBlockDeltaEvent (JStr (''Error: '' @ message)) 0,
      createContentBlockStopEvent 0,
      createMessageDeltaEvent 0,
      createMessageStopEvent]"

text \<open>
  The streaming branch: \<open>message_start\<close> and \<open>content_block_start\<close> are written before
  the upstream call; an error of the call (or a response without a body, whose
  \<open>getReader\<close> throws) goes to the outer \<open>catch\<close>, a rejected read to the \<open>catch\<close> of
  \<open>processStream\<close>; both write the same four events and end the response.
\<close>

definition messages_initial :: "int \<Rightarrow> string \<Rightarrow> string \<Rightarrow> StreamSession" where
  "messages_initial now model conversationId =
     \<lparr>buffer = [], fullContent = JStr [],
      written = [createMessageStartEvent now model (Some conversationId),
                 createContentBlockStartEvent 0],
      ticks = 0, timer = False, ended = None\<rparr>"

text \<open>
  What \<open>processStream\<close> does once the reader is done or a read is rejected. After the
  end of the stream the response is stored (\<open>if (conversationId && fullContent)\<close>) and
  logged before the closing events are written; when one of the two calls throws,
  the \<open>catch\<close> of \<open>processStream\<close> writes its four events instead, as it does for a
  rejected read.
\<close>

definition messages_finish ::
  "environment \<Rightarrow> string \<Rightarrow> StreamSession \<Rightarrow> stream_end \<Rightarrow> emitter_result" where
  "messages_finish env conversationId st ending =
     (let stored = (ending = EndOfStream \<and> conversationId \<noteq> [] \<and> truthy (fullContent st));
          thrown =
            (case ending of
               ReadError message \<Rightarrow> Some message
             | EndOfStream \<Rightarrow>
                 (case (if stored then store_error env else None) of
                    Some message \<Rightarrow> Some message
                  | None \<Rightarrow> logStreamComplete env (fullContent st)));
          tail =
            (case thrown of
               Some message \<Rightarrow> messages_error_tail message
             | None \<Rightarrow>
                 [createContentBlockStopEvent 0,
                  createMessageDeltaEvent (js_length (fullContent st) div 4),
                  createMessageStopEvent])
      in \<lparr>events = written st @ tail,
          closed = True,
          saved = (if stored then Some (fullContent st) else None),
          accumulated = fullContent st,
          ended_after = length (written st @ tail),
          late = []\<rparr>)"

definition messages_stream ::
  "(string \<Rightarrow> json option) \<Rightarrow> int \<Rightarrow> string \<Rightarrow> environment \<Rightarrow> string \<Rightarrow> call_result \<Rightarrow>
   emitter_result" where
  "messages_stream parse now model env conversationId response =
     (let st0 = messages_initial now model conversationId
      in case response of
           CallError message \<Rightarrow>
             \<lparr>events = written st0 @ messages_error_tail message, closed = True,
              saved = None, accumulated = fullContent st0,
              ended_after = length (written st0 @ messages_error_tail message), late = []\<rparr>
         | Response NoBody \<Rightarrow>
             (let message = ''Cannot read properties of null (reading '' @ [CHR 0x27] @
                            ''getReader'' @ [CHR 0x27] @ '')''
              in \<lparr>events = written st0 @ messages_error_tail message, closed = True,
                  saved = None, accumulated = fullContent st0,
                  ended_after = length (written st0 @ messages_error_tail message), late = []\<rparr>)
         | Response (Body chunks ending) \<Rightarrow>
             messages_finish env conversationId (foldl (messages_chunk parse) st0 chunks) ending)"

subsection \<open>Flat-delta route: \<open>handleStreamingResponse\<close> of \<open>POST /v1/chat/completions\<close>\<close>

text \<open>\<open>createStreamChunk\<close> of openai-mapper.js; its two readings of \<open>Date.now()\<close> are
  arguments.\<close>

definition createStreamChunk :: "int \<Rightarrow> int \<Rightarrow> string \<Rightarrow> json \<Rightarrow> json \<Rightarrow> json" where
  "createStreamChunk now_id now_created model content finishReason =
     JObj [(''id'', JStr (''chatcmpl-'' @ number_to_string now_id)),
           (''object'', JStr ''chat.completion.chunk''),
           (''created'', JNum (now_created div 1000)),
           (''model'', JStr (''you-'' @ model)),
           (''choices'', JArr [JObj
              [(''index'', JNum 0),
               (''delta'', if truthy content then JObj [(''content'', content)] else JObj []),
               (''finish_reason'', finishReason)]])]"

text \<open>
  One line: only delta-style records are read (there is no \<open>[DONE]\<close> test: that payload
  fails to parse). A delta clears the pending timeout and sets a new one before it is
  written. \<open>clock k\<close> is the value of the \<open>k\<close>-th reading of \<open>Date.now()\<close>.
\<close>

definition chat_line ::
  "(string \<Rightarrow> json option) \<Rightarrow> (nat \<Rightarrow> int) \<Rightarrow> string \<Rightarrow> StreamSession \<Rightarrow> string \<Rightarrow> StreamSession" where
  "chat_line parse clock model st line =
     (if startsWith line ''data: '' then
        (case parse (drop 6 line) of
           None \<Rightarrow> st
         | Some data \<Rightarrow>
             if data = JNull then st
             else (case answer_delta data of
                     None \<Rightarrow> st
                   | Some delta \<Rightarrow>
                       st\<lparr>timer := True,
                          fullContent := js_plus (fullContent st) delta,
                          written := written st @
                            [Data (createStreamChunk (clock (ticks st)) (clock (Suc (ticks st)))
                                     model delta JNull)],
                          ticks := ticks st + 2\<rparr>))
      else st)"

definition chat_chunk ::
  "(string \<Rightarrow> json option) \<Rightarrow> (nat \<Rightarrow> int) \<Rightarrow> string \<Rightarrow> StreamSession \<Rightarrow> string \<Rightarrow> StreamSession" where
  "chat_chunk parse clock model st decoded =
     (let lines = split CHR 0x0A (buffer st @ decoded);
          st' = st\<lparr>buffer := (case lines of [] \<Rightarrow> [] | _ \<Rightarrow> last lines)\<rparr>
      in foldl (chat_line parse clock model) st' (butlast lines))"

text \<open>
  The callback of both \<open>setTimeout\<close> calls: a chunk with the timeout notice and
  \<open>finish_reason\<close> \<open>length\<close>, the sentinel, and \<open>res.end()\<close>. It does not cancel the
  reader, so the loop goes on reading.
\<close>

definition timeout_writes :: "(nat \<Rightarrow> int) \<Rightarrow> string \<Rightarrow> nat \<Rightarrow> sse_write list" where
  \<open>timeout_writes clock model k =
     [Data (createStreamChunk (clock k) (clock (Suc k)) model
              (JStr ''\<newline>\<newline>[Response timeout]'') (JStr ''length'')),
      Literal ''data: [DONE]\<newline>\<newline>'']\<close>

definition chat_timeout :: "(nat \<Rightarrow> int) \<Rightarrow> string \<Rightarrow> StreamSession \<Rightarrow> StreamSession" where
  "chat_timeout clock model st =
     st\<lparr>written := written st @ timeout_writes clock model (ticks st),
        ticks := ticks st + 2,
        timer := False,
        ended := (case ended st of
                    None \<Rightarrow> Some (length (written st) + 2)
                  | Some n \<Rightarrow> Some n)\<rparr>"

text \<open>What one \<open>await reader.read()\<close> brings: the callback of the pending timeout when
  its delay runs out first, or the next chunk.\<close>

definition chat_arrival ::
  "(string \<Rightarrow> json option) \<Rightarrow> (nat \<Rightarrow> int) \<Rightarrow> string \<Rightarrow> StreamSession \<Rightarrow> arrival \<Rightarrow> StreamSession" where
  "chat_arrival parse clock model st a =
     (case a of
        Chunk decoded \<Rightarrow> chat_chunk parse clock model st decoded
      | Deadline \<Rightarrow> if timer st then chat_timeout clock model st else st)"

text \<open>
  The end of the handler. After the end of the stream the timeout is cleared and the
  response is stored and logged (\<open>logStreamComplete\<close> prints what \<open>logRequest\<close> has
  printed, so only the store can throw). A rejected read, or an error of the store, is
  caught and one raw error record is written. The \<open>finally\<close> block then writes the
  terminal chunk and the sentinel and ends the response on every path. A rejected read
  leaves the timeout pending: its callback runs after the handler has returned.
\<close>

definition chat_finish ::
  "(nat \<Rightarrow> int) \<Rightarrow> string \<Rightarrow> environment \<Rightarrow> string \<Rightarrow> StreamSession \<Rightarrow> stream_end \<Rightarrow>
   emitter_result" where
  \<open>chat_finish clock model env conversationId st ending =
     (let stored = (ending = EndOfStream \<and> conversationId \<noteq> [] \<and> truthy (fullContent st));
          thrown =
            (case ending of
               ReadError message \<Rightarrow> Some message
             | EndOfStream \<Rightarrow> if stored then store_error env else None);
          st1 = (case ending of
                   EndOfStream \<Rightarrow> st\<lparr>timer := False\<rparr>
                 | ReadError _ \<Rightarrow> st);
          st2 = (case thrown of
                   None \<Rightarrow> st1
                 | Some message \<Rightarrow>
                     st1\<lparr>written := written st1 @
                       [Literal (''data: {"error": "Streaming error: '' @ message @
                                 ''"}\<newline>\<newline>'')]\<rparr>);
          finalChunk = createStreamChunk (clock (ticks st2)) (clock (Suc (ticks st2)))
                         model JNull (JStr ''stop'');
          out = written st2 @ [Data finalChunk, Literal ''data: [DONE]\<newline>\<newline>'']
      in \<lparr>events = out,
          closed = True,
          saved = (if stored then Some (fullContent st) else None),
          accumulated = fullContent st,
          ended_after = (case ended st2 of None \<Rightarrow> length out | Some n \<Rightarrow> n),
          late = (if timer st2 then timeout_writes clock model (ticks st2 + 2) else [])\<rparr>)\<close>

text \<open>The handler: without a body one raw error record; otherwise the first timeout is
  set, the loop takes the arrivals in order, and the end of the handler follows.\<close>

definition handleStreamingResponse ::
  "(string \<Rightarrow> json option) \<Rightarrow> (nat \<Rightarrow> int) \<Rightarrow> string \<Rightarrow> environment \<Rightarrow> string \<Rightarrow>
   arrival body \<Rightarrow> emitter_result" where
  \<open>handleStreamingResponse parse clock model env conversationId response_body =
     (case response_body of
        NoBody \<Rightarrow>
          \<lparr>events = [Literal ''data: {"error": "No response body"}\<newline>\<newline>''],
           closed = True, saved = None, accumulated = JStr [], ended_after = 1, late = []\<rparr>
      | Body arrivals ending \<Rightarrow>
          chat_finish clock model env conversationId
            (foldl (chat_arrival parse clock model) (empty_session\<lparr>timer := True\<rparr>) arrivals)
            ending)\<close>

subsection \<open>The Demultiplexer's fragment sequence\<close>

text \<open>
  Both loops have the same shape: every complete line of \<open>buffer + chunk\<close> goes to the
  line handler and the last piece stays in the buffer. \<open>reassemble\<close> is that shape for
  any line handler.
\<close>

definition reassemble ::
  "(StreamSession \<Rightarrow> string \<Rightarrow> StreamSession) \<Rightarrow> StreamSession \<Rightarrow> string \<Rightarrow> StreamSession" where
  "reassemble f st decoded =
     (foldl f st (butlast (split CHR 0x0A (buffer st @ decoded))))
       \<lparr>buffer := last (split CHR 0x0A (buffer st @ decoded))\<rparr>"

text \<open>
  The fragment sequence of the typed-block route, read off the stream text alone. The
  records are the payloads of the complete lines that start with \<open>data: \<close>, are not
  \<open>[DONE]\<close> and parse.
\<close>

definition messages_payload :: "(string \<Rightarrow> json option) \<Rightarrow> string \<Rightarrow> json option" where
  "messages_payload parse line =
     (if startsWith line ''data: '' \<and> drop 6 line \<noteq> ''[DONE]'' then parse (drop 6 line)
      else None)"

definition messages_records :: "(string \<Rightarrow> json option) \<Rightarrow> string list \<Rightarrow> json list" where
  "messages_records parse chunks =
     List.map_filter (messages_payload parse) (butlast (split CHR 0x0A (concat chunks)))"

text \<open>
  The fragments of an output list and the text accumulated after it, from the text
  accumulated before it: an item of type \<open>message.answer\<close> gives what its text has
  beyond the length of the accumulated text, when that is not empty, and its text
  then becomes the accumulated text; an item that cannot be read ends the list.
\<close>

fun output_fragments :: "json \<Rightarrow> json list \<Rightarrow> json list \<times> json" where
  "output_fragments acc [] = ([], acc)"
| "output_fragments acc (item # items) =
     (if item = JNull then ([], acc)
      else if js_get item ''type'' = Some (JStr ''message.answer'') then
        (case js_get item ''text'' of
           None \<Rightarrow> output_fragments acc items
         | Some text \<Rightarrow>
             if \<not> truthy text then output_fragments acc items
             else (case js_slice text (js_length acc) of
                     None \<Rightarrow> ([], acc)
                   | Some newText \<Rightarrow>
                       if truthy newText then
                         (newText # fst (output_fragments text items),
                          snd (output_fragments text items))
                       else output_fragments acc items))
      else output_fragments acc items)"

text \<open>The fragments of one record: its delta, when it is a delta-style record, then
  those of its output list, when it has one.\<close>

definition record_fragments :: "json \<Rightarrow> json \<Rightarrow> json list \<times> json" where
  "record_fragments acc parsed =
     (if parsed = JNull then ([], acc)
      else
        (let ds = (case answer_delta parsed of None \<Rightarrow> [] | Some d \<Rightarrow> [d]);
             acc1 = (case answer_delta parsed of None \<Rightarrow> acc | Some d \<Rightarrow> js_plus acc d);
             out = (case js_get parsed ''output'' of
                      Some (JArr items) \<Rightarrow> output_fragments acc1 items
                    | _ \<Rightarrow> ([], acc1))
         in (ds @ fst out, snd out)))"

fun demultiplex :: "json \<Rightarrow> json list \<Rightarrow> json list \<times> json" where
  "demultiplex acc [] = ([], acc)"
| "demultiplex acc (r # rs) =
     (fst (record_fragments acc r) @ fst (demultiplex (snd (record_fragments acc r)) rs),
      snd (demultiplex (snd (record_fragments acc r)) rs))"

definition messages_fragments :: "(string \<Rightarrow> json option) \<Rightarrow> string list \<Rightarrow> json list" where
  "messages_fragments parse chunks = fst (demultiplex (JStr []) (messages_records parse chunks))"

definition messages_accumulated :: "(string \<Rightarrow> json option) \<Rightarrow> string list \<Rightarrow> json" where
  "messages_accumulated parse chunks = snd (demultiplex (JStr []) (messages_records parse chunks))"

text \<open>
  The fragments of the flat-delta route, read off the stream text: the delta of every
  complete line that starts with \<open>data: \<close>, parses, and is a delta-style record under a
  \<open>message.answer\<close> envelope with a truthy delta.
\<close>

definition chat_fragment_of_line :: "(string \<Rightarrow> json option) \<Rightarrow> string \<Rightarrow> json option" where
  "chat_fragment_of_line parse line =
     (if startsWith line ''data: '' then
        (case parse (drop 6 line) of
           None \<Rightarrow> None
         | Some data \<Rightarrow> if data = JNull then None else answer_delta data)
      else None)"

definition chat_fragments :: "(string \<Rightarrow> json option) \<Rightarrow> string list \<Rightarrow> json list" where
  "chat_fragments parse chunks =
     List.map_filter (chat_fragment_of_line parse) (butlast (split CHR 0x0A (concat chunks)))"

text \<open>The chunks among the arrivals.\<close>

fun chunks_of :: "arrival list \<Rightarrow> string list" where
  "chunks_of [] = []"
| "chunks_of (Chunk c # as) = c # chunks_of as"
| "chunks_of (Deadline # as) = chunks_of as"

text \<open>One delta chunk per fragment; the \<open>k\<close>-th reading of the clock is the first one
  not yet used.\<close>

fun chat_chunks :: "(nat \<Rightarrow> int) \<Rightarrow> string \<Rightarrow> nat \<Rightarrow> json list \<Rightarrow> sse_write list" where
  "chat_chunks clock model k [] = []"
| "chat_chunks clock model k (f # fs) =
     Data (createStreamChunk (clock k) (clock (Suc k)) model f JNull)
       # chat_chunks clock model (k + 2) fs"

text \<open>\<open>choices[0].delta.content\<close> and \<open>choices[0].finish_reason\<close> of a written chunk.\<close>

fun first_choice :: "sse_write \<Rightarrow> json option" where
  "first_choice (Data j) =
     (case js_get j ''choices'' of Some (JArr (c # _)) \<Rightarrow> Some c | _ \<Rightarrow> None)"
| "first_choice _ = None"

definition chunk_content :: "sse_write \<Rightarrow> json option" where
  "chunk_content w = opt_chain (opt_chain (first_choice w) ''delta'') ''content''"

definition chunk_finish_reason :: "sse_write \<Rightarrow> json option" where
  "chunk_finish_reason w = opt_chain (first_choice w) ''finish_reason''"

text \<open>A terminal chunk has a \<open>finish_reason\<close> other than \<open>null\<close>; a delta chunk has
  \<open>finish_reason\<close> \<open>null\<close>, and \<open>delta_content\<close> is the content it carries.\<close>

definition is_terminal_chunk :: "sse_write \<Rightarrow> bool" where
  "is_terminal_chunk w =
     (case chunk_finish_reason w of None \<Rightarrow> False | Some r \<Rightarrow> r \<noteq> JNull)"

definition delta_content :: "sse_write \<Rightarrow> json option" where
  "delta_content w = (if chunk_finish_reason w = Some JNull then chunk_content w else None)"

definition done_sentinel :: sse_write where
  \<open>done_sentinel = Literal ''data: [DONE]\<newline>\<newline>''\<close>

text \<open>The two record shapes of the upstream protocol: a delta-style record and a
  full-output record, whose items of type \<open>message.answer\<close> carry the whole text.\<close>

definition answer_item :: "string \<Rightarrow> json" where
  "answer_item t = JObj [(''type'', JStr ''message.answer''), (''text'', JStr t)]"

definition full_record :: "json list \<Rightarrow> json" where
  "full_record items = JObj [(''output'', JArr items)]"

definition delta_record :: "json \<Rightarrow> json" where
  "delta_record d =
     JObj [(''type'', JStr ''response.output_text.delta''),
           (''response'', JObj [(''type'', JStr ''message.answer''), (''delta'', d)])]"

text \<open>
  An output list as the upstream sends it: every item is an object, and the text of
  an item of type \<open>message.answer\<close>, when it has one, is a string. \<open>answer_texts\<close> are
  those texts in order.
\<close>

definition plain_item :: "json \<Rightarrow> bool" where
  "plain_item item =
     (item \<noteq> JNull \<and>
      (js_get item ''type'' \<noteq> Some (JStr ''message.answer'') \<or>
       (case js_get item ''text'' of None \<Rightarrow> True | Some v \<Rightarrow> is_string v)))"

definition answer_text :: "json \<Rightarrow> string option" where
  "answer_text item =
     (if js_get item ''type'' = Some (JStr ''message.answer'') then
        (case js_get item ''text'' of Some (JStr t) \<Rightarrow> Some t | _ \<Rightarrow> None)
      else None)"

definition answer_texts :: "json list \<Rightarrow> string list" where
  "answer_texts items = List.map_filter answer_text items"

text \<open>
  What a list of texts leaves of itself when each is cut at the length of the text
  accumulated so far, and the text accumulated at the end: a text that is not longer
  than the accumulated one gives nothing and is dropped, a longer one gives what it
  has beyond that length and becomes the accumulated text.
\<close>

fun beyond_length :: "string \<Rightarrow> string list \<Rightarrow> string list" where
  "beyond_length acc [] = []"
| "beyond_length acc (t # ts) =
     (if length acc < length t then drop (length acc) t # beyond_length t ts
      else beyond_length acc ts)"

fun longest_so_far :: "string \<Rightarrow> string list \<Rightarrow> string" where
  "longest_so_far acc [] = acc"
| "longest_so_far acc (t # ts) =
     (if length acc < length t then longest_so_far t ts else longest_so_far acc ts)"

text \<open>Full-replacement updates of one growing text: after the pieces \<open>p1, p2, ...\<close> the
  snapshots are \<open>acc + p1\<close>, \<open>acc + p1 + p2\<close>, and so on.\<close>

fun snapshots :: "string \<Rightarrow> string list \<Rightarrow> string list" where
  "snapshots acc [] = []"
| "snapshots acc (p # ps) = (acc @ p) # snapshots (acc @ p) ps"

text \<open>
  The emission rule in the words of the specification: for each item of type
  \<open>message.answer\<close>, only the suffix of its text not already emitted for that item,
  tracked by the length previously seen for it. An item is known by its position in
  the output list; \<open>seen\<close> holds the lengths seen so far, position by position.
\<close>

fun spec_output_fragments :: "nat list \<Rightarrow> json list \<Rightarrow> string list \<times> nat list" where
  "spec_output_fragments seen [] = ([], seen)"
| "spec_output_fragments seen (item # items) =
     (let n = (case seen of [] \<Rightarrow> 0 | m # _ \<Rightarrow> m);
          rest = spec_output_fragments (tl seen) items
      in case answer_text item of
           None \<Rightarrow> (fst rest, n # snd rest)
         | Some t \<Rightarrow>
             ((if drop n t = [] then [] else [drop n t]) @ fst rest, length t # snd rest))"

fun spec_demultiplex :: "nat list \<Rightarrow> json list \<Rightarrow> string list" where
  "spec_demultiplex seen [] = []"
| "spec_demultiplex seen (r # rs) =
     (case answer_delta r of
        Some d \<Rightarrow> to_string d # spec_demultiplex seen rs
      | None \<Rightarrow>
          (case js_get r ''output'' of
             Some (JArr items) \<Rightarrow>
               fst (spec_output_fragments seen items) @
               spec_demultiplex (snd (spec_output_fragments seen items)) rs
           | _ \<Rightarrow> spec_demultiplex seen rs))"

text \<open>
  The event sequence of the typed-block emitter in the words of the specification,
  for the fragments \<open>frags\<close> and the accumulated text \<open>acc\<close>.
\<close>

definition spec_typed_block_sequence ::
  "int \<Rightarrow> string \<Rightarrow> string \<Rightarrow> json list \<Rightarrow> json \<Rightarrow> sse_write list" where
  "spec_typed_block_sequence now model conversationId frags acc =
     [createMessageStartEvent now model (Some conversationId), createContentBlockStartEvent 0] @
     map (\<lambda>f. createContentBlockDeltaEvent f 0) frags @
     [createContentBlockStopEvent 0,
      createMessageDeltaEvent (js_length acc div 4),
      createMessageStopEvent]"

text \<open>
  The chunk sequence of the flat-delta emitter in the words of the specification: one
  delta chunk per fragment carrying that fragment, then one terminal chunk, then the
  sentinel, and nothing else.
\<close>

definition spec_flat_delta_sequence :: "json list \<Rightarrow> sse_write list \<Rightarrow> bool" where
  "spec_flat_delta_sequence frags ws =
     (length ws = length frags + 2 \<and>
      map delta_content (take (length frags) ws) = map Some frags \<and>
      is_terminal_chunk (ws ! length frags) \<and>
      ws ! Suc (length frags) = done_sentinel)"

fun event_name :: "sse_write \<Rightarrow> string" where
  "event_name (Event t _) = t"
| "event_name _ = []"

text \<open>The round-trip example of the specification as an upstream stream.\<close>

definition hello_stream :: "string list" where
  \<open>hello_stream =
     [''data: {"type":"response.output_text.delta","response":{"type":"message.answer","delta":"Hel"}}\<newline>'',
      ''data: {"type":"response.output_text.delta","response":{"type":"message.answer","delta":"lo"}}\<newline>'',
      ''data: {"type":"response.output_text.delta","response":{"type":"message.answer","delta":" world"}}\<newline>'']\<close>

text \<open>A full-output record whose one item of type \<open>message.answer\<close> carries an array
  of 81 numbers as its text.\<close>

definition array_stream :: "string list" where
  \<open>array_stream =
     [''data: {"output":[{"type":"message.answer","text":['' @ concat (replicate 80 ''0,'') @
      ''0]}]}\<newline>'']\<close>

text \<open>An environment in which the store returns and the history is printed without
  cli-table3, and one in which the store throws.\<close>

definition quiet_environment :: environment where
  "quiet_environment = \<lparr>store_error = None, noHistory = False, tableAvailable = False\<rparr>"

definition failing_store :: environment where
  "failing_store =
     \<lparr>store_error = Some ''database is locked'', noHistory = False, tableAvailable = False\<rparr>"

text \<open>A session after the loop has taken the fragments \<open>fs\<close> and accumulated \<open>acc\<close>:
  one \<open>content_block_delta\<close> at index 0 for each fragment, in order.\<close>

definition with_fragments :: "StreamSession \<Rightarrow> json list \<Rightarrow> json \<Rightarrow> StreamSession" where
  "with_fragments st fs acc =
     st\<lparr>fullContent := acc,
        written := written st @ map (\<lambda>f. createContentBlockDeltaEvent f 0) fs\<rparr>"

text \<open>A full-output record with two items of type \<open>message.answer\<close>, and the two
  full-replacement records of the specification's test.\<close>

definition two_items_stream :: "string list" where
  \<open>two_items_stream =
     [''data: {"output":[{"type":"message.answer","text":"ab"},{"type":"message.answer","text":"cdef"}]}\<newline>'']\<close>

definition replacement_stream :: "string list" where
  \<open>replacement_stream =
     [''data: {"output":[{"type":"message.answer","text":"ab"}]}\<newline>\<newline>'',
      ''data: {"output":[{"type":"message.answer","text":"abc"}]}\<newline>\<newline>'']\<close>

text \<open>The same stream when the upstream stalls after the first record until the delay
  of the timeout has run out.\<close>

definition stalled_hello :: "arrival list" where
  "stalled_hello =
     [Chunk (hello_stream ! 0), Deadline, Chunk (hello_stream ! 1), Chunk (hello_stream ! 2)]"


subsection \<open>A JSON reader for concrete streams\<close>

text \<open>
  The handlers above take \<open>JSON.parse\<close> as a parameter. To run them on concrete stream
  text, \<open>json_parse\<close> reads the JSON grammar restricted to integers without exponent
  and to the two-character escapes; on anything else it gives \<open>None\<close>. The fuel bounds
  the nesting depth plus the number of members; \<open>json_parse\<close> starts with the length of
  the text plus one.
\<close>

fun skip_ws :: "string \<Rightarrow> string" where
  "skip_ws [] = []"
| "skip_ws (c # cs) =
     (if c = CHR '' '' \<or> c = CHR 0x09 \<or> c = CHR 0x0A \<or> c = CHR 0x0D then skip_ws cs
      else c # cs)"

definition unescape :: "char \<Rightarrow> char option" where
  "unescape c =
     (if c = CHR 0x22 then Some (CHR 0x22)
      else if c = CHR 0x5C then Some (CHR 0x5C)
      else if c = CHR ''/'' then Some (CHR ''/'')
      else if c = CHR ''b'' then Some (CHR 0x08)
      else if c = CHR ''f'' then Some (CHR 0x0C)
      else if c = CHR ''n'' then Some (CHR 0x0A)
      else if c = CHR ''r'' then Some (CHR 0x0D)
      else if c = CHR ''t'' then Some (CHR 0x09)
      else None)"

text \<open>The characters of a string after its opening quote, up to the closing one.\<close>

fun parse_chars :: "string \<Rightarrow> (string \<times> string) option" where
  "parse_chars [] = None"
| "parse_chars (c # cs) =
     (if c = CHR 0x22 then Some ([], cs)
      else if c = CHR 0x5C then
        (case cs of
           [] \<Rightarrow> None
         | e # cs' \<Rightarrow>
             (case unescape e of
                None \<Rightarrow> None
              | Some u \<Rightarrow>
                  (case parse_chars cs' of
                     None \<Rightarrow> None
                   | Some (s, rest) \<Rightarrow> Some (u # s, rest))))
      else if of_char c < (32 :: nat) then None
      else (case parse_chars cs of
              None \<Rightarrow> None
            | Some (s, rest) \<Rightarrow> Some (c # s, rest)))"

definition is_digit :: "char \<Rightarrow> bool" where
  "is_digit c = ((48 :: nat) \<le> of_char c \<and> of_char c \<le> (57 :: nat))"

definition digit_val :: "char \<Rightarrow> nat" where
  "digit_val c = of_char c - 48"

definition parse_nat :: "string \<Rightarrow> (nat \<times> string) option" where
  "parse_nat s =
     (let ds = takeWhile is_digit s; rest = dropWhile is_digit s in
      if ds = [] \<or> (length ds > 1 \<and> hd ds = CHR ''0'') then None
      else if rest \<noteq> [] \<and> (hd rest = CHR ''.'' \<or> hd rest = CHR ''e'' \<or> hd rest = CHR ''E'')
      then None
      else Some (foldl (\<lambda>n d. 10 * n + digit_val d) 0 ds, rest))"

fun parse_value :: "nat \<Rightarrow> string \<Rightarrow> (json \<times> string) option"
  and parse_elements :: "nat \<Rightarrow> string \<Rightarrow> (json list \<times> string) option"
  and parse_members :: "nat \<Rightarrow> string \<Rightarrow> ((string \<times> json) list \<times> string) option"
where
  "parse_value 0 s = None"
| "parse_value (Suc n) s =
     (case skip_ws s of
        [] \<Rightarrow> None
      | c # cs \<Rightarrow>
          if c = CHR 0x22 then
            (case parse_chars cs of None \<Rightarrow> None | Some (str, rest) \<Rightarrow> Some (JStr str, rest))
          else if c = CHR ''['' then
            (case skip_ws cs of
               [] \<Rightarrow> None
             | d # ds \<Rightarrow>
                 if d = CHR '']'' then Some (JArr [], ds)
                 else (case parse_elements n (d # ds) of
                         None \<Rightarrow> None
                       | Some (xs, rest) \<Rightarrow> Some (JArr xs, rest)))
          else if c = CHR ''{'' then
            (case skip_ws cs of
               [] \<Rightarrow> None
             | d # ds \<Rightarrow>
                 if d = CHR ''}'' then Some (JObj [], ds)
                 else (case parse_members n (d # ds) of
                         None \<Rightarrow> None
                       | Some (kvs, rest) \<Rightarrow> Some (JObj kvs, rest)))
          else if startsWith (c # cs) ''true'' then Some (JBool True, drop 4 (c # cs))
          else if startsWith (c # cs) ''false'' then Some (JBool False, drop 5 (c # cs))
          else if startsWith (c # cs) ''null'' then Some (JNull, drop 4 (c # cs))
          else if c = CHR ''-'' then
            (case parse_nat cs of None \<Rightarrow> None | Some (m, rest) \<Rightarrow> Some (JNum (- int m), rest))
          else (case parse_nat (c # cs) of
                  None \<Rightarrow> None
                | Some (m, rest) \<Rightarrow> Some (JNum (int m), rest)))"
| "parse_elements 0 s = None"
| "parse_elements (Suc n) s =
     (case parse_value n s of
        None \<Rightarrow> None
      | Some (v, rest) \<Rightarrow>
          (case skip_ws rest of
             [] \<Rightarrow> None
           | c # cs \<Rightarrow>
               if c = CHR '']'' then Some ([v], cs)
               else if c = CHR '','' then
                 (case parse_elements n cs of
                    None \<Rightarrow> None
                  | Some (vs, rest') \<Rightarrow> Some (v # vs, rest'))
               else None))"
| "parse_members 0 s = None"
| "parse_members (Suc n) s =
     (case skip_ws s of
        [] \<Rightarrow> None
      | q # qs \<Rightarrow>
          if q \<noteq> CHR 0x22 then None
          else (case parse_chars qs of
                  None \<Rightarrow> None
                | Some (k, rest) \<Rightarrow>
                    (case skip_ws rest of
                       [] \<Rightarrow> None
                     | c # cs \<Rightarrow>
                         if c \<noteq> CHR '':'' then None
                         else (case parse_value n cs of
                                 None \<Rightarrow> None
                               | Some (v, rest') \<Rightarrow>
                                   (case skip_ws rest' of
                                      [] \<Rightarrow> None
                                    | e # es \<Rightarrow>
                                        if e = CHR ''}'' then Some ([(k, v)], es)
                                        else if e = CHR '','' then
                                          (case parse_members n es of
                                             None \<Rightarrow> None
                                           | Some (kvs, rest'') \<Rightarrow> Some ((k, v) # kvs, rest''))
                                        else None)))))"

definition json_parse :: "string \<Rightarrow> json option" where
  "json_parse s =
     (case parse_value (Suc (length s)) s of
        None \<Rightarrow> None
      | Some (v, rest) \<Rightarrow> if skip_ws rest = [] then Some v else None)"


section \<open>Turn assembly (api-client.js, openai-mapper.js)\<close>

text \<open>A message of the request: its role and its content, a string.\<close>

record chat_message =
  role :: string
  content :: string

text \<open>\<open>s.replace(/^User: /, '')\<close>\<close>

definition strip_user_prefix :: "string \<Rightarrow> string" where
  "strip_user_prefix s = (if startsWith s ''User: '' then drop 6 s else s)"

text \<open>The body of \<open>messages.forEach\<close>, on the pair of \<open>systemPrompt\<close> and
  \<open>conversationHistory\<close>.\<close>

definition collect_message :: "string \<times> string list \<Rightarrow> 'a chat_message_scheme \<Rightarrow> string \<times> string list" where
  "collect_message acc msg =
     (if role msg = ''system'' then (content msg, snd acc)
      else if role msg = ''user'' then (fst acc, snd acc @ [''User: '' @ content msg])
      else if role msg = ''assistant'' then (fst acc, snd acc @ [''Assistant: '' @ content msg])
      else acc)"

definition buildConversationInput :: "'a chat_message_scheme list \<Rightarrow> string" where
  "buildConversationInput msgs =
     (let (systemPrompt, conversationHistory) = foldl collect_message ([], []) msgs;
          input = (if systemPrompt \<noteq> []
                   then ''[System Instructions]\<newline>'' @ systemPrompt @ ''\<newline>\<newline>''
                   else [])
      in if length conversationHistory > 1 then
           input @ ''[Conversation History]\<newline>'' @
             join ''\<newline>\<newline>'' (butlast conversationHistory) @ ''\<newline>\<newline>'' @
             ''[Current Message]\<newline>'' @ strip_user_prefix (last conversationHistory)
         else if length conversationHistory = 1 then
           input @ strip_user_prefix (conversationHistory ! 0)
         else input)"

text \<open>The \<open>input\<close> that \<open>mapOpenAIToYouParams\<close> builds, by the same statements.\<close>

definition mapOpenAIToYouParams_input :: "'a chat_message_scheme list \<Rightarrow> string" where
  "mapOpenAIToYouParams_input msgs =
     (let (systemPrompt, conversationHistory) = foldl collect_message ([], []) msgs;
          input = (if systemPrompt \<noteq> []
                   then ''[System Instructions]\<newline>'' @ systemPrompt @ ''\<newline>\<newline>''
                   else [])
      in if length conversationHistory > 1 then
           input @ ''[Conversation History]\<newline>'' @
             join ''\<newline>\<newline>'' (butlast conversationHistory) @ ''\<newline>\<newline>'' @
             ''[Current Message]\<newline>'' @ strip_user_prefix (last conversationHistory)
         else if length conversationHistory = 1 then
           input @ strip_user_prefix (conversationHistory ! 0)
         else input)"

text \<open>
  The assembler as the specification words it: the conversational turns are the
  messages of role \<open>user\<close> or \<open>assistant\<close>; a turn is rendered as its role label, a colon
  and its content; the system block comes from the last system message. The current
  message is the content of the final turn, without role prefix.
\<close>

definition conversational :: "'a chat_message_scheme \<Rightarrow> bool" where
  "conversational m = (role m = ''user'' \<or> role m = ''assistant'')"

definition render_turn :: "'a chat_message_scheme \<Rightarrow> string" where
  "render_turn m = (if role m = ''user'' then ''User: '' else ''Assistant: '') @ content m"

definition system_block :: "'a chat_message_scheme list \<Rightarrow> string" where
  "system_block msgs =
     (case filter (\<lambda>m. role m = ''system'') msgs of
        [] \<Rightarrow> []
      | ss \<Rightarrow> if content (last ss) = [] then []
              else ''[System Instructions]\<newline>'' @ content (last ss) @ ''\<newline>\<newline>'')"

definition assembled :: "('a chat_message_scheme \<Rightarrow> string) \<Rightarrow> 'a chat_message_scheme list \<Rightarrow> string" where
  "assembled current msgs =
     (let turns = filter conversational msgs in
      if length turns > 1 then
        system_block msgs @ ''[Conversation History]\<newline>'' @
          join ''\<newline>\<newline>'' (map render_turn (butlast turns)) @ ''\<newline>\<newline>'' @
          ''[Current Message]\<newline>'' @ current (last turns)
      else if length turns = 1 then system_block msgs @ current (last turns)
      else system_block msgs)"

definition spec_buildConversationInput :: "'a chat_message_scheme list \<Rightarrow> string" where
  "spec_buildConversationInput msgs = assembled content msgs"

section \<open>Conversation store (conversation-store.js, index.js)\<close>

record turn = chat_message +
  timestamp :: int

record conversation =
  conv_id :: string
  messages :: "turn list"
  createdAt :: int
  updatedAt :: int
  metadata :: json

definition MAX_MESSAGES_PER_CONVERSATION :: nat where
  "MAX_MESSAGES_PER_CONVERSATION = 100"

text \<open>\<open>xs.slice(start)\<close>: a negative start counts from the end, and nothing is taken
  from before the list.\<close>

definition slice_from :: "int \<Rightarrow> 'a list \<Rightarrow> 'a list" where
  "slice_from start xs =
     (if start < 0 then drop (nat (max (int (length xs) + start) 0)) xs
      else drop (nat start) xs)"

text \<open>
  The eviction block of \<open>addMessageToConversation\<close>, the same in the memory branch of
  the store module and in index.js: once the maximum is reached, keep the first system
  message, if there is one, and the newest messages.
\<close>

definition evict_oldest :: "turn list \<Rightarrow> turn list" where
  "evict_oldest msgs =
     (if length msgs \<ge> MAX_MESSAGES_PER_CONVERSATION then
        (case List.find (\<lambda>m. role m = ''system'') msgs of
           Some systemMsg \<Rightarrow>
             systemMsg # slice_from (- int MAX_MESSAGES_PER_CONVERSATION + 2) msgs
         | None \<Rightarrow> slice_from (- int MAX_MESSAGES_PER_CONVERSATION + 1) msgs)
      else msgs)"

subsection \<open>Memory backend\<close>

text \<open>\<open>memoryStore\<close> is a map from identifiers to conversations; \<open>uuid\<close> is what
  \<open>generateConversationId\<close> returns, and the clock readings are arguments.\<close>

definition createConversation_memory ::
  "string \<Rightarrow> int \<Rightarrow> string \<Rightarrow> json \<Rightarrow> (string \<rightharpoonup> conversation) \<Rightarrow>
   conversation \<times> (string \<rightharpoonup> conversation)" where
  "createConversation_memory uuid now conversationId meta memoryStore =
     (let ident = (if conversationId \<noteq> [] then conversationId else uuid);
          conv = \<lparr>conv_id = ident, messages = [], createdAt = now, updatedAt = now,
                  metadata = meta\<rparr>
      in (conv, memoryStore(ident \<mapsto> conv)))"

text \<open>The conversation object is shared with the store, so the store sees the push.\<close>

definition addMessageToConversation_memory ::
  "string \<Rightarrow> int \<Rightarrow> int \<Rightarrow> (string \<rightharpoonup> conversation) \<Rightarrow> string \<Rightarrow> string \<Rightarrow> string \<Rightarrow>
   conversation \<times> (string \<rightharpoonup> conversation)" where
  "addMessageToConversation_memory uuid now now_created memoryStore conversationId r c =
     (let (conv, store1) =
            (case memoryStore conversationId of
               Some existing \<Rightarrow> (existing, memoryStore)
             | None \<Rightarrow>
                 createConversation_memory uuid now_created conversationId (JObj []) memoryStore);
          ident = (case memoryStore conversationId of
                     Some _ \<Rightarrow> conversationId
                   | None \<Rightarrow> conv_id conv);
          conv' = conv\<lparr>messages := evict_oldest (messages conv) @
                                     [\<lparr>role = r, content = c, timestamp = now\<rparr>],
                       updatedAt := now\<rparr>
      in (conv', store1(ident \<mapsto> conv')))"

text \<open>The copy in index.js reads the conversation through \<open>getConversation\<close>, which
  gives \<open>null\<close> for an empty identifier and refreshes \<open>updatedAt\<close>.\<close>

definition mcp_addMessageToConversation ::
  "string \<Rightarrow> int \<Rightarrow> int \<Rightarrow> (string \<rightharpoonup> conversation) \<Rightarrow> string \<Rightarrow> string \<Rightarrow> string \<Rightarrow>
   conversation \<times> (string \<rightharpoonup> conversation)" where
  "mcp_addMessageToConversation uuid now now_created conversationStore conversationId r c =
     (let found = (if conversationId = [] then None else conversationStore conversationId);
          (conv, store1) =
            (case found of
               Some existing \<Rightarrow> (existing, conversationStore)
             | None \<Rightarrow>
                 (let ident = (if conversationId \<noteq> [] then conversationId else uuid);
                      fresh = \<lparr>conv_id = ident, messages = [], createdAt = now_created,
                               updatedAt = now_created, metadata = JObj []\<rparr>
                  in (fresh, conversationStore(ident \<mapsto> fresh))));
          ident = (case found of Some _ \<Rightarrow> conversationId | None \<Rightarrow> conv_id conv);
          conv' = conv\<lparr>messages := evict_oldest (messages conv) @
                                     [\<lparr>role = r, content = c, timestamp = now\<rparr>],
                       updatedAt := now\<rparr>
      in (conv', store1(ident \<mapsto> conv')))"

subsection \<open>SQLite backend\<close>

text \<open>
  The \<open>messages\<close> table as the list of its rows in rowid order, which is insertion
  order: \<open>id INTEGER PRIMARY KEY AUTOINCREMENT\<close> gives every new row a rowid above all
  rowids used before. \<open>ORDER BY id\<close> is the order of the list, and \<open>LIMIT 1\<close> without an
  order is taken to return the first matching row of the list. The \<open>conversations\<close>
  table is a map from the primary key to metadata, \<open>created_at\<close> and \<open>updated_at\<close>.
\<close>

record message_row = turn +
  row_id :: nat
  conversation_id :: string

record database =
  conversation_rows :: "string \<rightharpoonup> (json \<times> int \<times> int)"
  message_rows :: "message_row list"
  next_row_id :: nat

definition createConversation_sqlite ::
  "string \<Rightarrow> int \<Rightarrow> string \<Rightarrow> json \<Rightarrow> database \<Rightarrow> database" where
  "createConversation_sqlite uuid now conversationId meta db =
     (let ident = (if conversationId \<noteq> [] then conversationId else uuid)
      in db\<lparr>conversation_rows := (conversation_rows db)(ident \<mapsto> (meta, now, now))\<rparr>)"

text \<open>\<open>SELECT ... FROM messages WHERE conversation_id = ? ORDER BY id\<close>\<close>

definition rows_of :: "database \<Rightarrow> string \<Rightarrow> message_row list" where
  "rows_of db conversationId =
     filter (\<lambda>row. conversation_id row = conversationId) (message_rows db)"

text \<open>\<open>DELETE FROM messages WHERE id = ?\<close> for every identifier of a result set.\<close>

definition delete_rows :: "nat list \<Rightarrow> database \<Rightarrow> database" where
  "delete_rows ids db =
     db\<lparr>message_rows := filter (\<lambda>row. row_id row \<notin> set ids) (message_rows db)\<rparr>"

definition addMessageToConversation_sqlite ::
  "string \<Rightarrow> int \<Rightarrow> int \<Rightarrow> database \<Rightarrow> string \<Rightarrow> string \<Rightarrow> string \<Rightarrow> database" where
  "addMessageToConversation_sqlite uuid now now_created db conversationId r c =
     (let db1 = (if conversation_rows db conversationId = None
                 then createConversation_sqlite uuid now_created conversationId (JObj []) db
                 else db);
          mine = rows_of db1 conversationId;
          count = length mine;
          db2 =
            (if count \<ge> MAX_MESSAGES_PER_CONVERSATION then
               (let deleteCount = count - MAX_MESSAGES_PER_CONVERSATION + 2 in
                case List.find (\<lambda>row. role row = ''system'') mine of
                  Some systemRow \<Rightarrow>
                    delete_rows
                      (take deleteCount
                         (map row_id (filter (\<lambda>row. row_id row \<noteq> row_id systemRow) mine)))
                      db1
                | None \<Rightarrow> delete_rows (take deleteCount (map row_id mine)) db1)
             else db1);
          db3 = db2\<lparr>message_rows := message_rows db2 @
                       [\<lparr>role = r, content = c, timestamp = now,
                         row_id = next_row_id db2, conversation_id = conversationId\<rparr>],
                    next_row_id := Suc (next_row_id db2)\<rparr>
      in db3\<lparr>conversation_rows :=
               (case conversation_rows db3 conversationId of
                  None \<Rightarrow> conversation_rows db3
                | Some (meta, created, _) \<Rightarrow>
                    (conversation_rows db3)(conversationId \<mapsto> (meta, created, now)))\<rparr>)"

text \<open>The rows of the conversation that survive the eviction of the SQLite branch.\<close>

definition kept_rows :: "message_row list \<Rightarrow> message_row list" where
  "kept_rows mine =
     (if length mine \<ge> 100 then
        (case List.find (\<lambda>row. role row = ''system'') mine of
           Some systemRow \<Rightarrow>
             filter (\<lambda>row. row_id row \<notin> set (take (length mine - 98)
                       (map row_id (filter (\<lambda>row. row_id row \<noteq> row_id systemRow) mine)))) mine
         | None \<Rightarrow>
             filter (\<lambda>row. row_id row \<notin> set (take (length mine - 98) (map row_id mine))) mine)
      else mine)"

text \<open>A conversation at the limit, in each backend: a system turn and a hundred user
  turns.\<close>

definition sample_turn :: "string \<Rightarrow> turn" where
  "sample_turn r = \<lparr>role = r, content = ''text'', timestamp = 0\<rparr>"

definition full_store :: "string \<rightharpoonup> conversation" where
  "full_store =
     [''c'' \<mapsto> \<lparr>conv_id = ''c'',
                 messages = sample_turn ''system'' # replicate 100 (sample_turn ''user''),
                 createdAt = 0, updatedAt = 0, metadata = JObj []\<rparr>]"

definition sample_row :: "nat \<Rightarrow> message_row" where
  "sample_row i =
     \<lparr>role = (if i = 0 then ''system'' else ''user''), content = ''text'', timestamp = 0,
      row_id = i, conversation_id = ''c''\<rparr>"

definition full_database :: database where
  "full_database =
     \<lparr>conversation_rows = [''c'' \<mapsto> (JObj [], 0, 0)],
      message_rows = map sample_row [0..<101],
      next_row_id = 101\<rparr>"

section \<open>Credential rotation and failure tracking (index.js)\<close>

text \<open>
  The module state of the key management: the cursor and the two counter maps. The
  constants \<open>API_KEYS\<close> and \<open>KEY_MODE\<close> are parameters. \<open>xs[i]\<close> is \<open>undefined\<close> (\<open>None\<close>)
  outside the list.
\<close>

record rotator =
  currentKeyIndex :: nat
  keyUsageCount :: "string option \<Rightarrow> nat option"
  keyErrorCount :: "string option \<Rightarrow> nat option"

definition initial_rotator :: rotator where
  "initial_rotator =
     \<lparr>currentKeyIndex = 0, keyUsageCount = (\<lambda>_. None), keyErrorCount = (\<lambda>_. None)\<rparr>"

definition at_index :: "'a list \<Rightarrow> nat \<Rightarrow> 'a option" where
  "at_index xs i = (if i < length xs then Some (xs ! i) else None)"

text \<open>\<open>(m.get(key) || 0) + 1\<close>\<close>

definition bump :: "(string option \<Rightarrow> nat option) \<Rightarrow> string option \<Rightarrow> (string option \<Rightarrow> nat option)" where
  "bump m key = m(key := Some ((case m key of None \<Rightarrow> 0 | Some c \<Rightarrow> c) + 1))"

text \<open>
  \<open>getNextApiKey\<close>; \<open>rnd\<close> is the value of \<open>Math.random()\<close>, a real in \<open>[0, 1)\<close>. The
  result is the thrown error message or the key with the new state.
\<close>

definition getNextApiKey ::
  "string list \<Rightarrow> string \<Rightarrow> real \<Rightarrow> rotator \<Rightarrow> string + (string option \<times> rotator)" where
  "getNextApiKey API_KEYS KEY_MODE rnd s =
     (if length API_KEYS = 0 then Inl ''No API keys configured''
      else
        (let (key, s1) =
           (if length API_KEYS = 1 then (at_index API_KEYS 0, s)
            else if KEY_MODE = ''sequential'' then (at_index API_KEYS (currentKeyIndex s), s)
            else if KEY_MODE = ''random'' then
              (at_index API_KEYS (nat \<lfloor>rnd * real (length API_KEYS)\<rfloor>), s)
            else (at_index API_KEYS (currentKeyIndex s),
                  s\<lparr>currentKeyIndex := (currentKeyIndex s + 1) mod length API_KEYS\<rparr>))
         in Inr (key, s1\<lparr>keyUsageCount := bump (keyUsageCount s1) key\<rparr>)))"

text \<open>\<open>markKeyError\<close>. It is only called with a key \<open>getNextApiKey\<close> returned, hence with
  a pool that is not empty.\<close>

definition markKeyError :: "string list \<Rightarrow> string \<Rightarrow> string option \<Rightarrow> rotator \<Rightarrow> rotator" where
  "markKeyError API_KEYS KEY_MODE key s =
     (let s1 = s\<lparr>keyErrorCount := bump (keyErrorCount s) key\<rparr>
      in if KEY_MODE = ''sequential''
         then s1\<lparr>currentKeyIndex := (currentKeyIndex s1 + 1) mod length API_KEYS\<rparr>
         else s1)"

text \<open>\<open>n\<close> calls of \<open>getNextApiKey\<close> in a row: the keys returned and the final state.\<close>

fun next_keys ::
  "string list \<Rightarrow> string \<Rightarrow> real \<Rightarrow> nat \<Rightarrow> rotator \<Rightarrow> string option list \<times> rotator" where
  "next_keys API_KEYS KEY_MODE rnd 0 s = ([], s)"
| "next_keys API_KEYS KEY_MODE rnd (Suc n) s =
     (case getNextApiKey API_KEYS KEY_MODE rnd s of
        Inl _ \<Rightarrow> ([], s)
      | Inr (key, s') \<Rightarrow>
          (let (keys, s'') = next_keys API_KEYS KEY_MODE rnd n s' in (key # keys, s'')))"

subsection \<open>Failure tracking of the custom agent\<close>

record breaker =
  youAgentFailureCount :: nat
  youAgentDisabled :: bool

definition initial_breaker :: breaker where
  "initial_breaker = \<lparr>youAgentFailureCount = 0, youAgentDisabled = False\<rparr>"

text \<open>\<open>parseInt(process.env.YDC_AGENT_FAILURE_THRESHOLD) || 3\<close>; the argument is the
  result of \<open>parseInt\<close>, \<open>None\<close> for \<open>NaN\<close>.\<close>

definition YOU_AGENT_FAILURE_THRESHOLD :: "int option \<Rightarrow> int" where
  "YOU_AGENT_FAILURE_THRESHOLD parsed =
     (case parsed of None \<Rightarrow> 3 | Some n \<Rightarrow> if n = 0 then 3 else n)"

text \<open>\<open>recordYouAgentFailure\<close> returns \<open>{count, disabled}\<close> and the new state.\<close>

definition recordYouAgentFailure :: "int \<Rightarrow> breaker \<Rightarrow> (nat \<times> bool) \<times> breaker" where
  "recordYouAgentFailure threshold s =
     (let s1 = s\<lparr>youAgentFailureCount := youAgentFailureCount s + 1\<rparr>;
          s2 = (if int (youAgentFailureCount s1) \<ge> threshold
                then s1\<lparr>youAgentDisabled := True\<rparr> else s1)
      in ((youAgentFailureCount s2, youAgentDisabled s2), s2))"

definition resetYouAgentFailures :: "breaker \<Rightarrow> breaker" where
  "resetYouAgentFailures s = s\<lparr>youAgentFailureCount := 0, youAgentDisabled := False\<rparr>"

definition getYouAgentStatus :: "int \<Rightarrow> breaker \<Rightarrow> nat \<times> int \<times> bool" where
  "getYouAgentStatus threshold s = (youAgentFailureCount s, threshold, youAgentDisabled s)"

text \<open>
  The single-call branch of \<open>callCustomAgent\<close> (\<open>count === 1\<close>), after the optional
  probe. \<open>upstream key\<close> is what \<open>callYouApi\<close>, \<open>response.json()\<close> and \<open>extractText\<close>
  give for the key: the text, or the message of the error one of them throws. The reply
  is the JSON the tool returns: \<open>Succeeded result\<close>, or \<open>Failed error current_failures
  threshold suggestion\<close>.
\<close>

datatype agent_reply = Succeeded string | Failed string nat int string

definition failure_suggestion :: "nat \<Rightarrow> int \<Rightarrow> string" where
  "failure_suggestion count threshold =
     (if int count \<ge> threshold
      then ''Threshold reached. Recommend switching to you_advanced or asking user for guidance.''
      else ''Failure '' @ number_to_string (int count) @ ''/'' @ number_to_string threshold @
           ''. You may retry or switch to you_advanced.'')"

definition callCustomAgent ::
  "string list \<Rightarrow> string \<Rightarrow> real \<Rightarrow> int \<Rightarrow> (string option \<Rightarrow> string + string) \<Rightarrow>
   rotator \<times> breaker \<Rightarrow> string + (agent_reply \<times> rotator \<times> breaker)" where
  "callCustomAgent API_KEYS KEY_MODE rnd threshold upstream st =
     (case getNextApiKey API_KEYS KEY_MODE rnd (fst st) of
        Inl e \<Rightarrow> Inl e
      | Inr (apiKey, rot) \<Rightarrow>
          (case upstream apiKey of
             Inr result \<Rightarrow> Inr (Succeeded result, rot, snd st)
           | Inl message \<Rightarrow>
               (let rot' = markKeyError API_KEYS KEY_MODE apiKey rot;
                    (failureStatus, brk') = recordYouAgentFailure threshold (snd st)
                in Inr (Failed message (fst failureStatus) threshold
                          (failure_suggestion (fst failureStatus) threshold),
                        rot', brk'))))"

text \<open>What can happen to the failure tracking: a call of the custom agent that
  succeeds or fails, or the explicit reset.\<close>

datatype breaker_event = CallSucceeded | CallFailed | ResetFailures

fun breaker_step :: "int \<Rightarrow> breaker \<Rightarrow> breaker_event \<Rightarrow> breaker" where
  "breaker_step threshold s CallSucceeded = s"
| "breaker_step threshold s CallFailed = snd (recordYouAgentFailure threshold s)"
| "breaker_step threshold s ResetFailures = resetYouAgentFailures s"

section \<open>Authentication middleware (lib/auth-middleware.js)\<close>

text \<open>
  The middleware reads \<open>req.headers.authorization\<close> (a string, or absent), and either
  answers with a JSON error and a status, or calls \<open>next()\<close>. The module constant
  \<open>ACCESS_TOKENS\<close> is a parameter of the model; \<open>REQUIRE_TOKEN_AUTH\<close> is derived from
  it as in the source.
\<close>

datatype auth_outcome =
    Rejected nat string string string   \<comment> \<open>status, message, type, code\<close>
  | Next

definition REQUIRE_TOKEN_AUTH :: "string list \<Rightarrow> bool" where
  "REQUIRE_TOKEN_AUTH ACCESS_TOKENS = (length ACCESS_TOKENS > 0)"

definition authenticate :: "string list \<Rightarrow> string option \<Rightarrow> auth_outcome" where
  "authenticate ACCESS_TOKENS authorization =
     (case authorization of
        None \<Rightarrow> Rejected 401 ''Invalid authentication credentials''
                  ''invalid_request_error'' ''invalid_api_key''
      | Some authHeader \<Rightarrow>
          if authHeader = [] \<or> \<not> startsWith authHeader ''Bearer '' then
            Rejected 401 ''Invalid authentication credentials''
              ''invalid_request_error'' ''invalid_api_key''
          else if REQUIRE_TOKEN_AUTH ACCESS_TOKENS then
            (let token = drop 7 authHeader in
             if token \<notin> set ACCESS_TOKENS then
               Rejected 401 ''Invalid access token''
                 ''invalid_request_error'' ''invalid_access_token''
             else Next)
          else Next)"

fun status_of :: "auth_outcome \<Rightarrow> nat option" where
  "status_of (Rejected st _ _ _) = Some st"
| "status_of Next = None"


section \<open>Properties\<close>

subsection \<open>Line reassembly\<close>

lemma split_not_Nil [simp]: "split sep s \<noteq> []"
  by (induction s) (auto split: list.splits)

lemma split_append:
  "split sep (xs @ ys) = butlast (split sep xs) @ split sep (last (split sep xs) @ ys)"
proof (induction xs)
  case Nil
  show ?case by simp
next
  case (Cons c cs)
  obtain l ls where sp: "split sep cs = l # ls"
    by (cases "split sep cs") (use split_not_Nil in auto)
  show ?case
  proof (cases "c = sep")
    case True
    with Cons sp show ?thesis by simp
  next
    case False
    show ?thesis
    proof (cases ls)
      case Nil
      with False Cons sp show ?thesis by simp
    next
      case (Cons a as)
      with False Cons.IH sp show ?thesis by simp
    qed
  qed
qed

lemma split_no_sep: "sep \<notin> set s \<Longrightarrow> split sep s = [s]"
  by (induction s) auto

lemma split_pieces_no_sep: "l \<in> set (split sep s) \<Longrightarrow> sep \<notin> set l"
proof (induction s arbitrary: l)
  case Nil
  then show ?case by simp
next
  case (Cons c cs)
  obtain x xs where sp: "split sep cs = x # xs"
    by (cases "split sep cs") (use split_not_Nil in auto)
  from Cons sp show ?case
    by (cases "c = sep") auto
qed

lemma last_split_no_sep: "sep \<notin> set (last (split sep s))"
  using split_pieces_no_sep [of "last (split sep s)" sep s] by simp

lemma foldl_buffer_commute:
  assumes "\<And>st l b. f (st\<lparr>buffer := b\<rparr>) l = (f st l)\<lparr>buffer := b\<rparr>"
  shows "foldl f (st\<lparr>buffer := b\<rparr>) ls = (foldl f st ls)\<lparr>buffer := b\<rparr>"
  by (induction ls arbitrary: st) (simp_all add: assms)

lemma foldl_reassemble:
  assumes comm: "\<And>st l b. f (st\<lparr>buffer := b\<rparr>) l = (f st l)\<lparr>buffer := b\<rparr>"
    and nosep: "CHR 0x0A \<notin> set (buffer st)"
  shows "foldl (reassemble f) st cs =
         (foldl f st (butlast (split CHR 0x0A (buffer st @ concat cs))))
           \<lparr>buffer := last (split CHR 0x0A (buffer st @ concat cs))\<rparr>"
  using nosep
proof (induction cs arbitrary: st)
  case Nil
  then show ?case by (simp add: split_no_sep)
next
  case (Cons c cs)
  let ?L = "split CHR 0x0A (buffer st @ c)"
  let ?st1 = "reassemble f st c"
  have b1: "buffer ?st1 = last ?L"
    by (simp add: reassemble_def)
  have ns: "CHR 0x0A \<notin> set (buffer ?st1)"
    unfolding b1 by (rule last_split_no_sep)
  have whole: "split CHR 0x0A (buffer st @ concat (c # cs)) =
               butlast ?L @ split CHR 0x0A (last ?L @ concat cs)"
    using split_append [of "CHR 0x0A" "buffer st @ c" "concat cs"] by simp
  have bl: "butlast (split CHR 0x0A (buffer st @ concat (c # cs))) =
            butlast ?L @ butlast (split CHR 0x0A (last ?L @ concat cs))"
    unfolding whole by (simp add: butlast_append)
  have la: "last (split CHR 0x0A (buffer st @ concat (c # cs))) =
            last (split CHR 0x0A (last ?L @ concat cs))"
    unfolding whole by simp
  have "foldl (reassemble f) st (c # cs) = foldl (reassemble f) ?st1 cs"
    by simp
  also have "\<dots> = (foldl f ?st1 (butlast (split CHR 0x0A (buffer ?st1 @ concat cs))))
           \<lparr>buffer := last (split CHR 0x0A (buffer ?st1 @ concat cs))\<rparr>"
    by (rule Cons.IH [OF ns])
  also have "\<dots> = (foldl f st (butlast (split CHR 0x0A (buffer st @ concat (c # cs)))))
           \<lparr>buffer := last (split CHR 0x0A (buffer st @ concat (c # cs)))\<rparr>"
    unfolding b1 bl la
    by (simp add: reassemble_def foldl_buffer_commute [of f, OF comm])
  finally show ?case .
qed

text \<open>The line handlers never touch the line buffer.\<close>

lemma messages_delta_step_buffer:
  "messages_delta_step (st\<lparr>buffer := b\<rparr>) p = (messages_delta_step st p)\<lparr>buffer := b\<rparr>"
  by (simp add: messages_delta_step_def split: option.splits)

lemma messages_output_item_buffer:
  "messages_output_item (st\<lparr>buffer := b\<rparr>) item =
   map_completion (\<lambda>s. s\<lparr>buffer := b\<rparr>) (messages_output_item st item)"
  by (simp add: messages_output_item_def split: option.splits)

lemma messages_output_items_buffer:
  "messages_output_items (st\<lparr>buffer := b\<rparr>) items =
   map_completion (\<lambda>s. s\<lparr>buffer := b\<rparr>) (messages_output_items st items)"
proof (induction items arbitrary: st)
  case Nil
  show ?case by simp
next
  case (Cons item items)
  show ?case
    by (cases "messages_output_item st item")
       (simp_all add: messages_output_item_buffer Cons.IH)
qed

lemma settle_map_completion: "settle (map_completion g c) = g (settle c)"
  by (cases c) simp_all

lemma messages_output_step_buffer:
  "messages_output_step (st\<lparr>buffer := b\<rparr>) p =
   map_completion (\<lambda>s. s\<lparr>buffer := b\<rparr>) (messages_output_step st p)"
  by (simp add: messages_output_step_def messages_output_items_buffer
           split: option.splits json.splits)

lemma messages_record_buffer:
  "messages_record (st\<lparr>buffer := b\<rparr>) p = (messages_record st p)\<lparr>buffer := b\<rparr>"
  by (simp add: messages_record_def messages_delta_step_buffer messages_output_step_buffer
        settle_map_completion)

lemma messages_line_buffer:
  "messages_line parse (st\<lparr>buffer := b\<rparr>) l = (messages_line parse st l)\<lparr>buffer := b\<rparr>"
  by (simp add: messages_line_def messages_record_buffer Let_def split: option.splits)

lemma chat_line_buffer:
  "chat_line parse clock model (st\<lparr>buffer := b\<rparr>) l = (chat_line parse clock model st l)\<lparr>buffer := b\<rparr>"
  by (simp add: chat_line_def split: option.splits)

lemma messages_chunk_reassemble: "messages_chunk parse st c = reassemble (messages_line parse) st c"
proof -
  have "(case split CHR 0x0A (buffer st @ c) of [] \<Rightarrow> [] | _ \<Rightarrow> last (split CHR 0x0A (buffer st @ c)))
        = last (split CHR 0x0A (buffer st @ c))"
    by (cases "split CHR 0x0A (buffer st @ c)") (use split_not_Nil in auto)
  then show ?thesis
    by (simp add: messages_chunk_def reassemble_def Let_def
          foldl_buffer_commute [of "messages_line parse", OF messages_line_buffer])
qed

lemma chat_chunk_reassemble:
  "chat_chunk parse clock model st c = reassemble (chat_line parse clock model) st c"
proof -
  have "(case split CHR 0x0A (buffer st @ c) of [] \<Rightarrow> [] | _ \<Rightarrow> last (split CHR 0x0A (buffer st @ c)))
        = last (split CHR 0x0A (buffer st @ c))"
    by (cases "split CHR 0x0A (buffer st @ c)") (use split_not_Nil in auto)
  then show ?thesis
    by (simp add: chat_chunk_def reassemble_def Let_def
          foldl_buffer_commute [of "chat_line parse clock model", OF chat_line_buffer])
qed

lemma empty_session_buffer: "CHR 0x0A \<notin> set (buffer empty_session)"
  by (simp add: empty_session_def)

lemma foldl_messages_chunk:
  assumes "CHR 0x0A \<notin> set (buffer st)"
  shows "foldl (messages_chunk parse) st chunks =
     (foldl (messages_line parse) st (butlast (split CHR 0x0A (buffer st @ concat chunks))))
       \<lparr>buffer := last (split CHR 0x0A (buffer st @ concat chunks))\<rparr>"
proof -
  have "messages_chunk parse = reassemble (messages_line parse)"
    by (intro ext) (rule messages_chunk_reassemble)
  then show ?thesis
    using foldl_reassemble [of "messages_line parse" st chunks, OF messages_line_buffer assms]
    by simp
qed

lemma foldl_chat_chunk:
  assumes "CHR 0x0A \<notin> set (buffer st)"
  shows "foldl (chat_chunk parse clock model) st chunks =
     (foldl (chat_line parse clock model) st (butlast (split CHR 0x0A (buffer st @ concat chunks))))
       \<lparr>buffer := last (split CHR 0x0A (buffer st @ concat chunks))\<rparr>"
proof -
  have "chat_chunk parse clock model = reassemble (chat_line parse clock model)"
    by (intro ext) (rule chat_chunk_reassemble)
  then show ?thesis
    using foldl_reassemble [of "chat_line parse clock model" st chunks, OF chat_line_buffer assms]
    by simp
qed

lemma foldl_messages_chunk_concat:
  assumes "CHR 0x0A \<notin> set (buffer st)"
  shows "foldl (messages_chunk parse) st chunks = foldl (messages_chunk parse) st [concat chunks]"
  using foldl_messages_chunk [OF assms, of parse chunks]
        foldl_messages_chunk [OF assms, of parse "[concat chunks]"]
  by simp

lemma foldl_chat_chunk_concat:
  assumes "CHR 0x0A \<notin> set (buffer st)"
  shows "foldl (chat_chunk parse clock model) st chunks =
         foldl (chat_chunk parse clock model) st [concat chunks]"
  using foldl_chat_chunk [OF assms, of parse clock model chunks]
        foldl_chat_chunk [OF assms, of parse clock model "[concat chunks]"]
  by simp

lemma messages_initial_buffer: "CHR 0x0A \<notin> set (buffer (messages_initial now model cid))"
  by (simp add: messages_initial_def)

lemma messages_stream_concat:
  "messages_stream parse now model env cid (Response (Body chunks e)) =
   messages_stream parse now model env cid (Response (Body [concat chunks] e))"
  unfolding messages_stream_def Let_def call_result.case body.case
  by (rule arg_cong [where f = "\<lambda>s. messages_finish env cid s e"])
     (rule foldl_messages_chunk_concat [OF messages_initial_buffer])

text \<open>The arrivals of the flat-delta route: chunks in a row are a run of the loop, and
  neither a chunk nor a timeout leaves a newline in the line buffer.\<close>

lemma foldl_chat_arrival_chunks:
  "foldl (chat_arrival parse clock model) st (map Chunk chunks) =
   foldl (chat_chunk parse clock model) st chunks"
  by (induction chunks arbitrary: st) (simp_all add: chat_arrival_def)

lemma chat_arrival_buffer:
  assumes "CHR 0x0A \<notin> set (buffer st)"
  shows "CHR 0x0A \<notin> set (buffer (chat_arrival parse clock model st a))"
proof (cases a)
  case (Chunk c)
  have "buffer (chat_chunk parse clock model st c) = last (split CHR 0x0A (buffer st @ c))"
    by (simp add: chat_chunk_reassemble reassemble_def)
  with Chunk show ?thesis
    by (simp add: chat_arrival_def last_split_no_sep)
next
  case Deadline
  with assms show ?thesis
    by (simp add: chat_arrival_def chat_timeout_def)
qed

lemma foldl_chat_arrival_buffer:
  "CHR 0x0A \<notin> set (buffer st) \<Longrightarrow>
   CHR 0x0A \<notin> set (buffer (foldl (chat_arrival parse clock model) st as))"
  by (induction as arbitrary: st) (simp_all add: chat_arrival_buffer)

lemma handleStreamingResponse_concat:
  "handleStreamingResponse parse clock model env cid (Body (pre @ map Chunk chunks @ post) e) =
   handleStreamingResponse parse clock model env cid (Body (pre @ [Chunk (concat chunks)] @ post) e)"
proof -
  let ?s = "foldl (chat_arrival parse clock model) (empty_session\<lparr>timer := True\<rparr>) pre"
  have ns: "CHR 0x0A \<notin> set (buffer ?s)"
    by (rule foldl_chat_arrival_buffer) (simp add: empty_session_def)
  have "foldl (chat_arrival parse clock model) ?s (map Chunk chunks) =
        foldl (chat_arrival parse clock model) ?s (map Chunk [concat chunks])"
    unfolding foldl_chat_arrival_chunks by (rule foldl_chat_chunk_concat [OF ns])
  then have "foldl (chat_arrival parse clock model) (empty_session\<lparr>timer := True\<rparr>)
               (pre @ map Chunk chunks @ post) =
             foldl (chat_arrival parse clock model) (empty_session\<lparr>timer := True\<rparr>)
               (pre @ [Chunk (concat chunks)] @ post)"
    by simp
  then show ?thesis
    by (simp only: handleStreamingResponse_def body.case)
qed


subsection \<open>The loop of the typed-block route and its fragments\<close>

lemma with_fragments_Nil [simp]: "with_fragments st [] (fullContent st) = st"
  by (simp add: with_fragments_def)

lemma with_fragments_twice [simp]:
  "with_fragments (with_fragments st fs a) gs b = with_fragments st (fs @ gs) b"
  by (simp add: with_fragments_def)

lemma with_fragments_fullContent [simp]: "fullContent (with_fragments st fs a) = a"
  by (simp add: with_fragments_def)

lemma messages_output_items_fragments:
  "settle (messages_output_items st items) =
   with_fragments st (fst (output_fragments (fullContent st) items))
     (snd (output_fragments (fullContent st) items))"
proof (induction items arbitrary: st)
  case Nil
  show ?case by simp
next
  case (Cons item items)
  show ?case
  proof (cases "messages_output_item st item")
    case (Thrown st')
    then show ?thesis
      by (auto simp: messages_output_item_def split: if_splits option.splits)
  next
    case (Normal st')
    then consider (same) "st' = st"
        "output_fragments (fullContent st) (item # items) = output_fragments (fullContent st) items"
      | (emit) tx newText where
        "st' = st\<lparr>fullContent := tx, written := written st @ [createContentBlockDeltaEvent newText 0]\<rparr>"
        "output_fragments (fullContent st) (item # items) =
           (newText # fst (output_fragments tx items), snd (output_fragments tx items))"
      by (auto simp: messages_output_item_def split: if_splits option.splits)
    then show ?thesis
    proof cases
      case same
      with Normal Cons.IH [of st] show ?thesis by simp
    next
      case emit
      have "settle (messages_output_items st (item # items)) = settle (messages_output_items st' items)"
        using Normal by simp
      also have "\<dots> = with_fragments st' (fst (output_fragments tx items))
                        (snd (output_fragments tx items))"
        using Cons.IH [of st'] emit(1) by simp
      also have "\<dots> = with_fragments st (newText # fst (output_fragments tx items))
                        (snd (output_fragments tx items))"
        unfolding emit(1) by (simp add: with_fragments_def)
      finally show ?thesis
        unfolding emit(2) by simp
    qed
  qed
qed

lemma messages_record_fragments:
  "messages_record st parsed =
   with_fragments st (fst (record_fragments (fullContent st) parsed))
     (snd (record_fragments (fullContent st) parsed))"
proof (cases "parsed = JNull")
  case True
  then show ?thesis by (simp add: messages_record_def record_fragments_def)
next
  case False
  let ?st1 = "messages_delta_step st parsed"
  let ?ds = "case answer_delta parsed of None \<Rightarrow> [] | Some d \<Rightarrow> [d]"
  let ?acc1 = "case answer_delta parsed of None \<Rightarrow> fullContent st | Some d \<Rightarrow> js_plus (fullContent st) d"
  have truthy_delta: "truthy d" if "answer_delta parsed = Some d" for d
    using that by (auto simp: answer_delta_def split: if_splits option.splits)
  have s1: "?st1 = with_fragments st ?ds ?acc1"
    by (cases "answer_delta parsed")
       (simp_all add: messages_delta_step_def with_fragments_def truthy_delta)
  have fc1: "fullContent ?st1 = ?acc1"
    unfolding s1 by simp
  show ?thesis
  proof (cases "js_get parsed ''output''")
    case None
    with False s1 show ?thesis
      by (simp add: messages_record_def messages_output_step_def record_fragments_def Let_def)
  next
    case (Some outv)
    show ?thesis
    proof (cases "\<exists>items. outv = JArr items")
      case True
      then obtain items where o: "outv = JArr items" by blast
      have "messages_record st parsed = settle (messages_output_items ?st1 items)"
        using False Some o by (simp add: messages_record_def messages_output_step_def)
      also have "\<dots> = with_fragments ?st1 (fst (output_fragments ?acc1 items))
                         (snd (output_fragments ?acc1 items))"
        unfolding messages_output_items_fragments fc1 ..
      also have "\<dots> = with_fragments st (?ds @ fst (output_fragments ?acc1 items))
                         (snd (output_fragments ?acc1 items))"
        unfolding s1 by simp
      finally show ?thesis
        using False Some o by (simp add: record_fragments_def Let_def)
    next
      case no: False
      have "messages_record st parsed = ?st1"
        using False Some no
        by (cases outv) (simp_all add: messages_record_def messages_output_step_def)
      moreover have "record_fragments (fullContent st) parsed = (?ds, ?acc1)"
        using False Some no
        by (cases outv) (simp_all add: record_fragments_def Let_def)
      ultimately show ?thesis
        using s1 by simp
    qed
  qed
qed

lemma messages_line_payload:
  "messages_line parse st l =
     (case messages_payload parse l of None \<Rightarrow> st | Some p \<Rightarrow> messages_record st p)"
  by (simp add: messages_line_def messages_payload_def Let_def)

lemma foldl_messages_line:
  "foldl (messages_line parse) st ls =
   with_fragments st
     (fst (demultiplex (fullContent st) (List.map_filter (messages_payload parse) ls)))
     (snd (demultiplex (fullContent st) (List.map_filter (messages_payload parse) ls)))"
proof (induction ls arbitrary: st)
  case Nil
  show ?case by (simp add: List.map_filter_simps)
next
  case (Cons l ls)
  have step: "foldl (messages_line parse) st (l # ls) =
              foldl (messages_line parse) (messages_line parse st l) ls"
    by simp
  show ?case
  proof (cases "messages_payload parse l")
    case None
    then show ?thesis
      unfolding step Cons.IH
      by (simp add: messages_line_payload List.map_filter_simps)
  next
    case (Some p)
    then show ?thesis
      unfolding step Cons.IH
      by (simp add: messages_line_payload List.map_filter_simps messages_record_fragments)
  qed
qed

lemma messages_run:
  "foldl (messages_chunk parse) (messages_initial now model cid) chunks =
     \<lparr>buffer = last (split CHR 0x0A (concat chunks)),
      fullContent = messages_accumulated parse chunks,
      written = [createMessageStartEvent now model (Some cid), createContentBlockStartEvent 0] @
                map (\<lambda>f. createContentBlockDeltaEvent f 0) (messages_fragments parse chunks),
      ticks = 0, timer = False, ended = None\<rparr>"
  unfolding foldl_messages_chunk [OF messages_initial_buffer] foldl_messages_line
  by (simp add: messages_initial_def with_fragments_def messages_fragments_def
        messages_accumulated_def messages_records_def)

lemma messages_loop:
  "foldl (messages_chunk parse) empty_session chunks =
     \<lparr>buffer = last (split CHR 0x0A (concat chunks)),
      fullContent = messages_accumulated parse chunks,
      written = map (\<lambda>f. createContentBlockDeltaEvent f 0) (messages_fragments parse chunks),
      ticks = 0, timer = False, ended = None\<rparr>"
  unfolding foldl_messages_chunk [OF empty_session_buffer] foldl_messages_line
  by (simp add: empty_session_def with_fragments_def messages_fragments_def
        messages_accumulated_def messages_records_def)

text \<open>When every fragment is a string, the accumulated text is a string that is as
  much longer than before as the fragments are long.\<close>

lemma output_fragments_Cons_cases:
  "output_fragments acc (item # items) = ([], acc) \<or>
   output_fragments acc (item # items) = output_fragments acc items \<or>
   (\<exists>tx newText. js_slice tx (js_length acc) = Some newText \<and> truthy newText \<and>
      output_fragments acc (item # items) =
        (newText # fst (output_fragments tx items), snd (output_fragments tx items)))"
  by (simp split: option.splits) blast

lemma output_fragments_total:
  "list_all is_string (fst (output_fragments (JStr a) items)) \<Longrightarrow>
   \<exists>s. snd (output_fragments (JStr a) items) = JStr s \<and>
       length s = length a + length (concat (map to_string (fst (output_fragments (JStr a) items))))"
proof (induction items arbitrary: a)
  case Nil
  show ?case by simp
next
  case (Cons item items)
  consider (stop) "output_fragments (JStr a) (item # items) = ([], JStr a)"
    | (skip) "output_fragments (JStr a) (item # items) = output_fragments (JStr a) items"
    | (emit) tx newText where "js_slice tx (length a) = Some newText" "truthy newText"
        "output_fragments (JStr a) (item # items) =
           (newText # fst (output_fragments tx items), snd (output_fragments tx items))"
    using output_fragments_Cons_cases [of "JStr a" item items] by auto
  then show ?case
  proof cases
    case stop
    then show ?thesis by simp
  next
    case skip
    with Cons show ?thesis by simp
  next
    case emit
    from Cons.prems emit(3) have str: "is_string newText"
      and rest: "list_all is_string (fst (output_fragments tx items))"
      by simp_all
    from str obtain x where x: "newText = JStr x" by (cases newText) simp_all
    from emit(1) x obtain t where t: "tx = JStr t" "x = drop (length a) t"
      by (cases tx) auto
    from emit(2) x t have lt: "length a < length t" by simp
    from Cons.IH [of t] rest t obtain s where
      s: "snd (output_fragments (JStr t) items) = JStr s"
         "length s = length t + length (concat (map to_string (fst (output_fragments (JStr t) items))))"
      by auto
    have "length t = length a + length x"
      using lt t(2) by simp
    with s show ?thesis
      unfolding emit(3) t(1) x by simp
  qed
qed

lemma record_fragments_total:
  assumes "list_all is_string (fst (record_fragments (JStr a) p))"
  shows "\<exists>s. snd (record_fragments (JStr a) p) = JStr s \<and>
       length s = length a + length (concat (map to_string (fst (record_fragments (JStr a) p))))"
proof (cases "p = JNull")
  case True
  then show ?thesis by (simp add: record_fragments_def)
next
  case False
  let ?ds = "case answer_delta p of None \<Rightarrow> [] | Some d \<Rightarrow> [d]"
  let ?acc1 = "case answer_delta p of None \<Rightarrow> JStr a | Some d \<Rightarrow> js_plus (JStr a) d"
  from assms False have dstr: "list_all is_string ?ds"
    by (simp add: record_fragments_def Let_def)
  have "\<exists>b. ?acc1 = JStr b \<and> length b = length a + length (concat (map to_string ?ds))"
  proof (cases "answer_delta p")
    case None
    then show ?thesis by simp
  next
    case (Some d)
    with dstr obtain x where "d = JStr x" by (cases d) simp_all
    with Some show ?thesis by (simp add: js_plus_def)
  qed
  then obtain b where b: "?acc1 = JStr b"
    "length b = length a + length (concat (map to_string ?ds))"
    by blast
  show ?thesis
  proof (cases "\<exists>items. js_get p ''output'' = Some (JArr items)")
    case True
    then obtain items where o: "js_get p ''output'' = Some (JArr items)" by blast
    have rf: "record_fragments (JStr a) p =
        (?ds @ fst (output_fragments (JStr b) items), snd (output_fragments (JStr b) items))"
      using False o b(1) by (simp add: record_fragments_def Let_def)
    from assms rf have "list_all is_string (fst (output_fragments (JStr b) items))"
      by simp
    from output_fragments_total [OF this] obtain s where
      "snd (output_fragments (JStr b) items) = JStr s"
      "length s = length b + length (concat (map to_string (fst (output_fragments (JStr b) items))))"
      by blast
    with b(2) show ?thesis
      unfolding rf by simp
  next
    case no: False
    have rf: "record_fragments (JStr a) p = (?ds, ?acc1)"
    proof (cases "js_get p ''output''")
      case None
      with False show ?thesis by (simp add: record_fragments_def Let_def)
    next
      case (Some outv)
      with False no show ?thesis
        by (cases outv) (simp_all add: record_fragments_def Let_def)
    qed
    show ?thesis
      unfolding rf using b by simp
  qed
qed

lemma demultiplex_total:
  "list_all is_string (fst (demultiplex (JStr a) rs)) \<Longrightarrow>
   \<exists>s. snd (demultiplex (JStr a) rs) = JStr s \<and>
       length s = length a + length (concat (map to_string (fst (demultiplex (JStr a) rs))))"
proof (induction rs arbitrary: a)
  case Nil
  show ?case by simp
next
  case (Cons r rs)
  from Cons.prems have h: "list_all is_string (fst (record_fragments (JStr a) r))"
    and t: "list_all is_string (fst (demultiplex (snd (record_fragments (JStr a) r)) rs))"
    by simp_all
  from record_fragments_total [OF h] obtain b where
    b: "snd (record_fragments (JStr a) r) = JStr b"
       "length b = length a + length (concat (map to_string (fst (record_fragments (JStr a) r))))"
    by blast
  from Cons.IH [of b] t b(1) obtain s where
    s: "snd (demultiplex (JStr b) rs) = JStr s"
       "length s = length b + length (concat (map to_string (fst (demultiplex (JStr b) rs))))"
    by auto
  show ?case
    using b s by simp
qed

lemma messages_fragments_total:
  assumes "list_all is_string (messages_fragments parse chunks)"
  shows "js_length (messages_accumulated parse chunks) =
         length (concat (map to_string (messages_fragments parse chunks)))"
  using demultiplex_total [of "[]" "messages_records parse chunks"] assms
  by (auto simp: messages_fragments_def messages_accumulated_def)


lemma split_record_messages_written: \<open>written (foldl (messages_chunk json_parse) empty_session
       [''data: {"type":"respo'',
        ''nse.output_text.delta","response":{"type":"message.answer","delta":"hi"}}\<newline>\<newline>''])
     = [createContentBlockDeltaEvent (JStr ''hi'') 0]\<close>
  by code_simp

lemma split_record_messages_fragments: \<open>messages_fragments json_parse
       [''data: {"type":"respo'',
        ''nse.output_text.delta","response":{"type":"message.answer","delta":"hi"}}\<newline>\<newline>'']
     = [JStr ''hi'']\<close>
  by code_simp

lemma split_record_chat_written: \<open>written (foldl (chat_chunk json_parse clock model) empty_session
       [''data: {"type":"respo'',
        ''nse.output_text.delta","response":{"type":"message.answer","delta":"hi"}}\<newline>\<newline>''])
     = chat_chunks clock model 0 [JStr ''hi'']\<close>
  by code_simp

text \<open>
  Claim C2. In both routes, one turn of the read loop appends the decoded chunk to the
  line buffer, splits at newlines, hands every complete line to the line handler in
  order and keeps the last, possibly incomplete piece as the new buffer. Hence what a
  stream produces does not depend on where the network cut it into chunks: chunks that
  arrive in a row can be replaced by their concatenation, in the flat-delta route
  whatever arrives before and after them. The record of the specification's test, cut
  inside a JSON string, yields the single fragment \<open>hi\<close>.
\<close>

theorem line_reassembly:
  \<open>messages_chunk parse st c =
      (foldl (messages_line parse) st (butlast (split CHR 0x0A (buffer st @ c))))
        \<lparr>buffer := last (split CHR 0x0A (buffer st @ c))\<rparr>
   \<and> chat_chunk parse clock model st c =
      (foldl (chat_line parse clock model) st (butlast (split CHR 0x0A (buffer st @ c))))
        \<lparr>buffer := last (split CHR 0x0A (buffer st @ c))\<rparr>
   \<and> foldl (messages_chunk parse) empty_session chunks =
      (foldl (messages_line parse) empty_session (butlast (split CHR 0x0A (concat chunks))))
        \<lparr>buffer := last (split CHR 0x0A (concat chunks))\<rparr>
   \<and> foldl (chat_chunk parse clock model) empty_session chunks =
      (foldl (chat_line parse clock model) empty_session (butlast (split CHR 0x0A (concat chunks))))
        \<lparr>buffer := last (split CHR 0x0A (concat chunks))\<rparr>
   \<and> messages_stream parse now model env cid (Response (Body chunks e)) =
      messages_stream parse now model env cid (Response (Body [concat chunks] e))
   \<and> handleStreamingResponse parse clock model env cid (Body (pre @ map Chunk chunks @ post) e) =
      handleStreamingResponse parse clock model env cid (Body (pre @ [Chunk (concat chunks)] @ post) e)
   \<and> written (foldl (messages_chunk json_parse) empty_session
       [''data: {"type":"respo'',
        ''nse.output_text.delta","response":{"type":"message.answer","delta":"hi"}}\<newline>\<newline>''])
     = [createContentBlockDeltaEvent (JStr ''hi'') 0]
   \<and> messages_fragments json_parse
       [''data: {"type":"respo'',
        ''nse.output_text.delta","response":{"type":"message.answer","delta":"hi"}}\<newline>\<newline>'']
     = [JStr ''hi'']
   \<and> written (foldl (chat_chunk json_parse clock model) empty_session
       [''data: {"type":"respo'',
        ''nse.output_text.delta","response":{"type":"message.answer","delta":"hi"}}\<newline>\<newline>''])
     = chat_chunks clock model 0 [JStr ''hi'']\<close>
proof -
  have a: "messages_chunk parse st c = reassemble (messages_line parse) st c"
    by (rule messages_chunk_reassemble)
  have b: "chat_chunk parse clock model st c = reassemble (chat_line parse clock model) st c"
    by (rule chat_chunk_reassemble)
  have c: "foldl (messages_chunk parse) empty_session chunks =
      (foldl (messages_line parse) empty_session (butlast (split CHR 0x0A (concat chunks))))
        \<lparr>buffer := last (split CHR 0x0A (concat chunks))\<rparr>"
    using foldl_messages_chunk [OF empty_session_buffer, of parse chunks]
    by (simp add: empty_session_def)
  have d: "foldl (chat_chunk parse clock model) empty_session chunks =
      (foldl (chat_line parse clock model) empty_session (butlast (split CHR 0x0A (concat chunks))))
        \<lparr>buffer := last (split CHR 0x0A (concat chunks))\<rparr>"
    using foldl_chat_chunk [OF empty_session_buffer, of parse clock model chunks]
    by (simp add: empty_session_def)
  have a': "messages_chunk parse st c =
      (foldl (messages_line parse) st (butlast (split CHR 0x0A (buffer st @ c))))
        \<lparr>buffer := last (split CHR 0x0A (buffer st @ c))\<rparr>"
    unfolding a by (simp add: reassemble_def)
  have b': "chat_chunk parse clock model st c =
      (foldl (chat_line parse clock model) st (butlast (split CHR 0x0A (buffer st @ c))))
        \<lparr>buffer := last (split CHR 0x0A (buffer st @ c))\<rparr>"
    unfolding b by (simp add: reassemble_def)
  note e = messages_stream_concat [of parse now model env cid chunks e]
  note f = handleStreamingResponse_concat [of parse clock model env cid pre chunks post e]
  note g = split_record_messages_written split_record_messages_fragments
    split_record_chat_written [of clock model]
  from a' b' c d e f g show ?thesis
    by (intro conjI)
qed

theorem line_reassembly_witness:
  \<open>messages_chunk json_parse empty_session ''data: {"type":"respo'' =
      empty_session\<lparr>buffer := ''data: {"type":"respo''\<rparr>
   \<and> chat_chunk json_parse (\<lambda>k. int k) ''m'' empty_session ''data: {"type":"respo'' =
      empty_session\<lparr>buffer := ''data: {"type":"respo''\<rparr>
   \<and> messages_stream json_parse 0 ''m'' quiet_environment ''c''
        (Response (Body [''ab'', ''c\<newline>d''] EndOfStream)) =
      messages_stream json_parse 0 ''m'' quiet_environment ''c''
        (Response (Body [''abc\<newline>d''] EndOfStream))
   \<and> handleStreamingResponse json_parse (\<lambda>k. int k) ''m'' quiet_environment ''c''
        (Body [Deadline, Chunk ''ab'', Chunk ''c\<newline>d'', Deadline] EndOfStream) =
      handleStreamingResponse json_parse (\<lambda>k. int k) ''m'' quiet_environment ''c''
        (Body [Deadline, Chunk ''abc\<newline>d'', Deadline] EndOfStream)
   \<and> messages_fragments json_parse
       [''data: {"type":"respo'',
        ''nse.output_text.delta","response":{"type":"message.answer","delta":"hi"}}\<newline>\<newline>'']
     = [JStr ''hi'']\<close>
  using line_reassembly [of json_parse empty_session \<open>''data: {"type":"respo''\<close>
          "\<lambda>k. int k" "''m''" "[''ab'', ''c\<newline>d'']" 0 quiet_environment "''c''" EndOfStream
          "[Deadline]" "[Deadline]"]
  by (simp add: empty_session_def)

subsection \<open>Delta-style and full-output records\<close>

lemma answer_delta_delta_record: "answer_delta (delta_record d) = (if truthy d then Some d else None)"
  by (simp add: answer_delta_def delta_record_def js_get_def opt_chain_def)

lemma answer_delta_full_record: "answer_delta (full_record items) = None"
  by (simp add: answer_delta_def full_record_def js_get_def)

lemma output_full_record: "js_get (full_record items) ''output'' = Some (JArr items)"
  by (simp add: full_record_def js_get_def)

lemma messages_output_item_string:
  assumes "item \<noteq> JNull" "js_get item ''type'' = Some (JStr ''message.answer'')"
    "js_get item ''text'' = Some (JStr t)" "fullContent st = JStr acc"
  shows "messages_output_item st item =
     Normal (if drop (length acc) t = [] then st
             else st\<lparr>fullContent := JStr t,
                    written := written st @
                      [createContentBlockDeltaEvent (JStr (drop (length acc) t)) 0]\<rparr>)"
  using assms by (auto simp: messages_output_item_def)

lemma answer_text_answer_item [simp]: "answer_text (answer_item t) = Some t"
  by (simp add: answer_text_def answer_item_def js_get_def)

lemma plain_item_answer_item [simp]: "plain_item (answer_item t)"
  by (simp add: plain_item_def answer_item_def js_get_def)

lemma answer_texts_answer_items [simp]: "answer_texts (map answer_item ts) = ts"
  by (induction ts) (simp_all add: answer_texts_def List.map_filter_simps)

lemma plain_answer_items [simp]: "list_all plain_item (map answer_item ts)"
  by (induction ts) simp_all

lemma output_fragments_plain:
  "list_all plain_item items \<Longrightarrow>
   output_fragments (JStr acc) items =
     (map JStr (beyond_length acc (answer_texts items)),
      JStr (longest_so_far acc (answer_texts items)))"
proof (induction items arbitrary: acc)
  case Nil
  show ?case by (simp add: answer_texts_def List.map_filter_simps)
next
  case (Cons item items)
  from Cons.prems have pl: "plain_item item" and rest: "list_all plain_item items"
    by simp_all
  from pl have nn: "item \<noteq> JNull" by (simp add: plain_item_def)
  note IH = Cons.IH [OF rest]
  show ?case
  proof (cases "answer_text item")
    case None
    from None pl have skip: "output_fragments (JStr acc) (item # items) =
        output_fragments (JStr acc) items"
      by (auto simp: answer_text_def plain_item_def split: if_splits option.splits json.splits)
    from None have "answer_texts (item # items) = answer_texts items"
      by (simp add: answer_texts_def List.map_filter_simps)
    with skip IH show ?thesis by simp
  next
    case (Some t)
    then have ty: "js_get item ''type'' = Some (JStr ''message.answer'')"
      and tx: "js_get item ''text'' = Some (JStr t)"
      by (auto simp: answer_text_def split: if_splits option.splits json.splits)
    from Some have ts: "answer_texts (item # items) = t # answer_texts items"
      by (simp add: answer_texts_def List.map_filter_simps)
    show ?thesis
    proof (cases "length acc < length t")
      case True
      then have "output_fragments (JStr acc) (item # items) =
          (JStr (drop (length acc) t) # fst (output_fragments (JStr t) items),
           snd (output_fragments (JStr t) items))"
        using nn ty tx by auto
      with True IH [of t] ts show ?thesis by simp
    next
      case False
      then have "output_fragments (JStr acc) (item # items) = output_fragments (JStr acc) items"
        using nn ty tx by auto
      with False IH [of acc] ts show ?thesis by simp
    qed
  qed
qed

lemma messages_record_full_plain:
  fixes st :: StreamSession
  assumes "fullContent st = JStr acc" "list_all plain_item items"
  shows "messages_record st (full_record items) =
     st\<lparr>fullContent := JStr (longest_so_far acc (answer_texts items)),
        written := written st @
          map (\<lambda>f. createContentBlockDeltaEvent (JStr f) 0) (beyond_length acc (answer_texts items))\<rparr>"
proof -
  have n: "full_record items \<noteq> JNull" by (simp add: full_record_def)
  have "record_fragments (JStr acc) (full_record items) = output_fragments (JStr acc) items"
    using n by (simp add: record_fragments_def answer_delta_full_record output_full_record Let_def)
  then show ?thesis
    using assms
    by (simp add: messages_record_fragments output_fragments_plain with_fragments_def comp_def)
qed

lemma beyond_length_snapshots:
  "beyond_length acc (snapshots acc ps) = filter (\<lambda>p. p \<noteq> []) ps"
  by (induction ps arbitrary: acc) simp_all

lemma longest_so_far_snapshots: "longest_so_far acc (snapshots acc ps) = acc @ concat ps"
  by (induction ps arbitrary: acc) simp_all

lemma beyond_length_total:
  "length (concat (beyond_length acc ts)) + length acc = length (longest_so_far acc ts)"
proof (induction ts arbitrary: acc)
  case Nil
  show ?case by simp
next
  case (Cons t ts)
  show ?case
  proof (cases "length acc < length t")
    case True
    then have "length (drop (length acc) t) + length acc = length t" by simp
    with True Cons.IH [of t] show ?thesis by simp
  next
    case False
    with Cons.IH [of acc] show ?thesis by simp
  qed
qed

lemma foldl_messages_record_single:
  fixes st :: StreamSession
  assumes "fullContent st = JStr acc"
  shows "foldl messages_record st (map (\<lambda>t. full_record [answer_item t]) ts) =
     st\<lparr>fullContent := JStr (longest_so_far acc ts),
        written := written st @
          map (\<lambda>f. createContentBlockDeltaEvent (JStr f) 0) (beyond_length acc ts)\<rparr>"
  using assms
proof (induction ts arbitrary: st acc)
  case Nil
  then show ?case by simp
next
  case (Cons t ts)
  let ?st1 = "messages_record st (full_record [answer_item t])"
  have s1: "?st1 = st\<lparr>fullContent := JStr (longest_so_far acc [t]),
        written := written st @
          map (\<lambda>f. createContentBlockDeltaEvent (JStr f) 0) (beyond_length acc [t])\<rparr>"
    using messages_record_full_plain [of st acc "[answer_item t]"] Cons.prems
    by (simp add: answer_texts_def List.map_filter_simps)
  have step: "foldl messages_record st (map (\<lambda>t. full_record [answer_item t]) (t # ts)) =
              foldl messages_record ?st1 (map (\<lambda>t. full_record [answer_item t]) ts)"
    by simp
  show ?case
  proof (cases "length acc < length t")
    case True
    with s1 have fc: "fullContent ?st1 = JStr t" by simp
    show ?thesis
      unfolding step Cons.IH [OF fc] using True s1 by simp
  next
    case False
    with s1 Cons.prems have fc: "fullContent ?st1 = JStr acc" by simp
    show ?thesis
      unfolding step Cons.IH [OF fc] using False s1 by simp
  qed
qed


lemma replacement_stream_written:
  "written (foldl (messages_chunk json_parse) empty_session replacement_stream) =
     [createContentBlockDeltaEvent (JStr ''ab'') 0, createContentBlockDeltaEvent (JStr ''c'') 0]"
  by code_simp

text \<open>
  Claim C1, as stated, fails when an output list carries more than one answer. Each
  item is cut at the length of the one accumulated text, not at the length seen before
  for that item: when one list carries the items \<open>ab\<close> and \<open>cdef\<close>, nothing of the
  second item has been emitted, yet the loop writes only \<open>ef\<close> of it. On the two
  records of the specification's test the two rules agree.
\<close>

theorem suffix_only_emission_counterexample:
  \<open>written (foldl (messages_chunk json_parse) empty_session two_items_stream) =
     [createContentBlockDeltaEvent (JStr ''ab'') 0, createContentBlockDeltaEvent (JStr ''ef'') 0]
   \<and> messages_records json_parse two_items_stream =
       [full_record [answer_item ''ab'', answer_item ''cdef'']]
   \<and> spec_demultiplex [] (messages_records json_parse two_items_stream) = [''ab'', ''cdef'']
   \<and> spec_demultiplex [] (messages_records json_parse replacement_stream) = [''ab'', ''c'']\<close>
proof -
  have a: "written (foldl (messages_chunk json_parse) empty_session two_items_stream) =
     [createContentBlockDeltaEvent (JStr ''ab'') 0, createContentBlockDeltaEvent (JStr ''ef'') 0]"
    by code_simp
  have b: "messages_records json_parse two_items_stream =
       [full_record [answer_item ''ab'', answer_item ''cdef'']]"
    by code_simp
  have c: "spec_demultiplex [] (messages_records json_parse two_items_stream) = [''ab'', ''cdef'']"
    by code_simp
  have d: "spec_demultiplex [] (messages_records json_parse replacement_stream) = [''ab'', ''c'']"
    by code_simp
  from a b c d show ?thesis by (intro conjI)
qed

text \<open>
  Claim C1, amended. A delta-style record of type
  \<open>response.output_text.delta\<close> under a \<open>message.answer\<close> envelope with a non-empty
  delta writes that delta verbatim and appends it to the accumulated text. A record
  with a top-level output list is walked item by item; an item of type
  \<open>message.answer\<close> with text \<open>t\<close> writes \<open>t\<close> without its first \<open>n\<close> characters, \<open>n\<close>
  being the length of the accumulated text, and \<open>t\<close> becomes the accumulated text;
  nothing happens when \<open>t\<close> is not longer than that. The accumulated text is one for
  all items and all records, so the items of one list behave as the same items sent
  one record each, and every text is cut at the length of the longest text before it.
  When the texts are snapshots of one growing text, exactly the new pieces are
  written: text \<open>ab\<close> followed by \<open>abc\<close> gives \<open>ab\<close> and \<open>c\<close>. What is written is
  always as long as the accumulated text has grown.
\<close>

theorem suffix_only_emission:
  \<open>(truthy d \<longrightarrow>
      messages_record st (delta_record d) =
        st\<lparr>fullContent := js_plus (fullContent st) d,
           written := written st @ [createContentBlockDeltaEvent d 0]\<rparr>)
   \<and> (parsed \<noteq> JNull \<and> js_get parsed ''type'' = Some (JStr ''response.output_text.delta'') \<and>
      opt_chain (js_get parsed ''response'') ''type'' = Some (JStr ''message.answer'') \<and>
      opt_chain (js_get parsed ''response'') ''delta'' = Some d \<and> truthy d \<longrightarrow>
      written (messages_delta_step st parsed) = written st @ [createContentBlockDeltaEvent d 0])
   \<and> (r \<noteq> JNull \<and> answer_delta r = None \<and> js_get r ''output'' = Some (JArr items) \<longrightarrow>
      messages_record st r = settle (messages_output_items st items))
   \<and> (item \<noteq> JNull \<and> js_get item ''type'' = Some (JStr ''message.answer'') \<and>
      js_get item ''text'' = Some (JStr t) \<and> fullContent st = JStr acc \<longrightarrow>
      messages_output_item st item =
        Normal (if drop (length acc) t = [] then st
                else st\<lparr>fullContent := JStr t,
                       written := written st @
                         [createContentBlockDeltaEvent (JStr (drop (length acc) t)) 0]\<rparr>))
   \<and> (fullContent st = JStr acc \<and> list_all plain_item items \<longrightarrow>
      messages_record st (full_record items) =
        st\<lparr>fullContent := JStr (longest_so_far acc (answer_texts items)),
           written := written st @
             map (\<lambda>x. createContentBlockDeltaEvent (JStr x) 0)
               (beyond_length acc (answer_texts items))\<rparr>)
   \<and> (fullContent st = JStr acc \<longrightarrow>
      messages_record st (full_record [answer_item t, answer_item u]) =
        st\<lparr>fullContent :=
             JStr (if max (length acc) (length t) < length u then u
                   else if length acc < length t then t else acc),
           written := written st @
             map (\<lambda>x. createContentBlockDeltaEvent (JStr x) 0)
               ((if length acc < length t then [drop (length acc) t] else []) @
                (if max (length acc) (length t) < length u
                 then [drop (max (length acc) (length t)) u] else []))\<rparr>)
   \<and> (fullContent st = JStr acc \<longrightarrow>
      foldl messages_record st (map (\<lambda>x. full_record [answer_item x]) ts) =
      messages_record st (full_record (map answer_item ts)))
   \<and> (fullContent st = JStr acc \<longrightarrow>
      messages_record st (full_record (map answer_item (snapshots acc ps))) =
        st\<lparr>fullContent := JStr (acc @ concat ps),
           written := written st @
             map (\<lambda>x. createContentBlockDeltaEvent (JStr x) 0) (filter (\<lambda>p. p \<noteq> []) ps)\<rparr>)
   \<and> length (concat (beyond_length acc ts)) + length acc = length (longest_so_far acc ts)
   \<and> (fullContent st = JStr acc \<and> f \<noteq> [] \<longrightarrow>
      messages_record st (full_record [answer_item (acc @ f)]) =
        st\<lparr>fullContent := JStr (acc @ f),
           written := written st @ [createContentBlockDeltaEvent (JStr f) 0]\<rparr>)
   \<and> (fullContent st = JStr acc \<longrightarrow>
      messages_record st (full_record [answer_item acc]) = st)
   \<and> (a \<noteq> [] \<and> b \<noteq> [] \<longrightarrow>
      written (messages_record (messages_record empty_session (full_record [answer_item a]))
                 (full_record [answer_item (a @ b)])) =
        [createContentBlockDeltaEvent (JStr a) 0, createContentBlockDeltaEvent (JStr b) 0])
   \<and> written (foldl (messages_chunk json_parse) empty_session replacement_stream) =
        [createContentBlockDeltaEvent (JStr ''ab'') 0, createContentBlockDeltaEvent (JStr ''c'') 0]\<close>
proof -
  have c1: "truthy d \<longrightarrow>
      messages_record st (delta_record d) =
        st\<lparr>fullContent := js_plus (fullContent st) d,
           written := written st @ [createContentBlockDeltaEvent d 0]\<rparr>"
    by (simp add: messages_record_def messages_delta_step_def answer_delta_delta_record
          messages_output_step_def)
       (simp add: delta_record_def js_get_def)
  have c2: "parsed \<noteq> JNull \<and> js_get parsed ''type'' = Some (JStr ''response.output_text.delta'') \<and>
      opt_chain (js_get parsed ''response'') ''type'' = Some (JStr ''message.answer'') \<and>
      opt_chain (js_get parsed ''response'') ''delta'' = Some d \<and> truthy d \<longrightarrow>
      written (messages_delta_step st parsed) = written st @ [createContentBlockDeltaEvent d 0]"
    by (simp add: messages_delta_step_def answer_delta_def)
  have c3: "r \<noteq> JNull \<and> answer_delta r = None \<and> js_get r ''output'' = Some (JArr items) \<longrightarrow>
      messages_record st r = settle (messages_output_items st items)"
    by (simp add: messages_record_def messages_delta_step_def messages_output_step_def)
  have c4: "item \<noteq> JNull \<and> js_get item ''type'' = Some (JStr ''message.answer'') \<and>
      js_get item ''text'' = Some (JStr t) \<and> fullContent st = JStr acc \<longrightarrow>
      messages_output_item st item =
        Normal (if drop (length acc) t = [] then st
                else st\<lparr>fullContent := JStr t,
                       written := written st @
                         [createContentBlockDeltaEvent (JStr (drop (length acc) t)) 0]\<rparr>)"
    using messages_output_item_string [of item t st acc] by blast
  have c5: "fullContent st = JStr acc \<and> list_all plain_item items \<longrightarrow>
      messages_record st (full_record items) =
        st\<lparr>fullContent := JStr (longest_so_far acc (answer_texts items)),
           written := written st @
             map (\<lambda>x. createContentBlockDeltaEvent (JStr x) 0)
               (beyond_length acc (answer_texts items))\<rparr>"
    using messages_record_full_plain [of st acc items] by blast
  have c6: "fullContent st = JStr acc \<longrightarrow>
      messages_record st (full_record [answer_item t, answer_item u]) =
        st\<lparr>fullContent :=
             JStr (if max (length acc) (length t) < length u then u
                   else if length acc < length t then t else acc),
           written := written st @
             map (\<lambda>x. createContentBlockDeltaEvent (JStr x) 0)
               ((if length acc < length t then [drop (length acc) t] else []) @
                (if max (length acc) (length t) < length u
                 then [drop (max (length acc) (length t)) u] else []))\<rparr>"
  proof
    assume fc: "fullContent st = JStr acc"
    have two: "answer_texts [answer_item t, answer_item u] = [t, u]"
      using answer_texts_answer_items [of "[t, u]"] by simp
    have pl: "list_all plain_item [answer_item t, answer_item u]"
      by simp
    show "messages_record st (full_record [answer_item t, answer_item u]) =
        st\<lparr>fullContent :=
             JStr (if max (length acc) (length t) < length u then u
                   else if length acc < length t then t else acc),
           written := written st @
             map (\<lambda>x. createContentBlockDeltaEvent (JStr x) 0)
               ((if length acc < length t then [drop (length acc) t] else []) @
                (if max (length acc) (length t) < length u
                 then [drop (max (length acc) (length t)) u] else []))\<rparr>"
      unfolding messages_record_full_plain [OF fc pl] two
      by (cases "length acc < length t"; cases "length t < length u"; cases "length acc < length u")
         (simp_all add: max_def)
  qed
  have c7: "fullContent st = JStr acc \<longrightarrow>
      foldl messages_record st (map (\<lambda>x. full_record [answer_item x]) ts) =
      messages_record st (full_record (map answer_item ts))"
    using foldl_messages_record_single [of st acc ts]
      messages_record_full_plain [of st acc "map answer_item ts"]
    by simp
  have c8: "fullContent st = JStr acc \<longrightarrow>
      messages_record st (full_record (map answer_item (snapshots acc ps))) =
        st\<lparr>fullContent := JStr (acc @ concat ps),
           written := written st @
             map (\<lambda>x. createContentBlockDeltaEvent (JStr x) 0) (filter (\<lambda>p. p \<noteq> []) ps)\<rparr>"
    using messages_record_full_plain [of st acc "map answer_item (snapshots acc ps)"]
    by (simp add: beyond_length_snapshots longest_so_far_snapshots)
  have c9: "length (concat (beyond_length acc ts)) + length acc = length (longest_so_far acc ts)"
    by (rule beyond_length_total)
  have c10: "fullContent st = JStr acc \<and> f \<noteq> [] \<longrightarrow>
      messages_record st (full_record [answer_item (acc @ f)]) =
        st\<lparr>fullContent := JStr (acc @ f),
           written := written st @ [createContentBlockDeltaEvent (JStr f) 0]\<rparr>"
    using messages_record_full_plain [of st acc "[answer_item (acc @ f)]"]
    by (simp add: answer_texts_def List.map_filter_simps)
  have c11: "fullContent st = JStr acc \<longrightarrow>
      messages_record st (full_record [answer_item acc]) = st"
    using messages_record_full_plain [of st acc "[answer_item acc]"]
    by (simp add: answer_texts_def List.map_filter_simps)
  have c12: "a \<noteq> [] \<and> b \<noteq> [] \<longrightarrow>
      written (messages_record (messages_record empty_session (full_record [answer_item a]))
                 (full_record [answer_item (a @ b)])) =
        [createContentBlockDeltaEvent (JStr a) 0, createContentBlockDeltaEvent (JStr b) 0]"
  proof
    assume ab: "a \<noteq> [] \<and> b \<noteq> []"
    have e: "fullContent empty_session = JStr []" by (simp add: empty_session_def)
    have s1: "messages_record empty_session (full_record [answer_item a]) =
        empty_session\<lparr>fullContent := JStr a,
           written := [createContentBlockDeltaEvent (JStr a) 0]\<rparr>"
      using messages_record_full_plain [OF e, of "[answer_item a]"] ab
      by (simp add: answer_texts_def List.map_filter_simps empty_session_def)
    have s2: "messages_record (empty_session\<lparr>fullContent := JStr a,
           written := [createContentBlockDeltaEvent (JStr a) 0]\<rparr>) (full_record [answer_item (a @ b)]) =
        empty_session\<lparr>fullContent := JStr (a @ b),
           written := [createContentBlockDeltaEvent (JStr a) 0, createContentBlockDeltaEvent (JStr b) 0]\<rparr>"
      using messages_record_full_plain [of "empty_session\<lparr>fullContent := JStr a,
           written := [createContentBlockDeltaEvent (JStr a) 0]\<rparr>" a "[answer_item (a @ b)]"] ab
      by (simp add: answer_texts_def List.map_filter_simps)
    show "written (messages_record (messages_record empty_session (full_record [answer_item a]))
                 (full_record [answer_item (a @ b)])) =
        [createContentBlockDeltaEvent (JStr a) 0, createContentBlockDeltaEvent (JStr b) 0]"
      unfolding s1 s2 by simp
  qed
  note c13 = replacement_stream_written
  from c1 c2 c3 c4 c5 c6 c7 c8 c9 c10 c11 c12 c13 show ?thesis
    by (intro conjI)
qed

theorem suffix_only_emission_witness:
  \<open>messages_record (empty_session\<lparr>fullContent := JStr ''ab''\<rparr>) (delta_record (JStr ''hi'')) =
      empty_session\<lparr>fullContent := JStr ''abhi'',
                    written := [createContentBlockDeltaEvent (JStr ''hi'') 0]\<rparr>
   \<and> written (messages_delta_step (empty_session\<lparr>fullContent := JStr ''ab''\<rparr>)
        (delta_record (JStr ''hi''))) = [createContentBlockDeltaEvent (JStr ''hi'') 0]
   \<and> messages_record (empty_session\<lparr>fullContent := JStr ''ab''\<rparr>)
        (full_record [answer_item ''abc'', JObj [(''type'', JStr ''message.search'')]]) =
      settle (messages_output_items (empty_session\<lparr>fullContent := JStr ''ab''\<rparr>)
        [answer_item ''abc'', JObj [(''type'', JStr ''message.search'')]])
   \<and> messages_output_item (empty_session\<lparr>fullContent := JStr ''ab''\<rparr>) (answer_item ''abc'') =
      Normal (empty_session\<lparr>fullContent := JStr ''abc'',
                written := [createContentBlockDeltaEvent (JStr ''c'') 0]\<rparr>)
   \<and> messages_record (empty_session\<lparr>fullContent := JStr ''ab''\<rparr>)
        (full_record [answer_item ''abc'', JObj [(''type'', JStr ''message.search'')]]) =
      empty_session\<lparr>fullContent := JStr ''abc'',
                    written := [createContentBlockDeltaEvent (JStr ''c'') 0]\<rparr>
   \<and> messages_record (empty_session\<lparr>fullContent := JStr ''ab''\<rparr>)
        (full_record [answer_item ''abc'', answer_item ''wxyz'']) =
      empty_session\<lparr>fullContent := JStr ''wxyz'',
                    written := [createContentBlockDeltaEvent (JStr ''c'') 0,
                                createContentBlockDeltaEvent (JStr ''z'') 0]\<rparr>
   \<and> messages_record (empty_session\<lparr>fullContent := JStr ''ab''\<rparr>)
        (full_record [answer_item ''abc'']) =
      empty_session\<lparr>fullContent := JStr ''abc'',
                    written := [createContentBlockDeltaEvent (JStr ''c'') 0]\<rparr>
   \<and> messages_record (empty_session\<lparr>fullContent := JStr ''ab''\<rparr>)
        (full_record [answer_item ''ab'']) = empty_session\<lparr>fullContent := JStr ''ab''\<rparr>
   \<and> written (messages_record (messages_record empty_session (full_record [answer_item ''ab'']))
        (full_record [answer_item ''abc''])) =
      [createContentBlockDeltaEvent (JStr ''ab'') 0, createContentBlockDeltaEvent (JStr ''c'') 0]\<close>
proof -
  let ?st = "empty_session\<lparr>fullContent := JStr ''ab''\<rparr>"
  let ?items = "[answer_item ''abc'', JObj [(''type'', JStr ''message.search'')]]"
  have fc: "fullContent ?st = JStr ''ab''" by simp
  have d: "answer_delta (full_record ?items) = None"
    by (rule answer_delta_full_record)
  have o: "js_get (full_record ?items) ''output'' = Some (JArr ?items)"
    by (rule output_full_record)
  have n: "full_record ?items \<noteq> JNull" "delta_record (JStr ''hi'') \<noteq> JNull"
    "answer_item ''abc'' \<noteq> JNull"
    by (simp_all add: full_record_def delta_record_def answer_item_def)
  have g: "js_get (delta_record (JStr ''hi'')) ''type'' = Some (JStr ''response.output_text.delta'')"
    "opt_chain (js_get (delta_record (JStr ''hi'')) ''response'') ''type'' = Some (JStr ''message.answer'')"
    "opt_chain (js_get (delta_record (JStr ''hi'')) ''response'') ''delta'' = Some (JStr ''hi'')"
    "js_get (answer_item ''abc'') ''type'' = Some (JStr ''message.answer'')"
    "js_get (answer_item ''abc'') ''text'' = Some (JStr ''abc'')"
    by (simp_all add: delta_record_def answer_item_def js_get_def opt_chain_def)
  have pl: "list_all plain_item ?items"
    by (simp add: plain_item_def js_get_def answer_item_def)
  have ts: "answer_texts ?items = [''abc'']"
    by (simp add: answer_texts_def List.map_filter_simps answer_text_def js_get_def
          answer_item_def)
  note T = suffix_only_emission [of "JStr ''hi''" ?st "delta_record (JStr ''hi'')"
      "full_record ?items" ?items "answer_item ''abc''" "''abc''" "''ab''" "''wxyz''"
      "[''abc'']" "[''c'']" "''c''" "''ab''" "''c''"]
  have w1: "messages_record ?st (delta_record (JStr ''hi'')) =
      empty_session\<lparr>fullContent := JStr ''abhi'',
                    written := [createContentBlockDeltaEvent (JStr ''hi'') 0]\<rparr>"
    using T [THEN conjunct1] by (simp add: empty_session_def js_plus_def)
  have w2: "written (messages_delta_step ?st (delta_record (JStr ''hi''))) =
      [createContentBlockDeltaEvent (JStr ''hi'') 0]"
    using T [THEN conjunct2, THEN conjunct1] n g by (simp add: empty_session_def)
  have w3: "messages_record ?st (full_record ?items) = settle (messages_output_items ?st ?items)"
    using T [THEN conjunct2, THEN conjunct2, THEN conjunct1] n d o by blast
  have w4: "messages_output_item ?st (answer_item ''abc'') =
      Normal (empty_session\<lparr>fullContent := JStr ''abc'',
                written := [createContentBlockDeltaEvent (JStr ''c'') 0]\<rparr>)"
    using T [THEN conjunct2, THEN conjunct2, THEN conjunct2, THEN conjunct1] n g fc
    by (simp add: empty_session_def)
  have w5: "messages_record ?st (full_record ?items) =
      empty_session\<lparr>fullContent := JStr ''abc'',
                    written := [createContentBlockDeltaEvent (JStr ''c'') 0]\<rparr>"
    using T [THEN conjunct2, THEN conjunct2, THEN conjunct2, THEN conjunct2, THEN conjunct1]
      fc pl
    unfolding ts by (simp add: empty_session_def)
  have w6: "messages_record ?st (full_record [answer_item ''abc'', answer_item ''wxyz'']) =
      empty_session\<lparr>fullContent := JStr ''wxyz'',
                    written := [createContentBlockDeltaEvent (JStr ''c'') 0,
                                createContentBlockDeltaEvent (JStr ''z'') 0]\<rparr>"
    using T [THEN conjunct2, THEN conjunct2, THEN conjunct2, THEN conjunct2, THEN conjunct2,
             THEN conjunct1] fc
    by (simp add: empty_session_def)
  have w10: "messages_record ?st (full_record [answer_item ''abc'']) =
      empty_session\<lparr>fullContent := JStr ''abc'',
                    written := [createContentBlockDeltaEvent (JStr ''c'') 0]\<rparr>"
    using T [THEN conjunct2, THEN conjunct2, THEN conjunct2, THEN conjunct2, THEN conjunct2,
             THEN conjunct2, THEN conjunct2, THEN conjunct2, THEN conjunct2, THEN conjunct1] fc
    by (simp add: empty_session_def)
  have w11: "messages_record ?st (full_record [answer_item ''ab'']) = ?st"
    using T [THEN conjunct2, THEN conjunct2, THEN conjunct2, THEN conjunct2, THEN conjunct2,
             THEN conjunct2, THEN conjunct2, THEN conjunct2, THEN conjunct2, THEN conjunct2,
             THEN conjunct1] fc
    by blast
  have w12: "written (messages_record (messages_record empty_session (full_record [answer_item ''ab'']))
        (full_record [answer_item ''abc''])) =
      [createContentBlockDeltaEvent (JStr ''ab'') 0, createContentBlockDeltaEvent (JStr ''c'') 0]"
    using T [THEN conjunct2, THEN conjunct2, THEN conjunct2, THEN conjunct2, THEN conjunct2,
             THEN conjunct2, THEN conjunct2, THEN conjunct2, THEN conjunct2, THEN conjunct2,
             THEN conjunct2, THEN conjunct1]
    by simp
  from w1 w2 w3 w4 w5 w6 w10 w11 w12 show ?thesis
    by (intro conjI)
qed


subsection \<open>The typed-block event sequence\<close>

lemma messages_accumulated_string:
  assumes "list_all is_string (messages_fragments parse chunks)"
  shows "\<exists>s. messages_accumulated parse chunks = JStr s \<and>
             length s = length (concat (map to_string (messages_fragments parse chunks)))"
  using demultiplex_total [of "[]" "messages_records parse chunks"] assms
  by (auto simp: messages_fragments_def messages_accumulated_def)

lemma logStreamComplete_string: "logStreamComplete env (JStr s) = None"
  by (simp add: logStreamComplete_def printHistory_item_def)

lemma record_fragments_delta_record:
  "truthy d \<Longrightarrow> record_fragments acc (delta_record d) = ([d], js_plus acc d)"
  by (simp add: record_fragments_def answer_delta_delta_record Let_def)
     (simp add: delta_record_def js_get_def)

lemma demultiplex_delta_records:
  "list_all truthy ds \<Longrightarrow> demultiplex acc (map delta_record ds) = (ds, foldl js_plus acc ds)"
  by (induction ds arbitrary: acc) (simp_all add: record_fragments_delta_record)

lemma demultiplex_full_records:
  "demultiplex (JStr acc) (map (\<lambda>t. full_record [answer_item t]) ts) =
     (map JStr (beyond_length acc ts), JStr (longest_so_far acc ts))"
proof (induction ts arbitrary: acc)
  case Nil
  show ?case by simp
next
  case (Cons t ts)
  have n: "full_record [answer_item t] \<noteq> JNull" by (simp add: full_record_def)
  have one: "answer_texts [answer_item t] = [t]"
    using answer_texts_answer_items [of "[t]"] by simp
  have rf: "record_fragments (JStr acc) (full_record [answer_item t]) =
      (map JStr (beyond_length acc [t]), JStr (longest_so_far acc [t]))"
    using n output_fragments_plain [of "[answer_item t]" acc]
    by (simp add: record_fragments_def answer_delta_full_record output_full_record Let_def one)
  show ?case
    using Cons.IH [of t] Cons.IH [of acc] rf by simp
qed

lemma foldl_js_plus_string:
  "foldl js_plus (JStr a) fs = JStr (a @ concat (map to_string fs))"
  by (induction fs arbitrary: a) (simp_all add: js_plus_def)

lemma event_name_simps [simp]:
  "event_name (createMessageStartEvent now model c) = ''message_start''"
  "event_name (createContentBlockStartEvent i) = ''content_block_start''"
  "event_name (createContentBlockDeltaEvent f i) = ''content_block_delta''"
  "event_name (createContentBlockStopEvent i) = ''content_block_stop''"
  "event_name (createMessageDeltaEvent n) = ''message_delta''"
  "event_name createMessageStopEvent = ''message_stop''"
  by (simp_all add: createMessageStartEvent_def createContentBlockStartEvent_def
        createContentBlockDeltaEvent_def createContentBlockStopEvent_def
        createMessageDeltaEvent_def createMessageStopEvent_def createAnthropicStreamEvent_def
        Let_def)

lemma map_event_name_deltas:
  "map (event_name \<circ> (\<lambda>f. createContentBlockDeltaEvent f 0)) fs =
   replicate (length fs) ''content_block_delta''"
  by (induction fs) simp_all

lemma messages_stream_body:
  "messages_stream parse now model env cid (Response (Body chunks ending)) =
   messages_finish env cid
     \<lparr>buffer = last (split CHR 0x0A (concat chunks)),
      fullContent = messages_accumulated parse chunks,
      written = [createMessageStartEvent now model (Some cid), createContentBlockStartEvent 0] @
                map (\<lambda>f. createContentBlockDeltaEvent f 0) (messages_fragments parse chunks),
      ticks = 0, timer = False, ended = None\<rparr> ending"
  by (simp add: messages_stream_def Let_def messages_run)

lemma hello_messages_fragments:
  "messages_fragments json_parse hello_stream = [JStr ''Hel'', JStr ''lo'', JStr '' world'']"
  by code_simp

lemma hello_messages_accumulated:
  "messages_accumulated json_parse hello_stream = JStr ''Hello world''"
  by code_simp

lemma hello_messages_records:
  "messages_records json_parse hello_stream =
   map (\<lambda>x. delta_record (JStr x)) [''Hel'', ''lo'', '' world'']"
  by code_simp

text \<open>
  Claim C3, as stated, fails when storing or logging the response throws. When the
  upstream sends an array of 81 numbers as the text of an answer, the loop writes it
  as a fragment and keeps it as the accumulated text; \<open>logStreamComplete\<close> then throws
  on its preview, and the handler writes an error-content delta and a \<open>message_delta\<close>
  with zero tokens. When the store throws, the same happens to a stream of text
  fragments.
\<close>

theorem typed_block_sequence_counterexample:
  "messages_fragments json_parse array_stream = [JArr (replicate 81 (JNum 0))]
   \<and> accumulated (messages_stream json_parse 0 ''m'' quiet_environment ''c''
        (Response (Body array_stream EndOfStream))) = JArr (replicate 81 (JNum 0))
   \<and> events (messages_stream json_parse 0 ''m'' quiet_environment ''c''
        (Response (Body array_stream EndOfStream))) =
     [createMessageStartEvent 0 ''m'' (Some ''c''),
      createContentBlockStartEvent 0,
      createContentBlockDeltaEvent (JArr (replicate 81 (JNum 0))) 0,
      createContentBlockDeltaEvent (JStr ''Error: content.substring is not a function'') 0,
      createContentBlockStopEvent 0,
      createMessageDeltaEvent 0,
      createMessageStopEvent]
   \<and> spec_typed_block_sequence 0 ''m'' ''c'' [JArr (replicate 81 (JNum 0))]
        (JArr (replicate 81 (JNum 0))) =
     [createMessageStartEvent 0 ''m'' (Some ''c''),
      createContentBlockStartEvent 0,
      createContentBlockDeltaEvent (JArr (replicate 81 (JNum 0))) 0,
      createContentBlockStopEvent 0,
      createMessageDeltaEvent 20,
      createMessageStopEvent]
   \<and> events (messages_stream json_parse 0 ''m'' failing_store ''c''
        (Response (Body hello_stream EndOfStream))) =
     [createMessageStartEvent 0 ''m'' (Some ''c''),
      createContentBlockStartEvent 0,
      createContentBlockDeltaEvent (JStr ''Hel'') 0,
      createContentBlockDeltaEvent (JStr ''lo'') 0,
      createContentBlockDeltaEvent (JStr '' world'') 0,
      createContentBlockDeltaEvent (JStr ''Error: database is locked'') 0,
      createContentBlockStopEvent 0,
      createMessageDeltaEvent 0,
      createMessageStopEvent]
   \<and> spec_typed_block_sequence 0 ''m'' ''c'' [JStr ''Hel'', JStr ''lo'', JStr '' world'']
        (JStr ''Hello world'') =
     [createMessageStartEvent 0 ''m'' (Some ''c''),
      createContentBlockStartEvent 0,
      createContentBlockDeltaEvent (JStr ''Hel'') 0,
      createContentBlockDeltaEvent (JStr ''lo'') 0,
      createContentBlockDeltaEvent (JStr '' world'') 0,
      createContentBlockStopEvent 0,
      createMessageDeltaEvent 2,
      createMessageStopEvent]"
proof -
  have a: "messages_fragments json_parse array_stream = [JArr (replicate 81 (JNum 0))]"
    by code_simp
  have b: "accumulated (messages_stream json_parse 0 ''m'' quiet_environment ''c''
        (Response (Body array_stream EndOfStream))) = JArr (replicate 81 (JNum 0))"
    by code_simp
  have c: "events (messages_stream json_parse 0 ''m'' quiet_environment ''c''
        (Response (Body array_stream EndOfStream))) =
     [createMessageStartEvent 0 ''m'' (Some ''c''),
      createContentBlockStartEvent 0,
      createContentBlockDeltaEvent (JArr (replicate 81 (JNum 0))) 0,
      createContentBlockDeltaEvent (JStr ''Error: content.substring is not a function'') 0,
      createContentBlockStopEvent 0,
      createMessageDeltaEvent 0,
      createMessageStopEvent]"
    by code_simp
  have d: "spec_typed_block_sequence 0 ''m'' ''c'' [JArr (replicate 81 (JNum 0))]
        (JArr (replicate 81 (JNum 0))) =
     [createMessageStartEvent 0 ''m'' (Some ''c''),
      createContentBlockStartEvent 0,
      createContentBlockDeltaEvent (JArr (replicate 81 (JNum 0))) 0,
      createContentBlockStopEvent 0,
      createMessageDeltaEvent 20,
      createMessageStopEvent]"
    by code_simp
  have e: "events (messages_stream json_parse 0 ''m'' failing_store ''c''
        (Response (Body hello_stream EndOfStream))) =
     [createMessageStartEvent 0 ''m'' (Some ''c''),
      createContentBlockStartEvent 0,
      createContentBlockDeltaEvent (JStr ''Hel'') 0,
      createContentBlockDeltaEvent (JStr ''lo'') 0,
      createContentBlockDeltaEvent (JStr '' world'') 0,
      createContentBlockDeltaEvent (JStr ''Error: database is locked'') 0,
      createContentBlockStopEvent 0,
      createMessageDeltaEvent 0,
      createMessageStopEvent]"
    by code_simp
  have f: "spec_typed_block_sequence 0 ''m'' ''c'' [JStr ''Hel'', JStr ''lo'', JStr '' world'']
        (JStr ''Hello world'') =
     [createMessageStartEvent 0 ''m'' (Some ''c''),
      createContentBlockStartEvent 0,
      createContentBlockDeltaEvent (JStr ''Hel'') 0,
      createContentBlockDeltaEvent (JStr ''lo'') 0,
      createContentBlockDeltaEvent (JStr '' world'') 0,
      createContentBlockStopEvent 0,
      createMessageDeltaEvent 2,
      createMessageStopEvent]"
    by code_simp
  from a b c d e f show ?thesis by (intro conjI)
qed

text \<open>
  Claim C3, amended. For every upstream stream that ends normally, the
  typed-block route writes one \<open>message_start\<close> (empty content list, zero usage counts,
  the conversation identifier as metadata when it is non-empty), one
  \<open>content_block_start\<close> (index 0, empty text) and one \<open>content_block_delta\<close> (index 0)
  per fragment of the stream in fragment order; it then stores and logs the response.
  When both calls return, it writes one \<open>content_block_stop\<close> (index 0), one
  \<open>message_delta\<close> with stop reason \<open>end_turn\<close> and \<open>output_tokens\<close> the length of the
  accumulated text divided by 4 (floor), and one \<open>message_stop\<close>; when one of them
  throws, it writes an error-content delta, \<open>content_block_stop\<close>, a \<open>message_delta\<close>
  with zero tokens and \<open>message_stop\<close> instead. In both cases it ends the response
  after the last event. When all fragments are strings, the accumulated length is the
  total length of the fragments and the log call returns, so that only the store can
  fail. A stream of delta-style records has their deltas as fragments, and a stream of
  records that each carry the whole answer so far has the added pieces as fragments.
\<close>

theorem typed_block_sequence:
  "(let r = messages_stream parse now model env cid (Response (Body chunks EndOfStream));
        frags = messages_fragments parse chunks;
        thrown = (case (if cid \<noteq> [] \<and> truthy (accumulated r) then store_error env else None) of
                    Some message \<Rightarrow> Some message
                  | None \<Rightarrow> logStreamComplete env (accumulated r))
    in accumulated r = messages_accumulated parse chunks
     \<and> (thrown = None \<longrightarrow>
          events r =
            [createMessageStartEvent now model (Some cid), createContentBlockStartEvent 0] @
            map (\<lambda>f. createContentBlockDeltaEvent f 0) frags @
            [createContentBlockStopEvent 0,
             createMessageDeltaEvent (js_length (accumulated r) div 4),
             createMessageStopEvent]
          \<and> events r = spec_typed_block_sequence now model cid frags (accumulated r)
          \<and> map event_name (events r) =
              [''message_start'', ''content_block_start''] @
              replicate (length frags) ''content_block_delta'' @
              [''content_block_stop'', ''message_delta'', ''message_stop''])
     \<and> (\<forall>message. thrown = Some message \<longrightarrow>
          events r =
            [createMessageStartEvent now model (Some cid), createContentBlockStartEvent 0] @
            map (\<lambda>f. createContentBlockDeltaEvent f 0) frags @
            [createContentBlockDeltaEvent (JStr (''Error: '' @ message)) 0,
             createContentBlockStopEvent 0,
             createMessageDeltaEvent 0,
             createMessageStopEvent])
     \<and> closed r
     \<and> ended_after r = length (events r)
     \<and> late r = []
     \<and> saved r = (if cid \<noteq> [] \<and> truthy (accumulated r) then Some (accumulated r) else None)
     \<and> (list_all is_string frags \<longrightarrow>
          js_length (accumulated r) = length (concat (map to_string frags))
          \<and> logStreamComplete env (accumulated r) = None)
     \<and> (list_all is_string frags \<and> store_error env = None \<longrightarrow>
          events r = spec_typed_block_sequence now model cid frags (accumulated r)))
   \<and> (list_all truthy ds \<and> messages_records parse chunks = map delta_record ds \<longrightarrow>
        messages_fragments parse chunks = ds
        \<and> messages_accumulated parse chunks = foldl js_plus (JStr []) ds)
   \<and> ([] \<notin> set fs \<and> messages_records parse chunks = map (\<lambda>x. delta_record (JStr x)) fs \<and>
      store_error env = None \<longrightarrow>
        events (messages_stream parse now model env cid (Response (Body chunks EndOfStream))) =
          [createMessageStartEvent now model (Some cid), createContentBlockStartEvent 0] @
          map (\<lambda>x. createContentBlockDeltaEvent (JStr x) 0) fs @
          [createContentBlockStopEvent 0,
           createMessageDeltaEvent (length (concat fs) div 4),
           createMessageStopEvent])
   \<and> (messages_records parse chunks = map (\<lambda>t. full_record [answer_item t]) (snapshots [] ps) \<and>
      store_error env = None \<longrightarrow>
        events (messages_stream parse now model env cid (Response (Body chunks EndOfStream))) =
          [createMessageStartEvent now model (Some cid), createContentBlockStartEvent 0] @
          map (\<lambda>x. createContentBlockDeltaEvent (JStr x) 0) (filter (\<lambda>p. p \<noteq> []) ps) @
          [createContentBlockStopEvent 0,
           createMessageDeltaEvent (length (concat ps) div 4),
           createMessageStopEvent])
   \<and> createMessageStartEvent now model (Some cid) =
       Event ''message_start''
         (JObj [(''type'', JStr ''message_start''),
                (''message'', JObj
                   ([(''id'', JStr (''msg_'' @ number_to_string now)),
                     (''type'', JStr ''message''),
                     (''role'', JStr ''assistant''),
                     (''content'', JArr []),
                     (''model'', JStr model),
                     (''stop_reason'', JNull),
                     (''stop_sequence'', JNull),
                     (''usage'', JObj [(''input_tokens'', JNum 0), (''output_tokens'', JNum 0)])] @
                    (if cid = [] then []
                     else [(''metadata'', JObj [(''conversation_id'', JStr cid)])])))])
   \<and> createContentBlockStartEvent 0 =
       Event ''content_block_start''
         (JObj [(''type'', JStr ''content_block_start''), (''index'', JNum 0),
                (''content_block'', JObj [(''type'', JStr ''text''), (''text'', JStr [])])])
   \<and> createContentBlockDeltaEvent f 0 =
       Event ''content_block_delta''
         (JObj [(''type'', JStr ''content_block_delta''), (''index'', JNum 0),
                (''delta'', JObj [(''type'', JStr ''text_delta''), (''text'', f)])])
   \<and> createContentBlockStopEvent 0 =
       Event ''content_block_stop''
         (JObj [(''type'', JStr ''content_block_stop''), (''index'', JNum 0)])
   \<and> createMessageDeltaEvent n =
       Event ''message_delta''
         (JObj [(''type'', JStr ''message_delta''),
                (''delta'', JObj [(''stop_reason'', JStr ''end_turn''), (''stop_sequence'', JNull)]),
                (''usage'', JObj [(''output_tokens'', JNum (int n))])])
   \<and> createMessageStopEvent =
       Event ''message_stop'' (JObj [(''type'', JStr ''message_stop'')])"
proof -
  let ?r = "messages_stream parse now model env cid (Response (Body chunks EndOfStream))"
  let ?frags = "messages_fragments parse chunks"
  let ?acc = "messages_accumulated parse chunks"
  let ?head = "[createMessageStartEvent now model (Some cid), createContentBlockStartEvent 0] @
               map (\<lambda>f. createContentBlockDeltaEvent f 0) ?frags"
  let ?thrown = "case (if cid \<noteq> [] \<and> truthy ?acc then store_error env else None) of
                    Some message \<Rightarrow> Some message
                  | None \<Rightarrow> logStreamComplete env ?acc"
  have acc: "accumulated ?r = ?acc"
    unfolding messages_stream_body by (simp add: messages_finish_def Let_def)
  have ok: "events ?r = ?head @
            [createContentBlockStopEvent 0,
             createMessageDeltaEvent (js_length ?acc div 4),
             createMessageStopEvent]" if "?thrown = None"
    using that unfolding messages_stream_body
    by (auto simp: messages_finish_def Let_def split: option.splits if_splits)
  have ok_spec: "events ?r = spec_typed_block_sequence now model cid ?frags ?acc"
    if "?thrown = None"
    using ok [OF that] by (simp add: spec_typed_block_sequence_def)
  have ok_names: "map event_name (events ?r) =
              [''message_start'', ''content_block_start''] @
              replicate (length ?frags) ''content_block_delta'' @
              [''content_block_stop'', ''message_delta'', ''message_stop'']"
    if "?thrown = None"
    unfolding ok [OF that] by (simp add: map_event_name_deltas)
  have bad: "events ?r = ?head @
            [createContentBlockDeltaEvent (JStr (''Error: '' @ message)) 0,
             createContentBlockStopEvent 0,
             createMessageDeltaEvent 0,
             createMessageStopEvent]" if "?thrown = Some message" for message
    using that unfolding messages_stream_body
    by (auto simp: messages_finish_def Let_def messages_error_tail_def
             split: option.splits if_splits)
  have cl: "closed ?r" "ended_after ?r = length (events ?r)" "late ?r = []"
    "saved ?r = (if cid \<noteq> [] \<and> truthy ?acc then Some ?acc else None)"
    unfolding messages_stream_body by (simp_all add: messages_finish_def Let_def)
  have str: "js_length ?acc = length (concat (map to_string ?frags))
             \<and> logStreamComplete env ?acc = None" if "list_all is_string ?frags"
    using messages_accumulated_string [OF that] by (auto simp: logStreamComplete_string)
  have str_ok: "events ?r = spec_typed_block_sequence now model cid ?frags ?acc"
    if "list_all is_string ?frags \<and> store_error env = None"
  proof -
    from that str have "?thrown = None" by simp
    then show ?thesis by (rule ok_spec)
  qed
  have main: "(let r = ?r; frags = ?frags;
        thrown = (case (if cid \<noteq> [] \<and> truthy (accumulated r) then store_error env else None) of
                    Some message \<Rightarrow> Some message
                  | None \<Rightarrow> logStreamComplete env (accumulated r))
    in accumulated r = messages_accumulated parse chunks
     \<and> (thrown = None \<longrightarrow>
          events r =
            [createMessageStartEvent now model (Some cid), createContentBlockStartEvent 0] @
            map (\<lambda>f. createContentBlockDeltaEvent f 0) frags @
            [createContentBlockStopEvent 0,
             createMessageDeltaEvent (js_length (accumulated r) div 4),
             createMessageStopEvent]
          \<and> events r = spec_typed_block_sequence now model cid frags (accumulated r)
          \<and> map event_name (events r) =
              [''message_start'', ''content_block_start''] @
              replicate (length frags) ''content_block_delta'' @
              [''content_block_stop'', ''message_delta'', ''message_stop''])
     \<and> (\<forall>message. thrown = Some message \<longrightarrow>
          events r =
            [createMessageStartEvent now model (Some cid), createContentBlockStartEvent 0] @
            map (\<lambda>f. createContentBlockDeltaEvent f 0) frags @
            [createContentBlockDeltaEvent (JStr (''Error: '' @ message)) 0,
             createContentBlockStopEvent 0,
             createMessageDeltaEvent 0,
             createMessageStopEvent])
     \<and> closed r
     \<and> ended_after r = length (events r)
     \<and> late r = []
     \<and> saved r = (if cid \<noteq> [] \<and> truthy (accumulated r) then Some (accumulated r) else None)
     \<and> (list_all is_string frags \<longrightarrow>
          js_length (accumulated r) = length (concat (map to_string frags))
          \<and> logStreamComplete env (accumulated r) = None)
     \<and> (list_all is_string frags \<and> store_error env = None \<longrightarrow>
          events r = spec_typed_block_sequence now model cid frags (accumulated r)))"
    unfolding Let_def acc
    using ok ok_spec ok_names bad cl str str_ok
    by (intro conjI impI allI) (simp_all only: append_assoc)
  have deltas: "messages_fragments parse chunks = ds
        \<and> messages_accumulated parse chunks = foldl js_plus (JStr []) ds"
    if "list_all truthy ds \<and> messages_records parse chunks = map delta_record ds" for ds
    using that demultiplex_delta_records [of ds "JStr []"]
    by (simp add: messages_fragments_def messages_accumulated_def)
  have strings: "events ?r =
          [createMessageStartEvent now model (Some cid), createContentBlockStartEvent 0] @
          map (\<lambda>x. createContentBlockDeltaEvent (JStr x) 0) fs @
          [createContentBlockStopEvent 0,
           createMessageDeltaEvent (length (concat fs) div 4),
           createMessageStopEvent]"
    if h: "[] \<notin> set fs \<and> messages_records parse chunks = map (\<lambda>x. delta_record (JStr x)) fs \<and>
      store_error env = None"
  proof -
    from h have tr: "list_all truthy (map JStr fs)"
      by (auto simp: list_all_iff)
    from h have rec: "messages_records parse chunks = map delta_record (map JStr fs)"
      by (simp add: comp_def)
    from deltas [of "map JStr fs"] tr rec have fr: "?frags = map JStr fs"
      and ac: "?acc = JStr (concat fs)"
      by (simp_all add: foldl_js_plus_string comp_def)
    have "?thrown = None"
      using h unfolding ac by (simp add: logStreamComplete_string)
    from ok [OF this] show ?thesis
      unfolding fr ac by (simp add: comp_def)
  qed
  have snaps: "events ?r =
          [createMessageStartEvent now model (Some cid), createContentBlockStartEvent 0] @
          map (\<lambda>x. createContentBlockDeltaEvent (JStr x) 0) (filter (\<lambda>p. p \<noteq> []) ps) @
          [createContentBlockStopEvent 0,
           createMessageDeltaEvent (length (concat ps) div 4),
           createMessageStopEvent]"
    if h: "messages_records parse chunks =
             map (\<lambda>t. full_record [answer_item t]) (snapshots [] ps) \<and>
           store_error env = None"
  proof -
    from h have fr: "?frags = map JStr (filter (\<lambda>p. p \<noteq> []) ps)"
      and ac: "?acc = JStr (concat ps)"
      by (simp_all add: messages_fragments_def messages_accumulated_def
            demultiplex_full_records beyond_length_snapshots longest_so_far_snapshots)
    have "?thrown = None"
      using h unfolding ac by (simp add: logStreamComplete_string)
    from ok [OF this] show ?thesis
      unfolding fr ac by (simp add: comp_def)
  qed
  have shapes:
    "createMessageStartEvent now model (Some cid) =
       Event ''message_start''
         (JObj [(''type'', JStr ''message_start''),
                (''message'', JObj
                   ([(''id'', JStr (''msg_'' @ number_to_string now)),
                     (''type'', JStr ''message''),
                     (''role'', JStr ''assistant''),
                     (''content'', JArr []),
                     (''model'', JStr model),
                     (''stop_reason'', JNull),
                     (''stop_sequence'', JNull),
                     (''usage'', JObj [(''input_tokens'', JNum 0), (''output_tokens'', JNum 0)])] @
                    (if cid = [] then []
                     else [(''metadata'', JObj [(''conversation_id'', JStr cid)])])))])"
    "createContentBlockStartEvent 0 =
       Event ''content_block_start''
         (JObj [(''type'', JStr ''content_block_start''), (''index'', JNum 0),
                (''content_block'', JObj [(''type'', JStr ''text''), (''text'', JStr [])])])"
    "createContentBlockDeltaEvent f 0 =
       Event ''content_block_delta''
         (JObj [(''type'', JStr ''content_block_delta''), (''index'', JNum 0),
                (''delta'', JObj [(''type'', JStr ''text_delta''), (''text'', f)])])"
    "createContentBlockStopEvent 0 =
       Event ''content_block_stop''
         (JObj [(''type'', JStr ''content_block_stop''), (''index'', JNum 0)])"
    "createMessageDeltaEvent n =
       Event ''message_delta''
         (JObj [(''type'', JStr ''message_delta''),
                (''delta'', JObj [(''stop_reason'', JStr ''end_turn''), (''stop_sequence'', JNull)]),
                (''usage'', JObj [(''output_tokens'', JNum (int n))])])"
    "createMessageStopEvent =
       Event ''message_stop'' (JObj [(''type'', JStr ''message_stop'')])"
    by (simp_all add: createMessageStartEvent_def createContentBlockStartEvent_def
        createContentBlockDeltaEvent_def createContentBlockStopEvent_def
        createMessageDeltaEvent_def createMessageStopEvent_def createAnthropicStreamEvent_def
        Let_def)
  from main deltas strings snaps shapes show ?thesis
    by (intro conjI impI) blast+
qed

theorem typed_block_sequence_witness:
  "events (messages_stream json_parse 0 ''m'' quiet_environment ''c''
     (Response (Body hello_stream EndOfStream))) =
     [createMessageStartEvent 0 ''m'' (Some ''c''),
      createContentBlockStartEvent 0,
      createContentBlockDeltaEvent (JStr ''Hel'') 0,
      createContentBlockDeltaEvent (JStr ''lo'') 0,
      createContentBlockDeltaEvent (JStr '' world'') 0,
      createContentBlockStopEvent 0,
      createMessageDeltaEvent 2,
      createMessageStopEvent]
   \<and> map event_name (events (messages_stream json_parse 0 ''m'' quiet_environment ''c''
        (Response (Body hello_stream EndOfStream)))) =
     [''message_start'', ''content_block_start'', ''content_block_delta'',
      ''content_block_delta'', ''content_block_delta'', ''content_block_stop'',
      ''message_delta'', ''message_stop'']
   \<and> events (messages_stream json_parse 0 ''m'' failing_store ''c''
        (Response (Body hello_stream EndOfStream))) =
     [createMessageStartEvent 0 ''m'' (Some ''c''),
      createContentBlockStartEvent 0,
      createContentBlockDeltaEvent (JStr ''Hel'') 0,
      createContentBlockDeltaEvent (JStr ''lo'') 0,
      createContentBlockDeltaEvent (JStr '' world'') 0,
      createContentBlockDeltaEvent (JStr ''Error: database is locked'') 0,
      createContentBlockStopEvent 0,
      createMessageDeltaEvent 0,
      createMessageStopEvent]
   \<and> js_length (accumulated (messages_stream json_parse 0 ''m'' quiet_environment ''c''
        (Response (Body hello_stream EndOfStream)))) = 11
   \<and> events (messages_stream json_parse 0 ''m'' quiet_environment ''c''
        (Response (Body hello_stream EndOfStream))) =
       spec_typed_block_sequence 0 ''m'' ''c'' [JStr ''Hel'', JStr ''lo'', JStr '' world'']
         (JStr ''Hello world'')
   \<and> messages_fragments json_parse hello_stream = [JStr ''Hel'', JStr ''lo'', JStr '' world'']
   \<and> messages_accumulated json_parse hello_stream =
       foldl js_plus (JStr []) [JStr ''Hel'', JStr ''lo'', JStr '' world'']
   \<and> events (messages_stream json_parse 0 ''m'' quiet_environment ''c''
        (Response (Body hello_stream EndOfStream))) =
     [createMessageStartEvent 0 ''m'' (Some ''c''), createContentBlockStartEvent 0] @
     map (\<lambda>x. createContentBlockDeltaEvent (JStr x) 0) [''Hel'', ''lo'', '' world''] @
     [createContentBlockStopEvent 0,
      createMessageDeltaEvent (length (concat [''Hel'', ''lo'', '' world'']) div 4),
      createMessageStopEvent]
   \<and> events (messages_stream json_parse 0 ''m'' quiet_environment ''c''
        (Response (Body replacement_stream EndOfStream))) =
     [createMessageStartEvent 0 ''m'' (Some ''c''),
      createContentBlockStartEvent 0,
      createContentBlockDeltaEvent (JStr ''ab'') 0,
      createContentBlockDeltaEvent (JStr ''c'') 0,
      createContentBlockStopEvent 0,
      createMessageDeltaEvent 0,
      createMessageStopEvent]"
proof -
  let ?q = "messages_stream json_parse 0 ''m'' quiet_environment ''c''
              (Response (Body hello_stream EndOfStream))"
  let ?b = "messages_stream json_parse 0 ''m'' failing_store ''c''
              (Response (Body hello_stream EndOfStream))"
  let ?ds = "[JStr ''Hel'', JStr ''lo'', JStr '' world'']"
  have t: "js_length (JStr ''Hello world'') div 4 = 2" by simp
  have l: "replicate (length ?ds) ''content_block_delta'' =
     [''content_block_delta'', ''content_block_delta'', ''content_block_delta'']"
    by (simp add: numeral_3_eq_3)
  note Q = typed_block_sequence [of json_parse 0 "''m''" quiet_environment "''c''" hello_stream
      ?ds "[''Hel'', ''lo'', '' world'']" "[]" JNull 0, unfolded Let_def]
  note B = typed_block_sequence [of json_parse 0 "''m''" failing_store "''c''" hello_stream
      "[]" "[]" "[]" JNull 0, unfolded Let_def, THEN conjunct1]
  note R = typed_block_sequence [of json_parse 0 "''m''" quiet_environment "''c''"
      replacement_stream "[]" "[]" "[''ab'', ''c'']" JNull 0, unfolded Let_def]
  note Q1 = Q [THEN conjunct1]
  have qa: "accumulated ?q = JStr ''Hello world''"
    using Q1 [THEN conjunct1] by (simp add: hello_messages_accumulated)
  have ba: "accumulated ?b = JStr ''Hello world''"
    using B [THEN conjunct1] by (simp add: hello_messages_accumulated)
  have qn: "(case (if ''c'' \<noteq> [] \<and> truthy (accumulated ?q) then store_error quiet_environment
                   else None) of
               Some message \<Rightarrow> Some message
             | None \<Rightarrow> logStreamComplete quiet_environment (accumulated ?q)) = None"
    unfolding qa by (simp add: quiet_environment_def logStreamComplete_string)
  have bn: "(case (if ''c'' \<noteq> [] \<and> truthy (accumulated ?b) then store_error failing_store
                   else None) of
               Some message \<Rightarrow> Some message
             | None \<Rightarrow> logStreamComplete failing_store (accumulated ?b)) =
            Some ''database is locked''"
    unfolding ba by (simp add: failing_store_def)
  note Q2 = Q1 [THEN conjunct2, THEN conjunct1, rule_format, OF qn]
  have w1: "events ?q =
     [createMessageStartEvent 0 ''m'' (Some ''c''),
      createContentBlockStartEvent 0,
      createContentBlockDeltaEvent (JStr ''Hel'') 0,
      createContentBlockDeltaEvent (JStr ''lo'') 0,
      createContentBlockDeltaEvent (JStr '' world'') 0,
      createContentBlockStopEvent 0,
      createMessageDeltaEvent 2,
      createMessageStopEvent]"
    using Q2 [THEN conjunct1] unfolding qa t hello_messages_fragments by simp
  have w2: "map event_name (events ?q) =
     [''message_start'', ''content_block_start'', ''content_block_delta'',
      ''content_block_delta'', ''content_block_delta'', ''content_block_stop'',
      ''message_delta'', ''message_stop'']"
    using Q2 [THEN conjunct2, THEN conjunct2] unfolding hello_messages_fragments l by simp
  have w3: "events ?b =
     [createMessageStartEvent 0 ''m'' (Some ''c''),
      createContentBlockStartEvent 0,
      createContentBlockDeltaEvent (JStr ''Hel'') 0,
      createContentBlockDeltaEvent (JStr ''lo'') 0,
      createContentBlockDeltaEvent (JStr '' world'') 0,
      createContentBlockDeltaEvent (JStr ''Error: database is locked'') 0,
      createContentBlockStopEvent 0,
      createMessageDeltaEvent 0,
      createMessageStopEvent]"
    using B [THEN conjunct2, THEN conjunct2, THEN conjunct1, rule_format, OF bn]
    unfolding hello_messages_fragments by simp
  have strs: "list_all is_string (messages_fragments json_parse hello_stream)"
    unfolding hello_messages_fragments by simp
  have qs: "store_error quiet_environment = None" by (simp add: quiet_environment_def)
  note Q3 = Q1 [THEN conjunct2, THEN conjunct2, THEN conjunct2, THEN conjunct2, THEN conjunct2,
                THEN conjunct2, THEN conjunct2]
  have w4: "js_length (accumulated ?q) = 11"
    using Q3 [THEN conjunct1, rule_format, OF strs, THEN conjunct1]
    unfolding hello_messages_fragments by simp
  have w5: "events ?q =
       spec_typed_block_sequence 0 ''m'' ''c'' [JStr ''Hel'', JStr ''lo'', JStr '' world'']
         (JStr ''Hello world'')"
    using Q3 [THEN conjunct2, rule_format, OF conjI [OF strs qs]]
    unfolding hello_messages_fragments qa .
  have tr: "list_all truthy ?ds" by simp
  have rc: "messages_records json_parse hello_stream = map delta_record ?ds"
    unfolding hello_messages_records by simp
  note D = Q [THEN conjunct2, THEN conjunct1, rule_format, OF conjI [OF tr rc]]
  have w6: "messages_fragments json_parse hello_stream = ?ds"
    using D by (rule conjunct1)
  have w7: "messages_accumulated json_parse hello_stream = foldl js_plus (JStr []) ?ds"
    using D by (rule conjunct2)
  have nonempty: "[] \<notin> set [''Hel'', ''lo'', '' world'']" by simp
  have w8: "events ?q =
     [createMessageStartEvent 0 ''m'' (Some ''c''), createContentBlockStartEvent 0] @
     map (\<lambda>x. createContentBlockDeltaEvent (JStr x) 0) [''Hel'', ''lo'', '' world''] @
     [createContentBlockStopEvent 0,
      createMessageDeltaEvent (length (concat [''Hel'', ''lo'', '' world'']) div 4),
      createMessageStopEvent]"
    using Q [THEN conjunct2, THEN conjunct2, THEN conjunct1] nonempty hello_messages_records qs
    by blast
  have rr: "messages_records json_parse replacement_stream =
      map (\<lambda>t. full_record [answer_item t]) (snapshots [] [''ab'', ''c''])"
    by code_simp
  have w9: "events (messages_stream json_parse 0 ''m'' quiet_environment ''c''
        (Response (Body replacement_stream EndOfStream))) =
     [createMessageStartEvent 0 ''m'' (Some ''c''),
      createContentBlockStartEvent 0,
      createContentBlockDeltaEvent (JStr ''ab'') 0,
      createContentBlockDeltaEvent (JStr ''c'') 0,
      createContentBlockStopEvent 0,
      createMessageDeltaEvent 0,
      createMessageStopEvent]"
    using R [THEN conjunct2, THEN conjunct2, THEN conjunct2, THEN conjunct1, rule_format,
             OF conjI [OF rr qs]]
    by simp
  from w1 w2 w3 w4 w5 w6 w7 w8 w9 show ?thesis
    by (intro conjI)
qed

subsection \<open>The flat-delta chunk sequence and the error paths\<close>

lemma chat_line_fragment:
  "chat_line parse clock model st l =
     (case chat_fragment_of_line parse l of
        None \<Rightarrow> st
      | Some d \<Rightarrow>
          st\<lparr>timer := True,
             fullContent := js_plus (fullContent st) d,
             written := written st @
               [Data (createStreamChunk (clock (ticks st)) (clock (Suc (ticks st))) model d JNull)],
             ticks := ticks st + 2\<rparr>)"
  by (simp add: chat_line_def chat_fragment_of_line_def split: option.splits)

lemma foldl_chat_line:
  "foldl (chat_line parse clock model) st ls =
     st\<lparr>fullContent := foldl js_plus (fullContent st) (List.map_filter (chat_fragment_of_line parse) ls),
        written := written st @
          chat_chunks clock model (ticks st) (List.map_filter (chat_fragment_of_line parse) ls),
        ticks := ticks st + 2 * length (List.map_filter (chat_fragment_of_line parse) ls),
        timer := (timer st \<or> List.map_filter (chat_fragment_of_line parse) ls \<noteq> [])\<rparr>"
proof (induction ls arbitrary: st)
  case Nil
  show ?case by (simp add: List.map_filter_def)
next
  case (Cons l ls)
  have step: "foldl (chat_line parse clock model) st (l # ls) =
              foldl (chat_line parse clock model) (chat_line parse clock model st l) ls"
    by simp
  show ?case
    unfolding step Cons.IH
    by (cases "chat_fragment_of_line parse l")
       (simp_all add: chat_line_fragment List.map_filter_simps)
qed

lemma chat_loop:
  assumes "CHR 0x0A \<notin> set (buffer st)"
  shows "foldl (chat_chunk parse clock model) st cs =
     st\<lparr>buffer := last (split CHR 0x0A (buffer st @ concat cs)),
        fullContent := foldl js_plus (fullContent st)
          (List.map_filter (chat_fragment_of_line parse)
             (butlast (split CHR 0x0A (buffer st @ concat cs)))),
        written := written st @ chat_chunks clock model (ticks st)
          (List.map_filter (chat_fragment_of_line parse)
             (butlast (split CHR 0x0A (buffer st @ concat cs)))),
        ticks := ticks st + 2 * length
          (List.map_filter (chat_fragment_of_line parse)
             (butlast (split CHR 0x0A (buffer st @ concat cs)))),
        timer := (timer st \<or>
          List.map_filter (chat_fragment_of_line parse)
             (butlast (split CHR 0x0A (buffer st @ concat cs))) \<noteq> [])\<rparr>"
  unfolding foldl_chat_chunk [OF assms] foldl_chat_line by simp

lemma chat_run:
  "foldl (chat_arrival parse clock model) (empty_session\<lparr>timer := True\<rparr>) (map Chunk chunks) =
     \<lparr>buffer = last (split CHR 0x0A (concat chunks)),
      fullContent = JStr (concat (map to_string (chat_fragments parse chunks))),
      written = chat_chunks clock model 0 (chat_fragments parse chunks),
      ticks = 2 * length (chat_fragments parse chunks),
      timer = True, ended = None\<rparr>"
proof -
  have ns: "CHR 0x0A \<notin> set (buffer (empty_session\<lparr>timer := True\<rparr>))"
    by (simp add: empty_session_def)
  show ?thesis
    unfolding foldl_chat_arrival_chunks chat_loop [OF ns]
    by (simp add: chat_fragments_def foldl_js_plus_string empty_session_def)
qed

lemma chat_fragment_truthy: "chat_fragment_of_line parse l = Some d \<Longrightarrow> truthy d"
  by (auto simp: chat_fragment_of_line_def answer_delta_def split: option.splits if_splits)

lemma map_filter_truthy:
  "f \<in> set (List.map_filter (chat_fragment_of_line parse) ls) \<Longrightarrow> truthy f"
  by (auto simp: List.map_filter_def dest: chat_fragment_truthy)

lemma chat_fragments_truthy: "f \<in> set (chat_fragments parse chunks) \<Longrightarrow> truthy f"
  unfolding chat_fragments_def by (rule map_filter_truthy)

lemma chat_fragments_append:
  "chat_fragments parse (cs1 @ cs2) =
   chat_fragments parse cs1 @
   List.map_filter (chat_fragment_of_line parse)
     (butlast (split CHR 0x0A (last (split CHR 0x0A (concat cs1)) @ concat cs2)))"
proof -
  have "split CHR 0x0A (concat cs1 @ concat cs2) =
        butlast (split CHR 0x0A (concat cs1)) @
        split CHR 0x0A (last (split CHR 0x0A (concat cs1)) @ concat cs2)"
    by (rule split_append)
  then have "butlast (split CHR 0x0A (concat (cs1 @ cs2))) =
        butlast (split CHR 0x0A (concat cs1)) @
        butlast (split CHR 0x0A (last (split CHR 0x0A (concat cs1)) @ concat cs2))"
    by (simp add: butlast_append)
  then show ?thesis
    by (simp add: chat_fragments_def List.map_filter_def)
qed

lemma map_filter_append: "List.map_filter g (xs @ ys) = List.map_filter g xs @ List.map_filter g ys"
  by (simp add: List.map_filter_def)

lemma first_choice_chunk:
  "first_choice (Data (createStreamChunk a b m c fin)) =
     Some (JObj [(''index'', JNum 0),
                 (''delta'', if truthy c then JObj [(''content'', c)] else JObj []),
                 (''finish_reason'', fin)])"
  by (simp add: createStreamChunk_def js_get_def)

lemma chunk_content_chunk:
  "chunk_content (Data (createStreamChunk a b m c fin)) = (if truthy c then Some c else None)"
  unfolding chunk_content_def first_choice_chunk
  by (simp add: opt_chain_def js_get_def)

lemma chunk_finish_reason_chunk:
  "chunk_finish_reason (Data (createStreamChunk a b m c fin)) = Some fin"
  unfolding chunk_finish_reason_def first_choice_chunk
  by (simp add: opt_chain_def js_get_def)

lemma delta_content_chunk:
  "delta_content (Data (createStreamChunk a b m c fin)) =
     (if fin = JNull \<and> truthy c then Some c else None)"
  by (simp add: delta_content_def chunk_finish_reason_chunk chunk_content_chunk)

lemma delta_content_Literal [simp]: "delta_content (Literal s) = None"
  by (simp add: delta_content_def chunk_finish_reason_def opt_chain_def)

lemma is_terminal_chunk_Literal [simp]: "\<not> is_terminal_chunk (Literal s)"
  by (simp add: is_terminal_chunk_def chunk_finish_reason_def opt_chain_def)

lemma chunk_content_Literal [simp]: "chunk_content (Literal s) = None"
  by (simp add: chunk_content_def opt_chain_def)

lemma is_terminal_chunk_chunk:
  "is_terminal_chunk (Data (createStreamChunk a b m c fin)) = (fin \<noteq> JNull)"
  by (simp add: is_terminal_chunk_def chunk_finish_reason_chunk)

lemma chunk_content_chat_chunks:
  "\<forall>f \<in> set fs. truthy f \<Longrightarrow> List.map_filter chunk_content (chat_chunks clock model k fs) = fs"
  by (induction fs arbitrary: k) (simp_all add: List.map_filter_simps chunk_content_chunk)

lemma delta_content_chat_chunks:
  "\<forall>f \<in> set fs. truthy f \<Longrightarrow> List.map_filter delta_content (chat_chunks clock model k fs) = fs"
  by (induction fs arbitrary: k) (simp_all add: List.map_filter_simps delta_content_chunk)

lemma map_delta_content_chat_chunks:
  "\<forall>f \<in> set fs. truthy f \<Longrightarrow> map delta_content (chat_chunks clock model k fs) = map Some fs"
  by (induction fs arbitrary: k) (simp_all add: delta_content_chunk)

lemma terminal_chat_chunks:
  "filter is_terminal_chunk (chat_chunks clock model k fs) = []"
  by (induction fs arbitrary: k) (simp_all add: is_terminal_chunk_chunk)

lemma done_chat_chunks:
  "filter (\<lambda>w. w = done_sentinel) (chat_chunks clock model k fs) = []"
  by (induction fs arbitrary: k) (simp_all add: done_sentinel_def)

lemma length_chat_chunks [simp]: "length (chat_chunks clock model k fs) = length fs"
  by (induction fs arbitrary: k) simp_all

lemma timeout_writes_facts:
  "List.map_filter delta_content (timeout_writes clock model k) = []"
  "length (filter is_terminal_chunk (timeout_writes clock model k)) = 1"
  "filter (\<lambda>w. w = done_sentinel) (timeout_writes clock model k) = [done_sentinel]"
  "length (timeout_writes clock model k) = 2"
  by (simp_all add: timeout_writes_def List.map_filter_simps delta_content_chunk
        is_terminal_chunk_chunk done_sentinel_def)

text \<open>Whatever arrives, the delta chunks written are the fragments of the chunks that
  arrived, in order, and the accumulated text is their concatenation.\<close>

lemma chat_arrivals_fragments:
  assumes "CHR 0x0A \<notin> set (buffer st)"
  shows "buffer (foldl (chat_arrival parse clock model) st as) =
           last (split CHR 0x0A (buffer st @ concat (chunks_of as)))
       \<and> fullContent (foldl (chat_arrival parse clock model) st as) =
           foldl js_plus (fullContent st)
             (List.map_filter (chat_fragment_of_line parse)
                (butlast (split CHR 0x0A (buffer st @ concat (chunks_of as)))))
       \<and> List.map_filter delta_content (written (foldl (chat_arrival parse clock model) st as)) =
           List.map_filter delta_content (written st) @
           List.map_filter (chat_fragment_of_line parse)
             (butlast (split CHR 0x0A (buffer st @ concat (chunks_of as))))"
  using assms
proof (induction as arbitrary: st)
  case Nil
  then show ?case by (simp add: split_no_sep List.map_filter_simps)
next
  case (Cons a as)
  show ?case
  proof (cases a)
    case Deadline
    let ?st1 = "chat_arrival parse clock model st Deadline"
    have b: "buffer ?st1 = buffer st" and fc: "fullContent ?st1 = fullContent st"
      and w: "List.map_filter delta_content (written ?st1) =
              List.map_filter delta_content (written st)"
      by (simp_all add: chat_arrival_def chat_timeout_def map_filter_append timeout_writes_facts)
    from Cons.prems b have ns: "CHR 0x0A \<notin> set (buffer ?st1)" by simp
    from Cons.IH [OF ns] show ?thesis
      unfolding Deadline by (simp add: b fc w)
  next
    case (Chunk c)
    let ?L = "split CHR 0x0A (buffer st @ c)"
    let ?G1 = "List.map_filter (chat_fragment_of_line parse) (butlast ?L)"
    let ?st1 = "chat_chunk parse clock model st c"
    have s1: "?st1 = foldl (chat_chunk parse clock model) st [c]" by simp
    have b: "buffer ?st1 = last ?L"
      and fc: "fullContent ?st1 = foldl js_plus (fullContent st) ?G1"
      and w: "written ?st1 = written st @ chat_chunks clock model (ticks st) ?G1"
      unfolding s1 chat_loop [OF Cons.prems] by simp_all
    have ns: "CHR 0x0A \<notin> set (buffer ?st1)"
      unfolding b by (rule last_split_no_sep)
    have whole: "split CHR 0x0A (buffer st @ concat (chunks_of (a # as))) =
               butlast ?L @ split CHR 0x0A (last ?L @ concat (chunks_of as))"
      using split_append [of "CHR 0x0A" "buffer st @ c" "concat (chunks_of as)"] Chunk by simp
    have bl: "butlast (split CHR 0x0A (buffer st @ concat (chunks_of (a # as)))) =
            butlast ?L @ butlast (split CHR 0x0A (last ?L @ concat (chunks_of as)))"
      unfolding whole by (simp add: butlast_append)
    have la: "last (split CHR 0x0A (buffer st @ concat (chunks_of (a # as)))) =
            last (split CHR 0x0A (last ?L @ concat (chunks_of as)))"
      unfolding whole by simp
    have tr: "\<forall>f \<in> set ?G1. truthy f"
      using map_filter_truthy by blast
    have step: "foldl (chat_arrival parse clock model) st (a # as) =
                foldl (chat_arrival parse clock model) ?st1 as"
      unfolding Chunk by (simp add: chat_arrival_def)
    from Cons.IH [OF ns] show ?thesis
      unfolding step bl la b fc w
      by (simp add: map_filter_append delta_content_chat_chunks [OF tr])
  qed
qed

lemma chat_arrivals_run:
  "fullContent (foldl (chat_arrival parse clock model) (empty_session\<lparr>timer := True\<rparr>) as) =
     JStr (concat (map to_string (chat_fragments parse (chunks_of as))))
   \<and> List.map_filter delta_content
       (written (foldl (chat_arrival parse clock model) (empty_session\<lparr>timer := True\<rparr>) as)) =
     chat_fragments parse (chunks_of as)"
proof -
  have ns: "CHR 0x0A \<notin> set (buffer (empty_session\<lparr>timer := True\<rparr>))"
    by (simp add: empty_session_def)
  from chat_arrivals_fragments [OF ns, of parse clock model as] show ?thesis
    by (simp add: empty_session_def chat_fragments_def foldl_js_plus_string
          List.map_filter_simps)
qed


lemma chat_finish_events:
  \<open>events (chat_finish clock model env cid st EndOfStream) =
     written st @
     (case (if cid \<noteq> [] \<and> truthy (fullContent st) then store_error env else None) of
        None \<Rightarrow> []
      | Some message \<Rightarrow>
          [Literal (''data: {"error": "Streaming error: '' @ message @ ''"}\<newline>\<newline>'')]) @
     [Data (createStreamChunk (clock (ticks st)) (clock (Suc (ticks st))) model JNull (JStr ''stop'')),
      done_sentinel]\<close>
  by (simp add: chat_finish_def Let_def done_sentinel_def split: option.splits)

lemma chat_finish_rest:
  "closed (chat_finish clock model env cid st ending)"
  "accumulated (chat_finish clock model env cid st ending) = fullContent st"
  "late (chat_finish clock model env cid st EndOfStream) = []"
  by (simp_all add: chat_finish_def Let_def split: option.splits)

lemma one_deadline_run:
  "foldl (chat_arrival parse clock model) (empty_session\<lparr>timer := True\<rparr>)
     (map Chunk cs1 @ [Deadline] @ map Chunk cs2) =
   \<lparr>buffer = last (split CHR 0x0A (concat (cs1 @ cs2))),
    fullContent = JStr (concat (map to_string (chat_fragments parse (cs1 @ cs2)))),
    written = chat_chunks clock model 0 (chat_fragments parse cs1) @
              timeout_writes clock model (2 * length (chat_fragments parse cs1)) @
              chat_chunks clock model (2 * length (chat_fragments parse cs1) + 2)
                (drop (length (chat_fragments parse cs1)) (chat_fragments parse (cs1 @ cs2))),
    ticks = 2 * length (chat_fragments parse (cs1 @ cs2)) + 2,
    timer = (drop (length (chat_fragments parse cs1)) (chat_fragments parse (cs1 @ cs2)) \<noteq> []),
    ended = Some (length (chat_fragments parse cs1) + 2)\<rparr>"
proof -
  let ?f1 = "chat_fragments parse cs1"
  let ?b1 = "last (split CHR 0x0A (concat cs1))"
  let ?G2 = "List.map_filter (chat_fragment_of_line parse)
               (butlast (split CHR 0x0A (?b1 @ concat cs2)))"
  let ?s1 = "foldl (chat_arrival parse clock model) (empty_session\<lparr>timer := True\<rparr>) (map Chunk cs1)"
  let ?s2 = "chat_arrival parse clock model ?s1 Deadline"
  have fr: "chat_fragments parse (cs1 @ cs2) = ?f1 @ ?G2"
    by (rule chat_fragments_append)
  have dr: "drop (length ?f1) (chat_fragments parse (cs1 @ cs2)) = ?G2"
    unfolding fr by simp
  have s2: "?s2 =
     \<lparr>buffer = ?b1,
      fullContent = JStr (concat (map to_string ?f1)),
      written = chat_chunks clock model 0 ?f1 @ timeout_writes clock model (2 * length ?f1),
      ticks = 2 * length ?f1 + 2,
      timer = False, ended = Some (length ?f1 + 2)\<rparr>"
    unfolding chat_run by (simp add: chat_arrival_def chat_timeout_def)
  have ns: "CHR 0x0A \<notin> set (buffer ?s2)"
    unfolding s2 by (simp add: last_split_no_sep)
  have la: "last (split CHR 0x0A (concat (cs1 @ cs2))) = last (split CHR 0x0A (?b1 @ concat cs2))"
    using split_append [of "CHR 0x0A" "concat cs1" "concat cs2"] by simp
  have "foldl (chat_arrival parse clock model) (empty_session\<lparr>timer := True\<rparr>)
          (map Chunk cs1 @ [Deadline] @ map Chunk cs2) =
        foldl (chat_chunk parse clock model) ?s2 cs2"
    by (simp add: foldl_chat_arrival_chunks)
  also have "\<dots> =
     \<lparr>buffer = last (split CHR 0x0A (?b1 @ concat cs2)),
      fullContent = JStr (concat (map to_string ?f1) @ concat (map to_string ?G2)),
      written = (chat_chunks clock model 0 ?f1 @ timeout_writes clock model (2 * length ?f1)) @
                chat_chunks clock model (2 * length ?f1 + 2) ?G2,
      ticks = 2 * length ?f1 + 2 + 2 * length ?G2,
      timer = (?G2 \<noteq> []), ended = Some (length ?f1 + 2)\<rparr>"
    unfolding chat_loop [OF ns] unfolding s2 by (simp add: foldl_js_plus_string)
  finally show ?thesis
    unfolding dr la unfolding fr by simp
qed

lemma hello_chat_fragments:
  "chat_fragments json_parse hello_stream = [JStr ''Hel'', JStr ''lo'', JStr '' world'']"
  by code_simp

lemma hello_first_fragment:
  "chat_fragments json_parse [hello_stream ! 0] = [JStr ''Hel'']"
  by code_simp

lemma hello_parts: "[hello_stream ! 0] @ [hello_stream ! 1, hello_stream ! 2] = hello_stream"
  by (simp add: hello_stream_def)

lemma stalled_hello_parts:
  "map Chunk [hello_stream ! 0] @ [Deadline] @ map Chunk [hello_stream ! 1, hello_stream ! 2] =
   stalled_hello"
  by (simp add: stalled_hello_def)

text \<open>
  The flat-delta route. For every upstream stream that ends normally without the
  timeout running out, and whose response the store accepts, it writes one delta chunk
  per fragment, in order, whose \<open>delta.content\<close> is that fragment, so that the contents
  concatenate to the accumulated text; then exactly one terminal chunk (empty delta,
  \<open>finish_reason\<close> \<open>stop\<close>), then exactly one \<open>data: [DONE]\<close> sentinel, and ends the
  response after it. Whatever arrives, the delta chunks carry the fragments in order,
  a raw error record follows them when the store throws, and the last two writes are
  the terminal chunk and the sentinel. When the delay of the pending timeout runs
  out, its callback writes a chunk with the timeout notice and \<open>finish_reason\<close>
  \<open>length\<close> and a sentinel and ends the response, and the loop goes on: with one such
  timeout there are two terminal chunks and two sentinels, the response being ended
  after the first.
\<close>

theorem flat_delta_sequence:
  \<open>(let r = handleStreamingResponse parse clock model env cid (Body (map Chunk chunks) EndOfStream);
        frags = chat_fragments parse chunks;
        final = Data (createStreamChunk (clock (2 * length frags)) (clock (Suc (2 * length frags)))
                        model JNull (JStr ''stop''))
    in store_error env = None \<longrightarrow>
         events r = chat_chunks clock model 0 frags @ [final, done_sentinel]
       \<and> spec_flat_delta_sequence frags (events r)
       \<and> List.map_filter chunk_content (events r) = frags
       \<and> accumulated r = JStr (concat (map to_string frags))
       \<and> filter is_terminal_chunk (events r) = [final]
       \<and> chunk_finish_reason final = Some (JStr ''stop'')
       \<and> chunk_content final = None
       \<and> filter (\<lambda>w. w = done_sentinel) (events r) = [done_sentinel]
       \<and> closed r
       \<and> ended_after r = length (events r)
       \<and> late r = [])
   \<and> (let r = handleStreamingResponse parse clock model env cid (Body arrivals EndOfStream);
          frags = chat_fragments parse (chunks_of arrivals);
          run = foldl (chat_arrival parse clock model) (empty_session\<lparr>timer := True\<rparr>) arrivals
      in List.map_filter delta_content (events r) = frags
       \<and> accumulated r = JStr (concat (map to_string frags))
       \<and> events r =
           written run @
           (case (if cid \<noteq> [] \<and> truthy (accumulated r) then store_error env else None) of
              None \<Rightarrow> []
            | Some message \<Rightarrow>
                [Literal (''data: {"error": "Streaming error: '' @ message @ ''"}\<newline>\<newline>'')]) @
           [Data (createStreamChunk (clock (ticks run)) (clock (Suc (ticks run))) model JNull
                    (JStr ''stop'')),
            done_sentinel]
       \<and> closed r
       \<and> late r = [])
   \<and> (timer st \<longrightarrow>
        chat_arrival parse clock model st Deadline =
          st\<lparr>written := written st @
               [Data (createStreamChunk (clock (ticks st)) (clock (Suc (ticks st))) model
                        (JStr ''\<newline>\<newline>[Response timeout]'') (JStr ''length'')),
                done_sentinel],
             ticks := ticks st + 2,
             timer := False,
             ended := (case ended st of
                         None \<Rightarrow> Some (length (written st) + 2)
                       | Some n \<Rightarrow> Some n)\<rparr>)
   \<and> (\<not> timer st \<longrightarrow> chat_arrival parse clock model st Deadline = st)
   \<and> (let r = handleStreamingResponse parse clock model env cid
                 (Body (map Chunk cs1 @ [Deadline] @ map Chunk cs2) EndOfStream);
          f1 = chat_fragments parse cs1;
          frags = chat_fragments parse (cs1 @ cs2);
          final = Data (createStreamChunk (clock (2 * length frags + 2))
                          (clock (Suc (2 * length frags + 2))) model JNull (JStr ''stop''))
      in store_error env = None \<longrightarrow>
           events r =
             chat_chunks clock model 0 f1 @
             timeout_writes clock model (2 * length f1) @
             chat_chunks clock model (2 * length f1 + 2) (drop (length f1) frags) @
             [final, done_sentinel]
         \<and> take (length f1) frags = f1
         \<and> ended_after r = length f1 + 2
         \<and> length (filter is_terminal_chunk (events r)) = 2
         \<and> length (filter (\<lambda>w. w = done_sentinel) (events r)) = 2
         \<and> \<not> spec_flat_delta_sequence frags (events r))\<close>
proof -
  let ?frags = "chat_fragments parse chunks"
  let ?final = "Data (createStreamChunk (clock (2 * length ?frags)) (clock (Suc (2 * length ?frags)))
                        model JNull (JStr ''stop''))"
  let ?r = "handleStreamingResponse parse clock model env cid (Body (map Chunk chunks) EndOfStream)"
  have r: "?r = chat_finish clock model env cid
                 \<lparr>buffer = last (split CHR 0x0A (concat chunks)),
                  fullContent = JStr (concat (map to_string ?frags)),
                  written = chat_chunks clock model 0 ?frags,
                  ticks = 2 * length ?frags,
                  timer = True, ended = None\<rparr> EndOfStream"
    by (simp add: handleStreamingResponse_def chat_run)
  have tr: "\<forall>f \<in> set ?frags. truthy f"
    using chat_fragments_truthy by blast
  have fin: "chunk_finish_reason ?final = Some (JStr ''stop'')" "chunk_content ?final = None"
    "is_terminal_chunk ?final" "delta_content ?final = None"
    by (simp_all add: chunk_finish_reason_chunk chunk_content_chunk is_terminal_chunk_chunk
          delta_content_chunk)
  have dn: "chunk_content done_sentinel = None" "\<not> is_terminal_chunk done_sentinel"
    "?final \<noteq> done_sentinel"
    by (simp_all add: done_sentinel_def)
  have quiet: "events ?r = chat_chunks clock model 0 ?frags @ [?final, done_sentinel]
       \<and> spec_flat_delta_sequence ?frags (events ?r)
       \<and> List.map_filter chunk_content (events ?r) = ?frags
       \<and> accumulated ?r = JStr (concat (map to_string ?frags))
       \<and> filter is_terminal_chunk (events ?r) = [?final]
       \<and> chunk_finish_reason ?final = Some (JStr ''stop'')
       \<and> chunk_content ?final = None
       \<and> filter (\<lambda>w. w = done_sentinel) (events ?r) = [done_sentinel]
       \<and> closed ?r
       \<and> ended_after ?r = length (events ?r)
       \<and> late ?r = []" if ok: "store_error env = None"
  proof -
    have ev: "events ?r = chat_chunks clock model 0 ?frags @ [?final, done_sentinel]"
      unfolding r chat_finish_events using ok by simp
    have sp: "spec_flat_delta_sequence ?frags (events ?r)"
      unfolding ev spec_flat_delta_sequence_def
      using map_delta_content_chat_chunks [OF tr, of clock model 0] fin(3)
      by (simp add: nth_append)
    have content: "List.map_filter chunk_content (events ?r) = ?frags"
      unfolding ev
      using chunk_content_chat_chunks [OF tr, of clock model 0]
      by (simp add: map_filter_append List.map_filter_simps fin dn)
    have acc: "accumulated ?r = JStr (concat (map to_string ?frags))"
      unfolding r by (simp add: chat_finish_rest)
    have tc: "filter is_terminal_chunk (events ?r) = [?final]"
      unfolding ev by (simp add: terminal_chat_chunks dn fin)
    have done1: "filter (\<lambda>w. w = done_sentinel) (events ?r) = [done_sentinel]"
      unfolding ev using dn(3) by (simp add: done_chat_chunks)
    have cl: "closed ?r" "late ?r = []"
      unfolding r by (simp_all add: chat_finish_rest)
    have en: "ended_after ?r = length (events ?r)"
      unfolding r using ok by (simp add: chat_finish_def Let_def)
    from ev sp content acc tc fin(1,2) done1 cl(1) en cl(2) show ?thesis
      by (intro conjI)
  qed
  let ?g = "handleStreamingResponse parse clock model env cid (Body arrivals EndOfStream)"
  let ?gf = "chat_fragments parse (chunks_of arrivals)"
  let ?run = "foldl (chat_arrival parse clock model) (empty_session\<lparr>timer := True\<rparr>) arrivals"
  have g: "?g = chat_finish clock model env cid ?run EndOfStream"
    by (simp add: handleStreamingResponse_def)
  note inv = chat_arrivals_run [of parse clock model arrivals]
  have gacc: "accumulated ?g = JStr (concat (map to_string ?gf))"
    unfolding g chat_finish_rest using inv by simp
  have gev: \<open>events ?g =
           written ?run @
           (case (if cid \<noteq> [] \<and> truthy (accumulated ?g) then store_error env else None) of
              None \<Rightarrow> []
            | Some message \<Rightarrow>
                [Literal (''data: {"error": "Streaming error: '' @ message @ ''"}\<newline>\<newline>'')]) @
           [Data (createStreamChunk (clock (ticks ?run)) (clock (Suc (ticks ?run))) model JNull
                    (JStr ''stop'')),
            done_sentinel]\<close>
    unfolding g chat_finish_events chat_finish_rest ..
  have gdelta: "List.map_filter delta_content (events ?g) = ?gf"
    unfolding gev using inv
    by (simp add: map_filter_append List.map_filter_simps delta_content_chunk done_sentinel_def
             split: option.splits)
  have gcl: "closed ?g" "late ?g = []"
    unfolding g by (simp_all add: chat_finish_rest)
  have general: \<open>List.map_filter delta_content (events ?g) = ?gf
       \<and> accumulated ?g = JStr (concat (map to_string ?gf))
       \<and> events ?g =
           written ?run @
           (case (if cid \<noteq> [] \<and> truthy (accumulated ?g) then store_error env else None) of
              None \<Rightarrow> []
            | Some message \<Rightarrow>
                [Literal (''data: {"error": "Streaming error: '' @ message @ ''"}\<newline>\<newline>'')]) @
           [Data (createStreamChunk (clock (ticks ?run)) (clock (Suc (ticks ?run))) model JNull
                    (JStr ''stop'')),
            done_sentinel]
       \<and> closed ?g
       \<and> late ?g = []\<close>
    using gdelta gacc gev gcl by (intro conjI)
  have fire: \<open>timer st \<longrightarrow>
        chat_arrival parse clock model st Deadline =
          st\<lparr>written := written st @
               [Data (createStreamChunk (clock (ticks st)) (clock (Suc (ticks st))) model
                        (JStr ''\<newline>\<newline>[Response timeout]'') (JStr ''length'')),
                done_sentinel],
             ticks := ticks st + 2,
             timer := False,
             ended := (case ended st of
                         None \<Rightarrow> Some (length (written st) + 2)
                       | Some n \<Rightarrow> Some n)\<rparr>\<close>
    by (simp add: chat_arrival_def chat_timeout_def timeout_writes_def done_sentinel_def)
  have idle: "\<not> timer st \<longrightarrow> chat_arrival parse clock model st Deadline = st"
    by (simp add: chat_arrival_def)
  let ?d = "handleStreamingResponse parse clock model env cid
                 (Body (map Chunk cs1 @ [Deadline] @ map Chunk cs2) EndOfStream)"
  let ?f1 = "chat_fragments parse cs1"
  let ?df = "chat_fragments parse (cs1 @ cs2)"
  let ?f2 = "drop (length ?f1) ?df"
  let ?dfinal = "Data (createStreamChunk (clock (2 * length ?df + 2))
                          (clock (Suc (2 * length ?df + 2))) model JNull (JStr ''stop''))"
  have d: "?d = chat_finish clock model env cid
     \<lparr>buffer = last (split CHR 0x0A (concat (cs1 @ cs2))),
      fullContent = JStr (concat (map to_string ?df)),
      written = chat_chunks clock model 0 ?f1 @
                timeout_writes clock model (2 * length ?f1) @
                chat_chunks clock model (2 * length ?f1 + 2) ?f2,
      ticks = 2 * length ?df + 2,
      timer = (?f2 \<noteq> []),
      ended = Some (length ?f1 + 2)\<rparr> EndOfStream"
    unfolding handleStreamingResponse_def body.case one_deadline_run ..
  have tk: "take (length ?f1) ?df = ?f1"
    unfolding chat_fragments_append by simp
  have ln: "length ?f1 + length ?f2 = length ?df"
    unfolding chat_fragments_append by simp
  have timed: "events ?d =
             chat_chunks clock model 0 ?f1 @
             timeout_writes clock model (2 * length ?f1) @
             chat_chunks clock model (2 * length ?f1 + 2) ?f2 @
             [?dfinal, done_sentinel]
         \<and> take (length ?f1) ?df = ?f1
         \<and> ended_after ?d = length ?f1 + 2
         \<and> length (filter is_terminal_chunk (events ?d)) = 2
         \<and> length (filter (\<lambda>w. w = done_sentinel) (events ?d)) = 2
         \<and> \<not> spec_flat_delta_sequence ?df (events ?d)" if ok: "store_error env = None"
  proof -
    have ev: "events ?d =
             chat_chunks clock model 0 ?f1 @
             timeout_writes clock model (2 * length ?f1) @
             chat_chunks clock model (2 * length ?f1 + 2) ?f2 @
             [?dfinal, done_sentinel]"
      unfolding d chat_finish_events using ok by simp
    have en: "ended_after ?d = length ?f1 + 2"
      unfolding d using ok by (simp add: chat_finish_def Let_def)
    have tc: "length (filter is_terminal_chunk (events ?d)) = 2"
      unfolding ev
      by (simp add: terminal_chat_chunks timeout_writes_facts is_terminal_chunk_chunk
            done_sentinel_def)
    have dc: "length (filter (\<lambda>w. w = done_sentinel) (events ?d)) = 2"
      unfolding ev
      by (simp add: done_chat_chunks timeout_writes_facts) (simp add: done_sentinel_def)
    have len: "length (events ?d) = length ?df + 4"
      unfolding ev using ln by (simp add: timeout_writes_facts)
    have ns: "\<not> spec_flat_delta_sequence ?df (events ?d)"
      unfolding spec_flat_delta_sequence_def len by simp
    from ev tk en tc dc ns show ?thesis
      by (intro conjI)
  qed
  show ?thesis
    unfolding Let_def
    using quiet general fire idle timed
    by (intro conjI impI) blast+
qed

theorem flat_delta_sequence_witness:
  "events (handleStreamingResponse json_parse (\<lambda>k. int k) ''m'' quiet_environment ''c''
     (Body (map Chunk hello_stream) EndOfStream)) =
     [Data (createStreamChunk 0 1 ''m'' (JStr ''Hel'') JNull),
      Data (createStreamChunk 2 3 ''m'' (JStr ''lo'') JNull),
      Data (createStreamChunk 4 5 ''m'' (JStr '' world'') JNull),
      Data (createStreamChunk 6 7 ''m'' JNull (JStr ''stop'')),
      done_sentinel]
   \<and> spec_flat_delta_sequence [JStr ''Hel'', JStr ''lo'', JStr '' world'']
        (events (handleStreamingResponse json_parse (\<lambda>k. int k) ''m'' quiet_environment ''c''
           (Body (map Chunk hello_stream) EndOfStream)))
   \<and> List.map_filter chunk_content
        (events (handleStreamingResponse json_parse (\<lambda>k. int k) ''m'' quiet_environment ''c''
           (Body (map Chunk hello_stream) EndOfStream))) = [JStr ''Hel'', JStr ''lo'', JStr '' world'']
   \<and> accumulated (handleStreamingResponse json_parse (\<lambda>k. int k) ''m'' quiet_environment ''c''
        (Body (map Chunk hello_stream) EndOfStream)) = JStr ''Hello world''
   \<and> closed (handleStreamingResponse json_parse (\<lambda>k. int k) ''m'' quiet_environment ''c''
        (Body (map Chunk hello_stream) EndOfStream))
   \<and> ended_after (handleStreamingResponse json_parse (\<lambda>k. int k) ''m'' quiet_environment ''c''
        (Body (map Chunk hello_stream) EndOfStream)) = 5
   \<and> events (handleStreamingResponse json_parse (\<lambda>k. int k) ''m'' quiet_environment ''c''
        (Body stalled_hello EndOfStream)) =
     [Data (createStreamChunk 0 1 ''m'' (JStr ''Hel'') JNull)] @
     timeout_writes (\<lambda>k. int k) ''m'' 2 @
     [Data (createStreamChunk 4 5 ''m'' (JStr ''lo'') JNull),
      Data (createStreamChunk 6 7 ''m'' (JStr '' world'') JNull),
      Data (createStreamChunk 8 9 ''m'' JNull (JStr ''stop'')),
      done_sentinel]
   \<and> ended_after (handleStreamingResponse json_parse (\<lambda>k. int k) ''m'' quiet_environment ''c''
        (Body stalled_hello EndOfStream)) = 3
   \<and> chat_arrival json_parse (\<lambda>k. int k) ''m'' (empty_session\<lparr>timer := True\<rparr>) Deadline =
       empty_session\<lparr>written := timeout_writes (\<lambda>k. int k) ''m'' 0, ticks := 2, ended := Some 2\<rparr>"
proof -
  let ?q = "handleStreamingResponse json_parse (\<lambda>k. int k) ''m'' quiet_environment ''c''
              (Body (map Chunk hello_stream) EndOfStream)"
  let ?s = "handleStreamingResponse json_parse (\<lambda>k. int k) ''m'' quiet_environment ''c''
              (Body stalled_hello EndOfStream)"
  have l: "length [JStr ''Hel'', JStr ''lo'', JStr '' world''] = 3" by simp
  have ok: "store_error quiet_environment = None" by (simp add: quiet_environment_def)
  note T = flat_delta_sequence [of json_parse "\<lambda>k. int k" "''m''" quiet_environment "''c''"
      hello_stream "[]" "empty_session\<lparr>timer := True\<rparr>" "[hello_stream ! 0]"
      "[hello_stream ! 1, hello_stream ! 2]",
      unfolded Let_def hello_parts stalled_hello_parts hello_chat_fragments hello_first_fragment l]
  note Q = T [THEN conjunct1, rule_format, OF ok]
  note S = T [THEN conjunct2, THEN conjunct2, THEN conjunct2, THEN conjunct2, rule_format, OF ok]
  have e: "chat_chunks (\<lambda>k. int k) ''m'' 0 [JStr ''Hel'', JStr ''lo'', JStr '' world''] =
     [Data (createStreamChunk 0 1 ''m'' (JStr ''Hel'') JNull),
      Data (createStreamChunk 2 3 ''m'' (JStr ''lo'') JNull),
      Data (createStreamChunk 4 5 ''m'' (JStr '' world'') JNull)]"
    by simp
  have q1: "events ?q =
     [Data (createStreamChunk 0 1 ''m'' (JStr ''Hel'') JNull),
      Data (createStreamChunk 2 3 ''m'' (JStr ''lo'') JNull),
      Data (createStreamChunk 4 5 ''m'' (JStr '' world'') JNull),
      Data (createStreamChunk 6 7 ''m'' JNull (JStr ''stop'')),
      done_sentinel]"
    using Q [THEN conjunct1] unfolding e by simp
  have q2: "spec_flat_delta_sequence [JStr ''Hel'', JStr ''lo'', JStr '' world''] (events ?q)"
    using Q by (rule conjunct2 [THEN conjunct1])
  have q3: "List.map_filter chunk_content (events ?q) = [JStr ''Hel'', JStr ''lo'', JStr '' world'']"
    using Q by (rule conjunct2 [THEN conjunct2, THEN conjunct1])
  have q4: "accumulated ?q = JStr ''Hello world''"
    using Q [THEN conjunct2, THEN conjunct2, THEN conjunct2, THEN conjunct1] by simp
  have q5: "closed ?q"
    using Q by blast
  have q6: "ended_after ?q = 5"
    using Q [THEN conjunct2, THEN conjunct2, THEN conjunct2, THEN conjunct2, THEN conjunct2,
             THEN conjunct2, THEN conjunct2, THEN conjunct2, THEN conjunct2, THEN conjunct1]
    unfolding q1 by simp
  have s1: "events ?s =
     [Data (createStreamChunk 0 1 ''m'' (JStr ''Hel'') JNull)] @
     timeout_writes (\<lambda>k. int k) ''m'' 2 @
     [Data (createStreamChunk 4 5 ''m'' (JStr ''lo'') JNull),
      Data (createStreamChunk 6 7 ''m'' (JStr '' world'') JNull),
      Data (createStreamChunk 8 9 ''m'' JNull (JStr ''stop'')),
      done_sentinel]"
    using S [THEN conjunct1] by simp
  have s2: "ended_after ?s = 3"
    using S [THEN conjunct2, THEN conjunct2, THEN conjunct1] by simp
  have t1: "chat_arrival json_parse (\<lambda>k. int k) ''m'' (empty_session\<lparr>timer := True\<rparr>) Deadline =
       empty_session\<lparr>written := timeout_writes (\<lambda>k. int k) ''m'' 0, ticks := 2, ended := Some 2\<rparr>"
    using T [THEN conjunct2, THEN conjunct2, THEN conjunct1]
    by (simp add: empty_session_def timeout_writes_def done_sentinel_def)
  from q1 q2 q3 q4 q5 q6 s1 s2 t1 show ?thesis
    by (intro conjI)
qed

text \<open>
  Claim C4. The flat-delta route is to write one delta chunk per fragment, then
  exactly one terminal chunk and exactly one \<open>data: [DONE]\<close> sentinel, and then to end
  the response. When the upstream stalls after the first fragment until the delay of
  the timeout has run out, the callback writes a terminal chunk and the sentinel and
  ends the response, but nothing stops the loop: the other two fragments are written
  after that, followed by a second terminal chunk and a second sentinel. What was
  written before the response was ended carries \<open>Hel\<close> and the timeout notice only.
\<close>

theorem flat_delta_timeout_divergence:
  \<open>events (handleStreamingResponse json_parse (\<lambda>k. int k) ''m'' quiet_environment ''c''
     (Body stalled_hello EndOfStream)) =
     [Data (createStreamChunk 0 1 ''m'' (JStr ''Hel'') JNull),
      Data (createStreamChunk 2 3 ''m'' (JStr ''\<newline>\<newline>[Response timeout]'') (JStr ''length'')),
      done_sentinel,
      Data (createStreamChunk 4 5 ''m'' (JStr ''lo'') JNull),
      Data (createStreamChunk 6 7 ''m'' (JStr '' world'') JNull),
      Data (createStreamChunk 8 9 ''m'' JNull (JStr ''stop'')),
      done_sentinel]
   \<and> chat_fragments json_parse (chunks_of stalled_hello) =
       [JStr ''Hel'', JStr ''lo'', JStr '' world'']
   \<and> \<not> spec_flat_delta_sequence [JStr ''Hel'', JStr ''lo'', JStr '' world'']
        (events (handleStreamingResponse json_parse (\<lambda>k. int k) ''m'' quiet_environment ''c''
           (Body stalled_hello EndOfStream)))
   \<and> length (filter is_terminal_chunk
        (events (handleStreamingResponse json_parse (\<lambda>k. int k) ''m'' quiet_environment ''c''
           (Body stalled_hello EndOfStream)))) = 2
   \<and> length (filter (\<lambda>w. w = done_sentinel)
        (events (handleStreamingResponse json_parse (\<lambda>k. int k) ''m'' quiet_environment ''c''
           (Body stalled_hello EndOfStream)))) = 2
   \<and> ended_after (handleStreamingResponse json_parse (\<lambda>k. int k) ''m'' quiet_environment ''c''
        (Body stalled_hello EndOfStream)) = 3
   \<and> List.map_filter chunk_content (take 3
        (events (handleStreamingResponse json_parse (\<lambda>k. int k) ''m'' quiet_environment ''c''
           (Body stalled_hello EndOfStream)))) =
       [JStr ''Hel'', JStr ''\<newline>\<newline>[Response timeout]'']\<close>
proof -
  let ?s = "handleStreamingResponse json_parse (\<lambda>k. int k) ''m'' quiet_environment ''c''
              (Body stalled_hello EndOfStream)"
  have a: "events ?s =
     [Data (createStreamChunk 0 1 ''m'' (JStr ''Hel'') JNull),
      Data (createStreamChunk 2 3 ''m'' (JStr ''\<newline>\<newline>[Response timeout]'') (JStr ''length'')),
      done_sentinel,
      Data (createStreamChunk 4 5 ''m'' (JStr ''lo'') JNull),
      Data (createStreamChunk 6 7 ''m'' (JStr '' world'') JNull),
      Data (createStreamChunk 8 9 ''m'' JNull (JStr ''stop'')),
      done_sentinel]"
    by code_simp
  have b: "chat_fragments json_parse (chunks_of stalled_hello) =
       [JStr ''Hel'', JStr ''lo'', JStr '' world'']"
    by code_simp
  have c: "\<not> spec_flat_delta_sequence [JStr ''Hel'', JStr ''lo'', JStr '' world''] (events ?s)"
    by code_simp
  have d: "length (filter is_terminal_chunk (events ?s)) = 2"
    by code_simp
  have e: "length (filter (\<lambda>w. w = done_sentinel) (events ?s)) = 2"
    by code_simp
  have f: "ended_after ?s = 3"
    by code_simp
  have g: "List.map_filter chunk_content (take 3 (events ?s)) =
       [JStr ''Hel'', JStr ''\<newline>\<newline>[Response timeout]'']"
    by code_simp
  from a b c d e f g show ?thesis by (intro conjI)
qed






subsection \<open>Credential rotation\<close>

lemma getNextApiKey_round_robin:
  assumes "length keys \<ge> 2" "mode \<noteq> ''sequential''" "mode \<noteq> ''random''"
  shows "getNextApiKey keys mode rnd s =
     Inr (at_index keys (currentKeyIndex s),
          s\<lparr>currentKeyIndex := (currentKeyIndex s + 1) mod length keys,
            keyUsageCount := bump (keyUsageCount s) (at_index keys (currentKeyIndex s))\<rparr>)"
  using assms by (auto simp: getNextApiKey_def)

lemma getNextApiKey_sequential:
  assumes "length keys \<ge> 2"
  shows "getNextApiKey keys ''sequential'' rnd s =
     Inr (at_index keys (currentKeyIndex s),
          s\<lparr>keyUsageCount := bump (keyUsageCount s) (at_index keys (currentKeyIndex s))\<rparr>)"
  using assms by (auto simp: getNextApiKey_def)

lemma getNextApiKey_random:
  assumes "length keys \<ge> 2"
  shows "getNextApiKey keys ''random'' rnd s =
     Inr (at_index keys (nat \<lfloor>rnd * real (length keys)\<rfloor>),
          s\<lparr>keyUsageCount := bump (keyUsageCount s)
                 (at_index keys (nat \<lfloor>rnd * real (length keys)\<rfloor>))\<rparr>)"
  using assms by (auto simp: getNextApiKey_def)

lemma random_index_in_range:
  assumes "0 \<le> rnd" "rnd < 1" "n > 0"
  shows "nat \<lfloor>rnd * real n\<rfloor> < n"
proof -
  have "rnd * real n < real n" using assms by simp
  then have "\<lfloor>rnd * real n\<rfloor> < int n" by (simp add: floor_less_iff)
  then show ?thesis using assms by simp
qed

text \<open>
  Claim C7. With at least two credentials: under round-robin (any mode other than
  \<open>sequential\<close> and \<open>random\<close>) \<open>getNextApiKey\<close> returns the credential at the cursor and
  advances the cursor by one modulo the pool size; under \<open>sequential\<close> it returns the
  credential at the cursor and leaves the cursor alone, and only \<open>markKeyError\<close>
  advances it; under \<open>random\<close> the credential is picked by the random draw, whatever the
  cursor, and the cursor stays. For the pool \<open>[A, B]\<close>: four round-robin calls return
  \<open>A, B, A, B\<close>; four sequential calls return \<open>A, A, A, A\<close>, and after one \<open>markKeyError\<close>
  the next call returns \<open>B\<close>.
\<close>

theorem rotation_policies:
  "(length keys \<ge> 2 \<and> mode \<noteq> ''sequential'' \<and> mode \<noteq> ''random'' \<and> currentKeyIndex s < length keys \<longrightarrow>
      (case getNextApiKey keys mode rnd s of
         Inl _ \<Rightarrow> False
       | Inr (key, s') \<Rightarrow>
           key = Some (keys ! currentKeyIndex s) \<and>
           currentKeyIndex s' = (currentKeyIndex s + 1) mod length keys))
   \<and> (length keys \<ge> 2 \<and> currentKeyIndex s < length keys \<longrightarrow>
      (case getNextApiKey keys ''sequential'' rnd s of
         Inl _ \<Rightarrow> False
       | Inr (key, s') \<Rightarrow>
           key = Some (keys ! currentKeyIndex s) \<and> currentKeyIndex s' = currentKeyIndex s))
   \<and> currentKeyIndex (markKeyError keys ''sequential'' key s) =
        (currentKeyIndex s + 1) mod length keys
   \<and> (mode \<noteq> ''sequential'' \<longrightarrow>
        currentKeyIndex (markKeyError keys mode key s) = currentKeyIndex s)
   \<and> (length keys \<ge> 2 \<and> 0 \<le> rnd \<and> rnd < 1 \<longrightarrow>
      (case getNextApiKey keys ''random'' rnd s of
         Inl _ \<Rightarrow> False
       | Inr (key, s') \<Rightarrow>
           key = Some (keys ! nat \<lfloor>rnd * real (length keys)\<rfloor>) \<and>
           key \<in> Some ` set keys \<and>
           currentKeyIndex s' = currentKeyIndex s \<and>
           map_sum id fst (getNextApiKey keys ''random'' rnd (s\<lparr>currentKeyIndex := i\<rparr>)) = Inr key))
   \<and> fst (next_keys [A, B] ''round-robin'' rnd 4 initial_rotator) = [Some A, Some B, Some A, Some B]
   \<and> fst (next_keys [A, B] ''sequential'' rnd 4 initial_rotator) = [Some A, Some A, Some A, Some A]
   \<and> fst (next_keys [A, B] ''sequential'' rnd 1
            (markKeyError [A, B] ''sequential'' (Some A)
               (snd (next_keys [A, B] ''sequential'' rnd 4 initial_rotator)))) = [Some B]"
proof -
  have c1: "length keys \<ge> 2 \<and> mode \<noteq> ''sequential'' \<and> mode \<noteq> ''random'' \<and> currentKeyIndex s < length keys \<longrightarrow>
      (case getNextApiKey keys mode rnd s of
         Inl _ \<Rightarrow> False
       | Inr (key, s') \<Rightarrow>
           key = Some (keys ! currentKeyIndex s) \<and>
           currentKeyIndex s' = (currentKeyIndex s + 1) mod length keys)"
    by (simp add: getNextApiKey_round_robin at_index_def)
  have c2: "length keys \<ge> 2 \<and> currentKeyIndex s < length keys \<longrightarrow>
      (case getNextApiKey keys ''sequential'' rnd s of
         Inl _ \<Rightarrow> False
       | Inr (key, s') \<Rightarrow>
           key = Some (keys ! currentKeyIndex s) \<and> currentKeyIndex s' = currentKeyIndex s)"
    by (simp add: getNextApiKey_sequential at_index_def)
  have c3: "currentKeyIndex (markKeyError keys ''sequential'' key s) =
        (currentKeyIndex s + 1) mod length keys"
    by (simp add: markKeyError_def Let_def)
  have c4: "mode \<noteq> ''sequential'' \<longrightarrow>
        currentKeyIndex (markKeyError keys mode key s) = currentKeyIndex s"
    by (simp add: markKeyError_def Let_def)
  have c5: "length keys \<ge> 2 \<and> 0 \<le> rnd \<and> rnd < 1 \<longrightarrow>
      (case getNextApiKey keys ''random'' rnd s of
         Inl _ \<Rightarrow> False
       | Inr (key, s') \<Rightarrow>
           key = Some (keys ! nat \<lfloor>rnd * real (length keys)\<rfloor>) \<and>
           key \<in> Some ` set keys \<and>
           currentKeyIndex s' = currentKeyIndex s \<and>
           map_sum id fst (getNextApiKey keys ''random'' rnd (s\<lparr>currentKeyIndex := i\<rparr>)) = Inr key)"
  proof
    assume a: "length keys \<ge> 2 \<and> 0 \<le> rnd \<and> rnd < 1"
    then have "length keys > 0" by auto
    with a have "nat \<lfloor>rnd * real (length keys)\<rfloor> < length keys"
      using random_index_in_range [of rnd "length keys"] by blast
    with a show "case getNextApiKey keys ''random'' rnd s of
         Inl _ \<Rightarrow> False
       | Inr (key, s') \<Rightarrow>
           key = Some (keys ! nat \<lfloor>rnd * real (length keys)\<rfloor>) \<and>
           key \<in> Some ` set keys \<and>
           currentKeyIndex s' = currentKeyIndex s \<and>
           map_sum id fst (getNextApiKey keys ''random'' rnd (s\<lparr>currentKeyIndex := i\<rparr>)) = Inr key"
      by (simp add: getNextApiKey_random at_index_def)
  qed
  have rr: "fst (next_keys [A, B] ''round-robin'' rnd 4 initial_rotator) = [Some A, Some B, Some A, Some B]"
    by (simp add: numeral_eq_Suc getNextApiKey_def at_index_def initial_rotator_def Let_def)
  have sq: "fst (next_keys [A, B] ''sequential'' rnd 4 initial_rotator) = [Some A, Some A, Some A, Some A]"
    by (simp add: numeral_eq_Suc getNextApiKey_def at_index_def initial_rotator_def Let_def)
  have mk: "fst (next_keys [A, B] ''sequential'' rnd 1
            (markKeyError [A, B] ''sequential'' (Some A)
               (snd (next_keys [A, B] ''sequential'' rnd 4 initial_rotator)))) = [Some B]"
    by (simp add: numeral_eq_Suc getNextApiKey_def at_index_def initial_rotator_def Let_def
          markKeyError_def)
  from c1 c2 c3 c4 c5 rr sq mk show ?thesis by (intro conjI)
qed

theorem rotation_policies_witness:
  "(case getNextApiKey [''A'', ''B''] ''round-robin'' 0 initial_rotator of
         Inl _ \<Rightarrow> False
       | Inr (key, s') \<Rightarrow> key = Some ''A'' \<and> currentKeyIndex s' = 1)
   \<and> (case getNextApiKey [''A'', ''B''] ''sequential'' 0 initial_rotator of
         Inl _ \<Rightarrow> False
       | Inr (key, s') \<Rightarrow> key = Some ''A'' \<and> currentKeyIndex s' = 0)
   \<and> currentKeyIndex (markKeyError [''A'', ''B''] ''sequential'' (Some ''A'') initial_rotator) = 1
   \<and> currentKeyIndex (markKeyError [''A'', ''B''] ''round-robin'' (Some ''A'') initial_rotator) = 0
   \<and> (case getNextApiKey [''A'', ''B''] ''random'' (3 / 4) initial_rotator of
         Inl _ \<Rightarrow> False
       | Inr (key, s') \<Rightarrow> key = Some ''B'' \<and> currentKeyIndex s' = 0)
   \<and> fst (next_keys [''A'', ''B''] ''round-robin'' 0 4 initial_rotator) =
        [Some ''A'', Some ''B'', Some ''A'', Some ''B'']
   \<and> fst (next_keys [''A'', ''B''] ''sequential'' 0 4 initial_rotator) =
        [Some ''A'', Some ''A'', Some ''A'', Some ''A'']
   \<and> fst (next_keys [''A'', ''B''] ''sequential'' 0 1
            (markKeyError [''A'', ''B''] ''sequential'' (Some ''A'')
               (snd (next_keys [''A'', ''B''] ''sequential'' 0 4 initial_rotator)))) = [Some ''B'']"
proof -
  have f: "nat \<lfloor>(3 / 4 :: real) * real (length [''A'', ''B''])\<rfloor> = 1"
    by simp
  have i: "currentKeyIndex initial_rotator = 0"
    by (simp add: initial_rotator_def)
  note T1 = rotation_policies [of "[''A'', ''B'']" "''round-robin''" initial_rotator 0
              "Some ''A''" 0 "''A''" "''B''"]
  note T2 = rotation_policies [of "[''A'', ''B'']" "''round-robin''" initial_rotator "3 / 4"
              "Some ''A''" 0 "''A''" "''B''"]
  have w1: "case getNextApiKey [''A'', ''B''] ''round-robin'' 0 initial_rotator of
         Inl _ \<Rightarrow> False
       | Inr (key, s') \<Rightarrow> key = Some ''A'' \<and> currentKeyIndex s' = 1"
    using T1 [THEN conjunct1] by (auto simp: i split: sum.splits)
  have w2: "case getNextApiKey [''A'', ''B''] ''sequential'' 0 initial_rotator of
         Inl _ \<Rightarrow> False
       | Inr (key, s') \<Rightarrow> key = Some ''A'' \<and> currentKeyIndex s' = 0"
    using T1 [THEN conjunct2, THEN conjunct1] by (auto simp: i split: sum.splits)
  have w3: "currentKeyIndex (markKeyError [''A'', ''B''] ''sequential'' (Some ''A'') initial_rotator) = 1"
    using T1 [THEN conjunct2, THEN conjunct2, THEN conjunct1] by (simp add: i)
  have w4: "currentKeyIndex (markKeyError [''A'', ''B''] ''round-robin'' (Some ''A'') initial_rotator) = 0"
    using T1 [THEN conjunct2, THEN conjunct2, THEN conjunct2, THEN conjunct1] by (simp add: i)
  have w5: "case getNextApiKey [''A'', ''B''] ''random'' (3 / 4) initial_rotator of
         Inl _ \<Rightarrow> False
       | Inr (key, s') \<Rightarrow> key = Some ''B'' \<and> currentKeyIndex s' = 0"
    using T2 [THEN conjunct2, THEN conjunct2, THEN conjunct2, THEN conjunct2, THEN conjunct1]
    by (auto simp: i f split: sum.splits)
  from w1 w2 w3 w4 w5 T1 show ?thesis by blast
qed

subsection \<open>Failure threshold\<close>

lemma recordYouAgentFailure_state:
  "snd (recordYouAgentFailure thr s) =
     s\<lparr>youAgentFailureCount := youAgentFailureCount s + 1,
        youAgentDisabled := (youAgentDisabled s \<or> thr \<le> int (youAgentFailureCount s + 1))\<rparr>"
  by (simp add: recordYouAgentFailure_def Let_def)

lemma threshold_absorb:
  "(d \<or> (thr::int) \<le> 1 + int c \<or> thr \<le> 1 + (int c + int m)) = (d \<or> thr \<le> 1 + (int c + int m))"
  by auto

lemma breaker_run:
  assumes "ResetFailures \<notin> set evs"
  shows "foldl (breaker_step thr) s evs =
     s\<lparr>youAgentFailureCount := youAgentFailureCount s + count_list evs CallFailed,
        youAgentDisabled := (youAgentDisabled s \<or>
           (0 < count_list evs CallFailed \<and>
            thr \<le> int (youAgentFailureCount s + count_list evs CallFailed)))\<rparr>"
  using assms
proof (induction evs arbitrary: s)
  case Nil
  show ?case by simp
next
  case (Cons e evs)
  then have nr: "ResetFailures \<notin> set evs" and e: "e \<noteq> ResetFailures" by auto
  show ?case
  proof (cases e)
    case CallSucceeded
    then show ?thesis using Cons.IH [OF nr] by simp
  next
    case CallFailed
    have "foldl (breaker_step thr) s (e # evs) =
          foldl (breaker_step thr) (snd (recordYouAgentFailure thr s)) evs"
      using CallFailed by simp
    also have "\<dots> = s\<lparr>youAgentFailureCount := youAgentFailureCount s + count_list (e # evs) CallFailed,
        youAgentDisabled := (youAgentDisabled s \<or>
           (0 < count_list (e # evs) CallFailed \<and>
            thr \<le> int (youAgentFailureCount s + count_list (e # evs) CallFailed)))\<rparr>"
      unfolding Cons.IH [OF nr] recordYouAgentFailure_state using CallFailed
      by (cases "count_list evs CallFailed = 0") (auto simp: threshold_absorb)
    finally show ?thesis .
  next
    case ResetFailures
    with e show ?thesis by simp
  qed
qed

text \<open>
  Claim C9. Every recorded failure adds one to the single failure count and sets the
  disabled flag as soon as the count is at least the threshold, which is configurable
  and 3 by default; without a reset, the count is the number of failures so far and, for
  a positive threshold, the flag is set exactly when the count has reached the
  threshold. A successful call leaves count and flag as they are; only the reset
  operation clears them. The flag never blocks a call: \<open>callCustomAgent\<close> asks the
  upstream and answers the same whatever the flag is, and a failure only reports count,
  threshold and a suggestion.
\<close>

theorem failure_threshold_breaker:
  "youAgentFailureCount (snd (recordYouAgentFailure thr s)) = youAgentFailureCount s + 1
   \<and> youAgentDisabled (snd (recordYouAgentFailure thr s)) =
       (youAgentDisabled s \<or> thr \<le> int (youAgentFailureCount s + 1))
   \<and> fst (recordYouAgentFailure thr s) =
       (youAgentFailureCount (snd (recordYouAgentFailure thr s)),
        youAgentDisabled (snd (recordYouAgentFailure thr s)))
   \<and> (ResetFailures \<notin> set evs \<longrightarrow>
        youAgentFailureCount (foldl (breaker_step thr) initial_breaker evs) =
          count_list evs CallFailed \<and>
        youAgentDisabled (foldl (breaker_step thr) initial_breaker evs) =
          (0 < count_list evs CallFailed \<and> thr \<le> int (count_list evs CallFailed)))
   \<and> (ResetFailures \<notin> set evs \<and> 0 < thr \<longrightarrow>
        youAgentDisabled (foldl (breaker_step thr) initial_breaker evs) =
          (thr \<le> int (youAgentFailureCount (foldl (breaker_step thr) initial_breaker evs))))
   \<and> YOU_AGENT_FAILURE_THRESHOLD None = 3
   \<and> YOU_AGENT_FAILURE_THRESHOLD (Some 0) = 3
   \<and> (n \<noteq> 0 \<longrightarrow> YOU_AGENT_FAILURE_THRESHOLD (Some n) = n)
   \<and> breaker_step thr s CallSucceeded = s
   \<and> resetYouAgentFailures s = initial_breaker
   \<and> getYouAgentStatus thr s = (youAgentFailureCount s, thr, youAgentDisabled s)
   \<and> (getNextApiKey keys mode rnd rot = Inr (k, rot') \<and> upstream k = Inr result \<longrightarrow>
        callCustomAgent keys mode rnd thr upstream (rot, s) = Inr (Succeeded result, rot', s))
   \<and> (getNextApiKey keys mode rnd rot = Inr (k, rot') \<and> upstream k = Inl message \<longrightarrow>
        callCustomAgent keys mode rnd thr upstream (rot, s) =
          Inr (Failed message (youAgentFailureCount s + 1) thr
                 (failure_suggestion (youAgentFailureCount s + 1) thr),
               markKeyError keys mode k rot',
               snd (recordYouAgentFailure thr s)))
   \<and> map_sum id fst (callCustomAgent keys mode rnd thr upstream (rot, s\<lparr>youAgentDisabled := b\<rparr>)) =
       map_sum id fst (callCustomAgent keys mode rnd thr upstream (rot, s))"
proof -
  have c1: "youAgentFailureCount (snd (recordYouAgentFailure thr s)) = youAgentFailureCount s + 1"
    and c2: "youAgentDisabled (snd (recordYouAgentFailure thr s)) =
       (youAgentDisabled s \<or> thr \<le> int (youAgentFailureCount s + 1))"
    by (simp_all add: recordYouAgentFailure_state)
  have c3: "fst (recordYouAgentFailure thr s) =
       (youAgentFailureCount (snd (recordYouAgentFailure thr s)),
        youAgentDisabled (snd (recordYouAgentFailure thr s)))"
    by (simp add: recordYouAgentFailure_def Let_def)
  have c4: "ResetFailures \<notin> set evs \<longrightarrow>
        youAgentFailureCount (foldl (breaker_step thr) initial_breaker evs) =
          count_list evs CallFailed \<and>
        youAgentDisabled (foldl (breaker_step thr) initial_breaker evs) =
          (0 < count_list evs CallFailed \<and> thr \<le> int (count_list evs CallFailed))"
    by (simp add: breaker_run initial_breaker_def)
  have c5: "ResetFailures \<notin> set evs \<and> 0 < thr \<longrightarrow>
        youAgentDisabled (foldl (breaker_step thr) initial_breaker evs) =
          (thr \<le> int (youAgentFailureCount (foldl (breaker_step thr) initial_breaker evs)))"
    by (auto simp: breaker_run initial_breaker_def)
  have c6: "YOU_AGENT_FAILURE_THRESHOLD None = 3" "YOU_AGENT_FAILURE_THRESHOLD (Some 0) = 3"
    "n \<noteq> 0 \<longrightarrow> YOU_AGENT_FAILURE_THRESHOLD (Some n) = n"
    by (simp_all add: YOU_AGENT_FAILURE_THRESHOLD_def)
  have c7: "breaker_step thr s CallSucceeded = s" "resetYouAgentFailures s = initial_breaker"
    "getYouAgentStatus thr s = (youAgentFailureCount s, thr, youAgentDisabled s)"
    by (simp_all add: resetYouAgentFailures_def initial_breaker_def getYouAgentStatus_def)
  have c8: "getNextApiKey keys mode rnd rot = Inr (k, rot') \<and> upstream k = Inr result \<longrightarrow>
        callCustomAgent keys mode rnd thr upstream (rot, s) = Inr (Succeeded result, rot', s)"
    by (simp add: callCustomAgent_def)
  have c9: "getNextApiKey keys mode rnd rot = Inr (k, rot') \<and> upstream k = Inl message \<longrightarrow>
        callCustomAgent keys mode rnd thr upstream (rot, s) =
          Inr (Failed message (youAgentFailureCount s + 1) thr
                 (failure_suggestion (youAgentFailureCount s + 1) thr),
               markKeyError keys mode k rot',
               snd (recordYouAgentFailure thr s))"
    by (simp add: callCustomAgent_def Let_def recordYouAgentFailure_def)
  have c10: "map_sum id fst (callCustomAgent keys mode rnd thr upstream (rot, s\<lparr>youAgentDisabled := b\<rparr>)) =
       map_sum id fst (callCustomAgent keys mode rnd thr upstream (rot, s))"
    by (simp add: callCustomAgent_def Let_def recordYouAgentFailure_def
          split: sum.splits prod.splits)
  from c1 c2 c3 c4 c5 c6 c7 c8 c9 c10 show ?thesis by (intro conjI)
qed

theorem failure_threshold_breaker_witness:
  "youAgentFailureCount (snd (recordYouAgentFailure 3 initial_breaker)) = 1
   \<and> youAgentFailureCount
        (foldl (breaker_step 3) initial_breaker [CallFailed, CallSucceeded, CallFailed, CallFailed]) = 3
   \<and> youAgentDisabled
        (foldl (breaker_step 3) initial_breaker [CallFailed, CallSucceeded, CallFailed, CallFailed])
   \<and> YOU_AGENT_FAILURE_THRESHOLD (Some 5) = 5
   \<and> callCustomAgent [''A''] ''round-robin'' 0 3 (\<lambda>_. Inr ''ok'')
        (initial_rotator, initial_breaker\<lparr>youAgentDisabled := True\<rparr>) =
      Inr (Succeeded ''ok'',
           initial_rotator\<lparr>keyUsageCount := bump (keyUsageCount initial_rotator) (Some ''A'')\<rparr>,
           initial_breaker\<lparr>youAgentDisabled := True\<rparr>)
   \<and> map_sum id fst (callCustomAgent [''A''] ''round-robin'' 0 3 (\<lambda>_. Inl ''boom'')
        (initial_rotator, initial_breaker)) =
      Inr (Failed ''boom'' 1 3 (failure_suggestion 1 3))"
proof -
  have g: "getNextApiKey [''A''] ''round-robin'' 0 initial_rotator =
      Inr (Some ''A'',
           initial_rotator\<lparr>keyUsageCount := bump (keyUsageCount initial_rotator) (Some ''A'')\<rparr>)"
    by (simp add: getNextApiKey_def at_index_def)
  have nr: "ResetFailures \<notin> set [CallFailed, CallSucceeded, CallFailed, CallFailed]"
    by simp
  have cnt: "count_list [CallFailed, CallSucceeded, CallFailed, CallFailed] CallFailed = 3"
    by simp
  note T1 = failure_threshold_breaker [of 3 initial_breaker
      "[CallFailed, CallSucceeded, CallFailed, CallFailed]" 5 "[''A'']" "''round-robin''" 0
      initial_rotator "Some ''A''"
      "initial_rotator\<lparr>keyUsageCount := bump (keyUsageCount initial_rotator) (Some ''A'')\<rparr>"
      "\<lambda>_. Inr ''ok''" "''ok''" "''boom''" True]
  note T2 = failure_threshold_breaker [of 3 "initial_breaker\<lparr>youAgentDisabled := True\<rparr>"
      "[CallFailed, CallSucceeded, CallFailed, CallFailed]" 5 "[''A'']" "''round-robin''" 0
      initial_rotator "Some ''A''"
      "initial_rotator\<lparr>keyUsageCount := bump (keyUsageCount initial_rotator) (Some ''A'')\<rparr>"
      "\<lambda>_. Inr ''ok''" "''ok''" "''boom''" True]
  note T3 = failure_threshold_breaker [of 3 initial_breaker
      "[CallFailed, CallSucceeded, CallFailed, CallFailed]" 5 "[''A'']" "''round-robin''" 0
      initial_rotator "Some ''A''"
      "initial_rotator\<lparr>keyUsageCount := bump (keyUsageCount initial_rotator) (Some ''A'')\<rparr>"
      "\<lambda>_. Inl ''boom''" "''ok''" "''boom''" True]
  have w1: "youAgentFailureCount (snd (recordYouAgentFailure 3 initial_breaker)) = 1"
    using T1 [THEN conjunct1] by (simp add: initial_breaker_def)
  have w2: "youAgentFailureCount
        (foldl (breaker_step 3) initial_breaker [CallFailed, CallSucceeded, CallFailed, CallFailed]) = 3"
    and w3: "youAgentDisabled
        (foldl (breaker_step 3) initial_breaker [CallFailed, CallSucceeded, CallFailed, CallFailed])"
    using T1 nr cnt by simp_all
  have w4: "YOU_AGENT_FAILURE_THRESHOLD (Some 5) = 5"
    using T1 by simp
  have w5: "callCustomAgent [''A''] ''round-robin'' 0 3 (\<lambda>_. Inr ''ok'')
        (initial_rotator, initial_breaker\<lparr>youAgentDisabled := True\<rparr>) =
      Inr (Succeeded ''ok'',
           initial_rotator\<lparr>keyUsageCount := bump (keyUsageCount initial_rotator) (Some ''A'')\<rparr>,
           initial_breaker\<lparr>youAgentDisabled := True\<rparr>)"
    using T2 g by blast
  have w6: "map_sum id fst (callCustomAgent [''A''] ''round-robin'' 0 3 (\<lambda>_. Inl ''boom'')
        (initial_rotator, initial_breaker)) =
      Inr (Failed ''boom'' 1 3 (failure_suggestion 1 3))"
  proof -
    from T3 g have "callCustomAgent [''A''] ''round-robin'' 0 3 (\<lambda>_. Inl ''boom'')
        (initial_rotator, initial_breaker) =
          Inr (Failed ''boom'' (youAgentFailureCount initial_breaker + 1) 3
                 (failure_suggestion (youAgentFailureCount initial_breaker + 1) 3),
               markKeyError [''A''] ''round-robin'' (Some ''A'')
                 (initial_rotator\<lparr>keyUsageCount := bump (keyUsageCount initial_rotator) (Some ''A'')\<rparr>),
               snd (recordYouAgentFailure 3 initial_breaker))"
      by blast
    then show ?thesis by (simp add: initial_breaker_def)
  qed
  from w1 w2 w3 w4 w5 w6 show ?thesis by (intro conjI)
qed


subsection \<open>Turn assembly\<close>

lemma foldl_collect_message:
  "foldl collect_message (sp, h) msgs =
     ((case filter (\<lambda>m. role m = ''system'') msgs of [] \<Rightarrow> sp | ss \<Rightarrow> content (last ss)),
      h @ map render_turn (filter conversational msgs))"
proof (induction msgs arbitrary: sp h)
  case Nil
  show ?case by simp
next
  case (Cons m ms)
  have step: "collect_message (sp, h) m =
     (if role m = ''system'' then content m else sp,
      h @ (if conversational m then [render_turn m] else []))"
    by (simp add: collect_message_def conversational_def render_turn_def)
  have "foldl collect_message (sp, h) (m # ms) =
        foldl collect_message (collect_message (sp, h) m) ms"
    by simp
  also have "\<dots> =
     ((case filter (\<lambda>m. role m = ''system'') ms of
         [] \<Rightarrow> (if role m = ''system'' then content m else sp)
       | ss \<Rightarrow> content (last ss)),
      (h @ (if conversational m then [render_turn m] else [])) @
        map render_turn (filter conversational ms))"
    unfolding step by (rule Cons.IH)
  also have "\<dots> =
     ((case filter (\<lambda>m. role m = ''system'') (m # ms) of [] \<Rightarrow> sp | ss \<Rightarrow> content (last ss)),
      h @ map render_turn (filter conversational (m # ms)))"
    by (simp split: list.splits)
  finally show ?case .
qed

lemma strip_user_prefix_render:
  "conversational m \<Longrightarrow>
   strip_user_prefix (render_turn m) = (if role m = ''user'' then content m else render_turn m)"
  by (auto simp: strip_user_prefix_def render_turn_def conversational_def startsWith_def)

lemma buildConversationInput_assembled:
  "buildConversationInput msgs =
     assembled (\<lambda>m. if role m = ''user'' then content m else render_turn m) msgs"
proof -
  let ?turns = "filter conversational msgs"
  have f: "foldl collect_message ([], []) msgs =
     ((case filter (\<lambda>m. role m = ''system'') msgs of [] \<Rightarrow> [] | ss \<Rightarrow> content (last ss)),
      map render_turn ?turns)"
    using foldl_collect_message [of "[]" "[]" msgs] by simp
  have sys: "(if (case filter (\<lambda>m. role m = ''system'') msgs of [] \<Rightarrow> [] | ss \<Rightarrow> content (last ss)) \<noteq> []
              then ''[System Instructions]\<newline>'' @
                   (case filter (\<lambda>m. role m = ''system'') msgs of [] \<Rightarrow> [] | ss \<Rightarrow> content (last ss))
                   @ ''\<newline>\<newline>''
              else []) = system_block msgs"
    by (simp add: system_block_def split: list.splits)
  have lastc: "?turns \<noteq> [] \<Longrightarrow> conversational (last ?turns)"
    using last_in_set [of ?turns] by auto
  have l: "?turns \<noteq> [] \<Longrightarrow> strip_user_prefix (last (map render_turn ?turns)) =
        (if role (last ?turns) = ''user'' then content (last ?turns) else render_turn (last ?turns))"
    using lastc by (simp add: last_map strip_user_prefix_render)
  have one: "length ?turns = 1 \<Longrightarrow> map render_turn ?turns ! 0 = last (map render_turn ?turns)"
    by (cases ?turns) simp_all
  show ?thesis
  proof (cases "length ?turns > 1")
    case True
    then have ne: "?turns \<noteq> []" by auto
    show ?thesis
      unfolding buildConversationInput_def f assembled_def Let_def prod.case sys
      using True l [OF ne] by (simp add: map_butlast)
  next
    case False
    show ?thesis
    proof (cases "length ?turns = 1")
      case True
      then have ne: "?turns \<noteq> []" by auto
      show ?thesis
        unfolding buildConversationInput_def f assembled_def Let_def prod.case sys
        using True l [OF ne] one [OF True] by simp
    next
      case F2: False
      with False have "?turns = []" by (cases ?turns) auto
      then show ?thesis
        unfolding buildConversationInput_def f assembled_def Let_def prod.case sys
        by simp
    qed
  qed
qed

lemma mapOpenAIToYouParams_input_eq:
  "mapOpenAIToYouParams_input msgs = buildConversationInput msgs"
  by (simp add: mapOpenAIToYouParams_input_def buildConversationInput_def)

text \<open>
  Claim C6, as stated, fails when the final turn is an assistant turn: the code removes
  only a leading \<open>User: \<close>, so the current message keeps its \<open>Assistant: \<close> prefix, with
  several turns and with a single one.
\<close>

theorem turn_assembly_counterexample:
  "buildConversationInput
     [\<lparr>role = ''user'', content = ''hi''\<rparr>, \<lparr>role = ''assistant'', content = ''yo''\<rparr>]
   = ''[Conversation History]\<newline>User: hi\<newline>\<newline>[Current Message]\<newline>Assistant: yo''
   \<and> spec_buildConversationInput
     [\<lparr>role = ''user'', content = ''hi''\<rparr>, \<lparr>role = ''assistant'', content = ''yo''\<rparr>]
   = ''[Conversation History]\<newline>User: hi\<newline>\<newline>[Current Message]\<newline>yo''
   \<and> buildConversationInput
     [\<lparr>role = ''user'', content = ''hi''\<rparr>, \<lparr>role = ''assistant'', content = ''yo''\<rparr>]
   \<noteq> spec_buildConversationInput
     [\<lparr>role = ''user'', content = ''hi''\<rparr>, \<lparr>role = ''assistant'', content = ''yo''\<rparr>]
   \<and> buildConversationInput [\<lparr>role = ''assistant'', content = ''yo''\<rparr>] = ''Assistant: yo''
   \<and> spec_buildConversationInput [\<lparr>role = ''assistant'', content = ''yo''\<rparr>] = ''yo''"
  by (simp add: buildConversationInput_def spec_buildConversationInput_def assembled_def
        collect_message_def strip_user_prefix_def startsWith_def conversational_def
        render_turn_def system_block_def Let_def)

text \<open>
  Claim C6, amended. With more than one conversational turn the assembler emits the
  system block (if any), a \<open>[Conversation History]\<close> block with all turns but the last,
  each rendered as role label, colon, content and joined by blank lines, then a
  \<open>[Current Message]\<close> block with the final turn: its content alone when it is a user
  turn, and \<open>Assistant: \<close> followed by its content when it is an assistant turn. With
  exactly one turn it emits that turn by the same rule, without history block and
  without label; with none, only the system block. Whenever the final turn is a user
  turn this is what the claim says. \<open>mapOpenAIToYouParams\<close> builds the same string.
\<close>

theorem turn_assembly_amended:
  "(let turns = filter conversational msgs;
        current = (\<lambda>m. if role m = ''user'' then content m else ''Assistant: '' @ content m)
    in (length turns > 1 \<longrightarrow>
          buildConversationInput msgs =
            system_block msgs @ ''[Conversation History]\<newline>'' @
            join ''\<newline>\<newline>'' (map render_turn (butlast turns)) @ ''\<newline>\<newline>'' @
            ''[Current Message]\<newline>'' @ current (last turns))
     \<and> (length turns = 1 \<longrightarrow>
          buildConversationInput msgs = system_block msgs @ current (last turns))
     \<and> (turns = [] \<longrightarrow> buildConversationInput msgs = system_block msgs)
     \<and> (turns = [] \<or> role (last turns) = ''user'' \<longrightarrow>
          buildConversationInput msgs = spec_buildConversationInput msgs))
   \<and> mapOpenAIToYouParams_input msgs = buildConversationInput msgs"
proof -
  let ?turns = "filter conversational msgs"
  let ?cur = "\<lambda>m. if role m = ''user'' then content m else render_turn m"
  have a: "buildConversationInput msgs = assembled ?cur msgs"
    by (rule buildConversationInput_assembled)
  have r: "role m \<noteq> ''user'' \<Longrightarrow> render_turn m = ''Assistant: '' @ content m" for m :: "'a chat_message_scheme"
    by (simp add: render_turn_def)
  have c1: "length ?turns > 1 \<longrightarrow>
          buildConversationInput msgs =
            system_block msgs @ ''[Conversation History]\<newline>'' @
            join ''\<newline>\<newline>'' (map render_turn (butlast ?turns)) @ ''\<newline>\<newline>'' @
            ''[Current Message]\<newline>'' @
            (if role (last ?turns) = ''user'' then content (last ?turns)
             else ''Assistant: '' @ content (last ?turns))"
    unfolding a by (simp add: assembled_def Let_def r)
  have c2: "length ?turns = 1 \<longrightarrow>
          buildConversationInput msgs = system_block msgs @
            (if role (last ?turns) = ''user'' then content (last ?turns)
             else ''Assistant: '' @ content (last ?turns))"
    unfolding a by (simp add: assembled_def Let_def r)
  have c3: "?turns = [] \<longrightarrow> buildConversationInput msgs = system_block msgs"
    unfolding a by (simp add: assembled_def Let_def)
  have c4: "?turns = [] \<or> role (last ?turns) = ''user'' \<longrightarrow>
          buildConversationInput msgs = spec_buildConversationInput msgs"
    unfolding a spec_buildConversationInput_def by (auto simp: assembled_def Let_def)
  have c5: "mapOpenAIToYouParams_input msgs = buildConversationInput msgs"
    by (rule mapOpenAIToYouParams_input_eq)
  show ?thesis
    unfolding Let_def using c1 c2 c3 c4 c5 by (intro conjI)
qed

theorem turn_assembly_amended_witness:
  "buildConversationInput
     [\<lparr>role = ''system'', content = ''Be brief''\<rparr>, \<lparr>role = ''user'', content = ''hi''\<rparr>,
      \<lparr>role = ''assistant'', content = ''yo''\<rparr>, \<lparr>role = ''user'', content = ''more''\<rparr>]
   = ''[System Instructions]\<newline>Be brief\<newline>\<newline>[Conversation History]\<newline>User: hi\<newline>\<newline>Assistant: yo\<newline>\<newline>[Current Message]\<newline>more''
   \<and> buildConversationInput
     [\<lparr>role = ''system'', content = ''Be brief''\<rparr>, \<lparr>role = ''user'', content = ''hi''\<rparr>,
      \<lparr>role = ''assistant'', content = ''yo''\<rparr>, \<lparr>role = ''user'', content = ''more''\<rparr>]
   = spec_buildConversationInput
     [\<lparr>role = ''system'', content = ''Be brief''\<rparr>, \<lparr>role = ''user'', content = ''hi''\<rparr>,
      \<lparr>role = ''assistant'', content = ''yo''\<rparr>, \<lparr>role = ''user'', content = ''more''\<rparr>]
   \<and> buildConversationInput [\<lparr>role = ''user'', content = ''hi''\<rparr>] = ''hi''
   \<and> buildConversationInput [\<lparr>role = ''tool'', content = ''x''\<rparr>] = []"
proof -
  let ?m4 = "[\<lparr>role = ''system'', content = ''Be brief''\<rparr>, \<lparr>role = ''user'', content = ''hi''\<rparr>,
      \<lparr>role = ''assistant'', content = ''yo''\<rparr>, \<lparr>role = ''user'', content = ''more''\<rparr>]"
  have t4: "filter conversational ?m4 =
      [\<lparr>role = ''user'', content = ''hi''\<rparr>, \<lparr>role = ''assistant'', content = ''yo''\<rparr>,
       \<lparr>role = ''user'', content = ''more''\<rparr>]"
    by (simp add: conversational_def)
  have t1: "filter conversational [\<lparr>role = ''user'', content = ''hi''\<rparr>] =
      [\<lparr>role = ''user'', content = ''hi''\<rparr>]"
    by (simp add: conversational_def)
  have t0: "filter conversational [\<lparr>role = ''tool'', content = ''x''\<rparr>] = []"
    by (simp add: conversational_def)
  have w1: "buildConversationInput ?m4
   = ''[System Instructions]\<newline>Be brief\<newline>\<newline>[Conversation History]\<newline>User: hi\<newline>\<newline>Assistant: yo\<newline>\<newline>[Current Message]\<newline>more''"
    using turn_assembly_amended [of ?m4, unfolded Let_def t4, THEN conjunct1, THEN conjunct1]
    by (simp add: system_block_def render_turn_def)
  have w2: "buildConversationInput ?m4 = spec_buildConversationInput ?m4"
    using turn_assembly_amended [of ?m4, unfolded Let_def t4, THEN conjunct1, THEN conjunct2,
            THEN conjunct2, THEN conjunct2]
    by simp
  have w3: "buildConversationInput [\<lparr>role = ''user'', content = ''hi''\<rparr>] = ''hi''"
    using turn_assembly_amended [of "[\<lparr>role = ''user'', content = ''hi''\<rparr>]",
            unfolded Let_def t1, THEN conjunct1, THEN conjunct2, THEN conjunct1]
    by (simp add: system_block_def)
  have w4: "buildConversationInput [\<lparr>role = ''tool'', content = ''x''\<rparr>] = []"
    using turn_assembly_amended [of "[\<lparr>role = ''tool'', content = ''x''\<rparr>]",
            unfolded Let_def t0, THEN conjunct1, THEN conjunct2, THEN conjunct2, THEN conjunct1]
    by (simp add: system_block_def)
  from w1 w2 w3 w4 show ?thesis by (intro conjI)
qed


subsection \<open>Turn eviction\<close>

lemma slice_from_negative:
  "k > 0 \<Longrightarrow> slice_from (- int k) xs = drop (length xs - k) xs"
  by (auto simp: slice_from_def max_def nat_diff_distrib intro: arg_cong [where f = "\<lambda>n. drop n xs"])

lemma evict_oldest_cases:
  "evict_oldest msgs =
     (if length msgs \<ge> 100 then
        (case List.find (\<lambda>m. role m = ''system'') msgs of
           Some systemMsg \<Rightarrow> systemMsg # drop (length msgs - 98) msgs
         | None \<Rightarrow> drop (length msgs - 99) msgs)
      else msgs)"
proof -
  have a: "slice_from (- int MAX_MESSAGES_PER_CONVERSATION + 2) msgs = drop (length msgs - 98) msgs"
    using slice_from_negative [of 98 msgs] by (simp add: MAX_MESSAGES_PER_CONVERSATION_def)
  have b: "slice_from (- int MAX_MESSAGES_PER_CONVERSATION + 1) msgs = drop (length msgs - 99) msgs"
    using slice_from_negative [of 99 msgs] by (simp add: MAX_MESSAGES_PER_CONVERSATION_def)
  show ?thesis
    unfolding evict_oldest_def a b by (simp add: MAX_MESSAGES_PER_CONVERSATION_def)
qed

lemma find_system_hd:
  "msgs \<noteq> [] \<Longrightarrow> role (hd msgs) = ''system'' \<Longrightarrow>
   List.find (\<lambda>m. role m = ''system'') msgs = Some (hd msgs)"
  by (cases msgs) simp_all

lemma length_evict_oldest: "length (evict_oldest msgs) < 100"
  by (auto simp: evict_oldest_cases split: option.splits)

lemma hd_evict_oldest:
  "msgs \<noteq> [] \<Longrightarrow> role (hd msgs) = ''system'' \<Longrightarrow> hd (evict_oldest msgs @ [t]) = hd msgs"
  by (cases msgs) (auto simp: evict_oldest_cases)

lemma filter_not_taken:
  "distinct (map f xs) \<Longrightarrow> filter (\<lambda>x. f x \<notin> set (take d (map f xs))) xs = drop d xs"
proof (induction xs arbitrary: d)
  case Nil
  show ?case by simp
next
  case (Cons x xs)
  show ?case
  proof (cases d)
    case 0
    then show ?thesis by simp
  next
    case (Suc n)
    have notin: "f x \<notin> f ` set xs" using Cons.prems by simp
    have "filter (\<lambda>y. f y \<notin> set (take d (map f (x # xs)))) (x # xs) =
          filter (\<lambda>y. f y \<noteq> f x \<and> f y \<notin> set (take n (map f xs))) xs"
      using Suc by simp
    also have "\<dots> = filter (\<lambda>y. f y \<notin> set (take n (map f xs))) xs"
    proof (rule filter_cong [OF refl])
      fix y assume "y \<in> set xs"
      then have "f y \<in> f ` set xs" by (rule imageI)
      with notin have "f y \<noteq> f x" by metis
      then show "(f y \<noteq> f x \<and> f y \<notin> set (take n (map f xs))) =
                 (f y \<notin> set (take n (map f xs)))"
        by simp
    qed
    also have "\<dots> = drop n xs"
      using Cons.IH [of n] Cons.prems by simp
    finally show ?thesis using Suc by simp
  qed
qed

lemma evict_oldest_suffix:
  "length msgs \<ge> 100 \<Longrightarrow>
   evict_oldest msgs =
     (case List.find (\<lambda>m. role m = ''system'') msgs of
        Some systemMsg \<Rightarrow> [systemMsg] | None \<Rightarrow> []) @
     drop (length msgs -
           (case List.find (\<lambda>m. role m = ''system'') msgs of Some _ \<Rightarrow> 98 | None \<Rightarrow> 99)) msgs"
  by (simp add: evict_oldest_cases split: option.splits)

lemma addMessageToConversation_memory_messages:
  "messages (fst (addMessageToConversation_memory uuid now nc st cid r c)) =
     evict_oldest (case st cid of Some e \<Rightarrow> messages e | None \<Rightarrow> []) @
     [\<lparr>role = r, content = c, timestamp = now\<rparr>]"
  by (simp add: addMessageToConversation_memory_def createConversation_memory_def Let_def
        evict_oldest_cases split: option.splits)

lemma addMessageToConversation_memory_stored:
  "st cid = Some e \<Longrightarrow>
   snd (addMessageToConversation_memory uuid now nc st cid r c) cid =
     Some (fst (addMessageToConversation_memory uuid now nc st cid r c))"
  by (simp add: addMessageToConversation_memory_def Let_def)

lemma mcp_addMessageToConversation_messages:
  "messages (fst (mcp_addMessageToConversation uuid now nc st cid r c)) =
     evict_oldest (case (if cid = [] then None else st cid) of
                     Some e \<Rightarrow> messages e | None \<Rightarrow> []) @
     [\<lparr>role = r, content = c, timestamp = now\<rparr>]"
  by (simp add: mcp_addMessageToConversation_def Let_def evict_oldest_cases
        split: option.splits)

lemma rows_of_delete_rows:
  "rows_of (delete_rows ids db) cid = filter (\<lambda>row. row_id row \<notin> set ids) (rows_of db cid)"
  by (auto simp: rows_of_def delete_rows_def intro: filter_cong)

lemma rows_of_create:
  "rows_of (createConversation_sqlite uuid nc cid m db) cid' = rows_of db cid'"
  by (simp add: rows_of_def createConversation_sqlite_def Let_def)

lemma next_row_id_create:
  "next_row_id (createConversation_sqlite uuid nc cid m db) = next_row_id db"
  by (simp add: createConversation_sqlite_def Let_def)

lemma next_row_id_delete: "next_row_id (delete_rows ids db) = next_row_id db"
  by (simp add: delete_rows_def)

lemma rows_of_added:
  "rows_of (addMessageToConversation_sqlite uuid now nc db cid r c) cid =
     kept_rows (rows_of db cid) @
     [\<lparr>role = r, content = c, timestamp = now, row_id = next_row_id db, conversation_id = cid\<rparr>]"
proof -
  let ?db1 = "if conversation_rows db cid = None
              then createConversation_sqlite uuid nc cid (JObj []) db else db"
  have m: "rows_of ?db1 cid = rows_of db cid"
    by (simp add: rows_of_create)
  have n: "next_row_id ?db1 = next_row_id db"
    by (simp add: next_row_id_create)
  have add: "rows_of (d\<lparr>message_rows := message_rows d @ [x], next_row_id := k\<rparr>) cid =
             rows_of d cid @ (if conversation_id x = cid then [x] else [])" for d x k
    by (simp add: rows_of_def)
  have upd: "rows_of (d\<lparr>conversation_rows := cr\<rparr>) cid = rows_of d cid" for d cr
    by (simp add: rows_of_def)
  have dc: "100 \<le> k \<Longrightarrow> Suc (Suc (k - 100)) = k - 98" for k :: nat
    by simp
  show ?thesis
    unfolding addMessageToConversation_sqlite_def Let_def m upd add
    by (simp add: kept_rows_def rows_of_delete_rows rows_of_create next_row_id_create
          next_row_id_delete dc MAX_MESSAGES_PER_CONVERSATION_def split: option.splits)
qed

lemma find_in_set: "List.find P xs = Some x \<Longrightarrow> x \<in> set xs \<and> P x"
  by (induction xs) (auto split: if_splits)

lemma distinct_filter_eq_singleton:
  "distinct (map f xs) \<Longrightarrow> x \<in> set xs \<Longrightarrow> filter (\<lambda>y. f y = f x) xs = [x]"
proof (induction xs)
  case Nil
  then show ?case by simp
next
  case (Cons a xs)
  show ?case
  proof (cases "a = x")
    case True
    have "f y \<noteq> f x" if "y \<in> set xs" for y
      using Cons.prems(1) True that by (metis distinct.simps(2) imageI list.simps(9) set_map)
    then have "filter (\<lambda>y. f y = f x) xs = []"
      by (simp add: filter_empty_conv)
    with True show ?thesis by simp
  next
    case False
    with Cons.prems have x: "x \<in> set xs" by simp
    have "f a \<noteq> f x"
      using Cons.prems(1) x by (metis distinct.simps(2) imageI list.simps(9) set_map)
    with Cons.IH x Cons.prems(1) show ?thesis by simp
  qed
qed

lemma kept_rows_system:
  assumes d: "distinct (map row_id mine)" and l: "length mine \<ge> 100"
    and f: "List.find (\<lambda>row. role row = ''system'') mine = Some s"
  shows "filter (\<lambda>row. row_id row \<noteq> row_id s) (kept_rows mine) =
           drop (length mine - 98) (filter (\<lambda>row. row_id row \<noteq> row_id s) mine)"
    and "filter (\<lambda>row. row_id row = row_id s) (kept_rows mine) = [s]"
    and "length (kept_rows mine) = 98"
proof -
  let ?others = "filter (\<lambda>row. row_id row \<noteq> row_id s) mine"
  let ?S = "set (take (length mine - 98) (map row_id ?others))"
  have k: "kept_rows mine = filter (\<lambda>row. row_id row \<notin> ?S) mine"
    using l f by (simp add: kept_rows_def)
  have s: "s \<in> set mine" using find_in_set [OF f] by simp
  have dO: "distinct (map row_id ?others)"
    using d by (simp add: distinct_map_filter)
  have a: "filter (\<lambda>row. row_id row \<noteq> row_id s) (kept_rows mine) =
           filter (\<lambda>row. row_id row \<notin> ?S) ?others"
    unfolding k by (simp add: conj_commute)
  show 1: "filter (\<lambda>row. row_id row \<noteq> row_id s) (kept_rows mine) = drop (length mine - 98) ?others"
    unfolding a by (rule filter_not_taken [OF dO])
  have notS: "row_id s \<notin> ?S"
  proof
    assume "row_id s \<in> ?S"
    then have "row_id s \<in> set (map row_id ?others)" by (rule in_set_takeD)
    then show False by auto
  qed
  have "filter (\<lambda>row. row_id row = row_id s) (kept_rows mine) =
        filter (\<lambda>row. row_id row = row_id s) mine"
    unfolding k using notS by (auto intro: filter_cong)
  then show 2: "filter (\<lambda>row. row_id row = row_id s) (kept_rows mine) = [s]"
    using distinct_filter_eq_singleton [OF d s] by simp
  have lo: "length ?others = length mine - 1"
  proof -
    have "length mine = length (filter (\<lambda>row. row_id row = row_id s) mine) + length ?others"
      using sum_length_filter_compl [of "\<lambda>row. row_id row = row_id s" mine] by simp
    then show ?thesis using distinct_filter_eq_singleton [OF d s] by simp
  qed
  have "length (kept_rows mine) =
        length (filter (\<lambda>row. row_id row = row_id s) (kept_rows mine)) +
        length (filter (\<lambda>row. row_id row \<noteq> row_id s) (kept_rows mine))"
    using sum_length_filter_compl [of "\<lambda>row. row_id row = row_id s" "kept_rows mine"] by simp
  then show "length (kept_rows mine) = 98"
    unfolding 1 2 using lo l by simp
qed

lemma kept_rows_no_system:
  assumes d: "distinct (map row_id mine)" and l: "length mine \<ge> 100"
    and f: "List.find (\<lambda>row. role row = ''system'') mine = None"
  shows "kept_rows mine = drop (length mine - 98) mine"
  using l f filter_not_taken [OF d, of "length mine - 98"] by (simp add: kept_rows_def)

lemma kept_rows_leading_system:
  assumes d: "distinct (map row_id mine)" and l: "length mine \<ge> 100"
    and h: "role (hd mine) = ''system''"
  shows "kept_rows mine = hd mine # drop (length mine - 98) (tl mine)"
proof -
  from l obtain s rest where m: "mine = s # rest" by (cases mine) auto
  with h have f: "List.find (\<lambda>row. role row = ''system'') mine = Some s" by simp
  have nr: "row_id y \<noteq> row_id s" if "y \<in> set rest" for y
    using d m that by (metis distinct.simps(2) imageI list.simps(9) set_map)
  then have o: "filter (\<lambda>row. row_id row \<noteq> row_id s) mine = rest"
    unfolding m by (simp add: filter_id_conv)
  have dr: "distinct (map row_id rest)" using d m by simp
  have ns: "row_id s \<notin> set (take (length mine - 98) (map row_id rest))"
  proof
    assume "row_id s \<in> set (take (length mine - 98) (map row_id rest))"
    then have "row_id s \<in> set (map row_id rest)" by (rule in_set_takeD)
    then obtain y where "y \<in> set rest" "row_id y = row_id s" by auto
    with nr [of y] show False by simp
  qed
  have "kept_rows mine =
        filter (\<lambda>row. row_id row \<notin> set (take (length mine - 98) (map row_id rest))) mine"
    using l f o by (simp add: kept_rows_def)
  also have "\<dots> = s # filter (\<lambda>row. row_id row \<notin> set (take (length mine - 98) (map row_id rest))) rest"
    unfolding m using ns m by simp
  also have "\<dots> = s # drop (length mine - 98) rest"
    using filter_not_taken [OF dr, of "length mine - 98"] by simp
  finally show ?thesis using m by simp
qed

lemma evict_oldest_push:
  fixes old :: "turn list"
  shows "length (evict_oldest old @ [t]) \<le> MAX_MESSAGES_PER_CONVERSATION"
    and "old \<noteq> [] \<and> role (hd old) = ''system'' \<longrightarrow> hd (evict_oldest old @ [t]) = hd old"
    and "length old < 100 \<longrightarrow> evict_oldest old @ [t] = old @ [t]"
    and "length old \<ge> 100 \<longrightarrow>
          evict_oldest old @ [t] =
            (case List.find (\<lambda>m. role m = ''system'') old of Some s \<Rightarrow> [s] | None \<Rightarrow> []) @
            drop (length old -
                  (case List.find (\<lambda>m. role m = ''system'') old of Some _ \<Rightarrow> 98 | None \<Rightarrow> 99)) old @
            [t]"
proof -
  show "length (evict_oldest old @ [t]) \<le> MAX_MESSAGES_PER_CONVERSATION"
    using length_evict_oldest [of old] by (simp add: MAX_MESSAGES_PER_CONVERSATION_def)
  show "old \<noteq> [] \<and> role (hd old) = ''system'' \<longrightarrow> hd (evict_oldest old @ [t]) = hd old"
    using hd_evict_oldest [of old t] by blast
  show "length old < 100 \<longrightarrow> evict_oldest old @ [t] = old @ [t]"
    by (simp add: evict_oldest_cases)
  show "length old \<ge> 100 \<longrightarrow>
          evict_oldest old @ [t] =
            (case List.find (\<lambda>m. role m = ''system'') old of Some s \<Rightarrow> [s] | None \<Rightarrow> []) @
            drop (length old -
                  (case List.find (\<lambda>m. role m = ''system'') old of Some _ \<Rightarrow> 98 | None \<Rightarrow> 99)) old @
            [t]"
    using evict_oldest_suffix [of old] by simp
qed

lemma kept_rows_push:
  fixes old :: "message_row list"
  assumes d: "distinct (map row_id old)"
  shows "length (kept_rows old @ [x]) \<le> MAX_MESSAGES_PER_CONVERSATION"
    and "old \<noteq> [] \<and> role (hd old) = ''system'' \<longrightarrow> hd (kept_rows old @ [x]) = hd old"
    and "length old < 100 \<longrightarrow> kept_rows old @ [x] = old @ [x]"
    and "length old \<ge> 100 \<and> List.find (\<lambda>row. role row = ''system'') old = None \<longrightarrow>
          kept_rows old @ [x] = drop (length old - 98) old @ [x]"
    and "length old \<ge> 100 \<and> role (hd old) = ''system'' \<longrightarrow>
          kept_rows old @ [x] = hd old # drop (length old - 98) (tl old) @ [x]"
    and "length old \<ge> 100 \<and> List.find (\<lambda>row. role row = ''system'') old = Some s \<longrightarrow>
          filter (\<lambda>row. row_id row \<noteq> row_id s) (kept_rows old) =
            drop (length old - 98) (filter (\<lambda>row. row_id row \<noteq> row_id s) old) \<and>
          filter (\<lambda>row. row_id row = row_id s) (kept_rows old) = [s]"
proof -
  have len: "length (kept_rows old) \<le> 99"
  proof (cases "length old \<ge> 100")
    case False
    then show ?thesis by (simp add: kept_rows_def)
  next
    case True
    show ?thesis
    proof (cases "List.find (\<lambda>row. role row = ''system'') old")
      case None
      with True show ?thesis using kept_rows_no_system [OF d True None] by simp
    next
      case (Some s)
      then show ?thesis using kept_rows_system(3) [OF d True Some] by simp
    qed
  qed
  then show "length (kept_rows old @ [x]) \<le> MAX_MESSAGES_PER_CONVERSATION"
    by (simp add: MAX_MESSAGES_PER_CONVERSATION_def)
  show "old \<noteq> [] \<and> role (hd old) = ''system'' \<longrightarrow> hd (kept_rows old @ [x]) = hd old"
  proof (cases "length old \<ge> 100")
    case False
    then show ?thesis by (simp add: kept_rows_def)
  next
    case True
    show ?thesis using kept_rows_leading_system [OF d True] by simp
  qed
  show "length old < 100 \<longrightarrow> kept_rows old @ [x] = old @ [x]"
    by (simp add: kept_rows_def)
  show "length old \<ge> 100 \<and> List.find (\<lambda>row. role row = ''system'') old = None \<longrightarrow>
          kept_rows old @ [x] = drop (length old - 98) old @ [x]"
    using kept_rows_no_system [OF d] by simp
  show "length old \<ge> 100 \<and> role (hd old) = ''system'' \<longrightarrow>
          kept_rows old @ [x] = hd old # drop (length old - 98) (tl old) @ [x]"
    using kept_rows_leading_system [OF d] by simp
  show "length old \<ge> 100 \<and> List.find (\<lambda>row. role row = ''system'') old = Some s \<longrightarrow>
          filter (\<lambda>row. row_id row \<noteq> row_id s) (kept_rows old) =
            drop (length old - 98) (filter (\<lambda>row. row_id row \<noteq> row_id s) old) \<and>
          filter (\<lambda>row. row_id row = row_id s) (kept_rows old) = [s]"
    using kept_rows_system(1,2) [OF d] by blast
qed

text \<open>
  Claim C5. After one append, in the memory backend (both copies) and in the SQLite
  backend, a conversation holds at most \<open>MAX_MESSAGES_PER_CONVERSATION\<close> turns (100, a
  constant of the code), whatever it held before; a leading system turn is still the
  leading turn; and what is evicted is a prefix of the sequence: the result is the
  retained system turn, if any, followed by a suffix of the old sequence and the new
  turn. For the SQLite backend the rowids of the conversation are distinct, as its
  primary key guarantees.
\<close>

theorem turn_count_bound:
  "(let old = (case st cid of Some e \<Rightarrow> messages e | None \<Rightarrow> []);
        t = \<lparr>role = r, content = c, timestamp = now\<rparr>;
        new = messages (fst (addMessageToConversation_memory uuid now nc st cid r c))
    in new = evict_oldest old @ [t]
     \<and> length new \<le> MAX_MESSAGES_PER_CONVERSATION
     \<and> (old \<noteq> [] \<and> role (hd old) = ''system'' \<longrightarrow> hd new = hd old)
     \<and> (length old < 100 \<longrightarrow> new = old @ [t])
     \<and> (length old \<ge> 100 \<longrightarrow>
          new = (case List.find (\<lambda>m. role m = ''system'') old of Some s \<Rightarrow> [s] | None \<Rightarrow> []) @
                drop (length old -
                      (case List.find (\<lambda>m. role m = ''system'') old of
                         Some _ \<Rightarrow> 98 | None \<Rightarrow> 99)) old @ [t]))
   \<and> (let old = (case (if cid = [] then None else st cid) of
                    Some e \<Rightarrow> messages e | None \<Rightarrow> []);
          t = \<lparr>role = r, content = c, timestamp = now\<rparr>;
          new = messages (fst (mcp_addMessageToConversation uuid now nc st cid r c))
      in new = evict_oldest old @ [t]
       \<and> length new \<le> MAX_MESSAGES_PER_CONVERSATION
       \<and> (old \<noteq> [] \<and> role (hd old) = ''system'' \<longrightarrow> hd new = hd old))
   \<and> (distinct (map row_id (rows_of db cid)) \<longrightarrow>
       (let old = rows_of db cid;
            x = \<lparr>role = r, content = c, timestamp = now,
                 row_id = next_row_id db, conversation_id = cid\<rparr>;
            new = rows_of (addMessageToConversation_sqlite uuid now nc db cid r c) cid
        in length new \<le> MAX_MESSAGES_PER_CONVERSATION
         \<and> (old \<noteq> [] \<and> role (hd old) = ''system'' \<longrightarrow> hd new = hd old)
         \<and> (length old < 100 \<longrightarrow> new = old @ [x])
         \<and> (length old \<ge> 100 \<and> List.find (\<lambda>row. role row = ''system'') old = None \<longrightarrow>
              new = drop (length old - 98) old @ [x])
         \<and> (length old \<ge> 100 \<and> role (hd old) = ''system'' \<longrightarrow>
              new = hd old # drop (length old - 98) (tl old) @ [x])
         \<and> (length old \<ge> 100 \<and> List.find (\<lambda>row. role row = ''system'') old = Some s \<longrightarrow>
              filter (\<lambda>row. row_id row \<noteq> row_id s) (butlast new) =
                drop (length old - 98) (filter (\<lambda>row. row_id row \<noteq> row_id s) old) \<and>
              filter (\<lambda>row. row_id row = row_id s) (butlast new) = [s])))"
proof -
  have m: "messages (fst (addMessageToConversation_memory uuid now nc st cid r c)) =
     evict_oldest (case st cid of Some e \<Rightarrow> messages e | None \<Rightarrow> []) @
     [\<lparr>role = r, content = c, timestamp = now\<rparr>]"
    by (rule addMessageToConversation_memory_messages)
  have p: "messages (fst (mcp_addMessageToConversation uuid now nc st cid r c)) =
     evict_oldest (case (if cid = [] then None else st cid) of
                     Some e \<Rightarrow> messages e | None \<Rightarrow> []) @
     [\<lparr>role = r, content = c, timestamp = now\<rparr>]"
    by (rule mcp_addMessageToConversation_messages)
  have q: "rows_of (addMessageToConversation_sqlite uuid now nc db cid r c) cid =
     kept_rows (rows_of db cid) @
     [\<lparr>role = r, content = c, timestamp = now, row_id = next_row_id db, conversation_id = cid\<rparr>]"
    by (rule rows_of_added)
  let ?t = "\<lparr>role = r, content = c, timestamp = now\<rparr>"
  let ?x = "\<lparr>role = r, content = c, timestamp = now, row_id = next_row_id db, conversation_id = cid\<rparr>"
  note E = evict_oldest_push [where old = "case st cid of Some e \<Rightarrow> messages e | None \<Rightarrow> []"
             and t = ?t]
  have mem: "messages (fst (addMessageToConversation_memory uuid now nc st cid r c)) =
       evict_oldest (case st cid of Some e \<Rightarrow> messages e | None \<Rightarrow> []) @ [?t]
     \<and> length (evict_oldest (case st cid of Some e \<Rightarrow> messages e | None \<Rightarrow> []) @ [?t])
         \<le> MAX_MESSAGES_PER_CONVERSATION
     \<and> ((case st cid of Some e \<Rightarrow> messages e | None \<Rightarrow> []) \<noteq> [] \<and>
        role (hd (case st cid of Some e \<Rightarrow> messages e | None \<Rightarrow> [])) = ''system'' \<longrightarrow>
        hd (evict_oldest (case st cid of Some e \<Rightarrow> messages e | None \<Rightarrow> []) @ [?t]) =
        hd (case st cid of Some e \<Rightarrow> messages e | None \<Rightarrow> []))
     \<and> (length (case st cid of Some e \<Rightarrow> messages e | None \<Rightarrow> []) < 100 \<longrightarrow>
          evict_oldest (case st cid of Some e \<Rightarrow> messages e | None \<Rightarrow> []) @ [?t] =
          (case st cid of Some e \<Rightarrow> messages e | None \<Rightarrow> []) @ [?t])
     \<and> (length (case st cid of Some e \<Rightarrow> messages e | None \<Rightarrow> []) \<ge> 100 \<longrightarrow>
          evict_oldest (case st cid of Some e \<Rightarrow> messages e | None \<Rightarrow> []) @ [?t] =
            (case List.find (\<lambda>m. role m = ''system'')
                    (case st cid of Some e \<Rightarrow> messages e | None \<Rightarrow> []) of
               Some s \<Rightarrow> [s] | None \<Rightarrow> []) @
            drop (length (case st cid of Some e \<Rightarrow> messages e | None \<Rightarrow> []) -
                  (case List.find (\<lambda>m. role m = ''system'')
                          (case st cid of Some e \<Rightarrow> messages e | None \<Rightarrow> []) of
                     Some _ \<Rightarrow> 98 | None \<Rightarrow> 99))
              (case st cid of Some e \<Rightarrow> messages e | None \<Rightarrow> []) @ [?t])"
    using m E by (intro conjI)
  note F = evict_oldest_push(1,2)
             [where old = "case (if cid = [] then None else st cid) of
                             Some e \<Rightarrow> messages e | None \<Rightarrow> []" and t = ?t]
  have mcp: "messages (fst (mcp_addMessageToConversation uuid now nc st cid r c)) =
       evict_oldest (case (if cid = [] then None else st cid) of
                       Some e \<Rightarrow> messages e | None \<Rightarrow> []) @ [?t]
     \<and> length (evict_oldest (case (if cid = [] then None else st cid) of
                       Some e \<Rightarrow> messages e | None \<Rightarrow> []) @ [?t])
         \<le> MAX_MESSAGES_PER_CONVERSATION
     \<and> ((case (if cid = [] then None else st cid) of
                       Some e \<Rightarrow> messages e | None \<Rightarrow> []) \<noteq> [] \<and>
        role (hd (case (if cid = [] then None else st cid) of
                       Some e \<Rightarrow> messages e | None \<Rightarrow> [])) = ''system'' \<longrightarrow>
        hd (evict_oldest (case (if cid = [] then None else st cid) of
                       Some e \<Rightarrow> messages e | None \<Rightarrow> []) @ [?t]) =
        hd (case (if cid = [] then None else st cid) of
                       Some e \<Rightarrow> messages e | None \<Rightarrow> []))"
    using p F by (intro conjI)
  have sq: "distinct (map row_id (rows_of db cid)) \<longrightarrow>
         length (kept_rows (rows_of db cid) @ [?x]) \<le> MAX_MESSAGES_PER_CONVERSATION
         \<and> (rows_of db cid \<noteq> [] \<and> role (hd (rows_of db cid)) = ''system'' \<longrightarrow>
              hd (kept_rows (rows_of db cid) @ [?x]) = hd (rows_of db cid))
         \<and> (length (rows_of db cid) < 100 \<longrightarrow>
              kept_rows (rows_of db cid) @ [?x] = rows_of db cid @ [?x])
         \<and> (length (rows_of db cid) \<ge> 100 \<and>
              List.find (\<lambda>row. role row = ''system'') (rows_of db cid) = None \<longrightarrow>
              kept_rows (rows_of db cid) @ [?x] =
                drop (length (rows_of db cid) - 98) (rows_of db cid) @ [?x])
         \<and> (length (rows_of db cid) \<ge> 100 \<and> role (hd (rows_of db cid)) = ''system'' \<longrightarrow>
              kept_rows (rows_of db cid) @ [?x] =
                hd (rows_of db cid) # drop (length (rows_of db cid) - 98) (tl (rows_of db cid)) @ [?x])
         \<and> (length (rows_of db cid) \<ge> 100 \<and>
              List.find (\<lambda>row. role row = ''system'') (rows_of db cid) = Some s \<longrightarrow>
              filter (\<lambda>row. row_id row \<noteq> row_id s) (kept_rows (rows_of db cid)) =
                drop (length (rows_of db cid) - 98)
                  (filter (\<lambda>row. row_id row \<noteq> row_id s) (rows_of db cid)) \<and>
              filter (\<lambda>row. row_id row = row_id s) (kept_rows (rows_of db cid)) = [s])"
  proof
    assume d: "distinct (map row_id (rows_of db cid))"
    note K = kept_rows_push [OF d]
    show "length (kept_rows (rows_of db cid) @ [?x]) \<le> MAX_MESSAGES_PER_CONVERSATION
         \<and> (rows_of db cid \<noteq> [] \<and> role (hd (rows_of db cid)) = ''system'' \<longrightarrow>
              hd (kept_rows (rows_of db cid) @ [?x]) = hd (rows_of db cid))
         \<and> (length (rows_of db cid) < 100 \<longrightarrow>
              kept_rows (rows_of db cid) @ [?x] = rows_of db cid @ [?x])
         \<and> (length (rows_of db cid) \<ge> 100 \<and>
              List.find (\<lambda>row. role row = ''system'') (rows_of db cid) = None \<longrightarrow>
              kept_rows (rows_of db cid) @ [?x] =
                drop (length (rows_of db cid) - 98) (rows_of db cid) @ [?x])
         \<and> (length (rows_of db cid) \<ge> 100 \<and> role (hd (rows_of db cid)) = ''system'' \<longrightarrow>
              kept_rows (rows_of db cid) @ [?x] =
                hd (rows_of db cid) # drop (length (rows_of db cid) - 98) (tl (rows_of db cid)) @ [?x])
         \<and> (length (rows_of db cid) \<ge> 100 \<and>
              List.find (\<lambda>row. role row = ''system'') (rows_of db cid) = Some s \<longrightarrow>
              filter (\<lambda>row. row_id row \<noteq> row_id s) (kept_rows (rows_of db cid)) =
                drop (length (rows_of db cid) - 98)
                  (filter (\<lambda>row. row_id row \<noteq> row_id s) (rows_of db cid)) \<and>
              filter (\<lambda>row. row_id row = row_id s) (kept_rows (rows_of db cid)) = [s])"
      by (intro conjI) (rule K)+
  qed
  show ?thesis
    unfolding Let_def q butlast_snoc m p
    using mem [unfolded m] mcp [unfolded p] sq by blast
qed

theorem turn_count_bound_witness:
  "length (messages (fst (addMessageToConversation_memory ''u'' 5 5 full_store ''c'' ''user'' ''x'')))
     \<le> MAX_MESSAGES_PER_CONVERSATION
   \<and> hd (messages (fst (addMessageToConversation_memory ''u'' 5 5 full_store ''c'' ''user'' ''x'')))
     = sample_turn ''system''
   \<and> length (messages (fst (mcp_addMessageToConversation ''u'' 5 5 full_store ''c'' ''user'' ''x'')))
     \<le> MAX_MESSAGES_PER_CONVERSATION
   \<and> length (rows_of (addMessageToConversation_sqlite ''u'' 5 5 full_database ''c'' ''user'' ''x'') ''c'')
     \<le> MAX_MESSAGES_PER_CONVERSATION
   \<and> hd (rows_of (addMessageToConversation_sqlite ''u'' 5 5 full_database ''c'' ''user'' ''x'') ''c'')
     = sample_row 0"
proof -
  have old: "(case full_store ''c'' of Some e \<Rightarrow> messages e | None \<Rightarrow> []) =
             sample_turn ''system'' # replicate 100 (sample_turn ''user'')"
    by (simp add: full_store_def)
  have rows: "rows_of full_database ''c'' = map sample_row [0..<101]"
    by (simp add: rows_of_def full_database_def sample_row_def filter_id_conv)
  have ids: "map row_id (map sample_row [0..<101]) = [0..<101]"
    by (simp add: sample_row_def comp_def)
  have d: "distinct (map row_id (rows_of full_database ''c''))"
    unfolding rows ids by simp
  have h: "hd (map sample_row [0..<101]) = sample_row 0" "map sample_row [0..<101] \<noteq> []"
    by (simp_all add: upt_conv_Cons)
  have rs: "role (sample_row 0) = ''system''" "role (sample_turn ''system'') = ''system''"
    by (simp_all add: sample_row_def sample_turn_def)
  note T = turn_count_bound [of full_store "''c''" "''user''" "''x''" 5 "''u''" 5 full_database
             "sample_row 0", unfolded Let_def old rows]
  have w1: "length (messages (fst (addMessageToConversation_memory ''u'' 5 5 full_store ''c'' ''user'' ''x'')))
     \<le> MAX_MESSAGES_PER_CONVERSATION"
    using T by blast
  have w2: "hd (messages (fst (addMessageToConversation_memory ''u'' 5 5 full_store ''c'' ''user'' ''x'')))
     = sample_turn ''system''"
    using T [THEN conjunct1, THEN conjunct2, THEN conjunct2, THEN conjunct1] rs by simp
  have w3: "length (messages (fst (mcp_addMessageToConversation ''u'' 5 5 full_store ''c'' ''user'' ''x'')))
     \<le> MAX_MESSAGES_PER_CONVERSATION"
    using T by blast
  have w4: "length (rows_of (addMessageToConversation_sqlite ''u'' 5 5 full_database ''c'' ''user'' ''x'') ''c'')
     \<le> MAX_MESSAGES_PER_CONVERSATION"
    using T d [unfolded rows] by blast
  have w5: "hd (rows_of (addMessageToConversation_sqlite ''u'' 5 5 full_database ''c'' ''user'' ''x'') ''c'')
     = sample_row 0"
    using T [THEN conjunct2, THEN conjunct2, THEN mp, OF d [unfolded rows], THEN conjunct2, THEN conjunct1]
      h rs by simp
  from w1 w2 w3 w4 w5 show ?thesis by (intro conjI)
qed


subsection \<open>Authentication\<close>

text \<open>
  Claim C10. A request whose Authorization header is absent or does not start with
  \<open>Bearer \<close> is rejected with status 401. When at least one access token is configured and
  the presented token (the header after its first seven characters) is none of them, the
  request is rejected with status 401. When no access token is configured, every request
  whose header starts with \<open>Bearer \<close> is accepted, whatever the token.
\<close>

theorem authenticate_cases:
  "authenticate toks None =
      Rejected 401 ''Invalid authentication credentials'' ''invalid_request_error'' ''invalid_api_key''
   \<and> (\<not> startsWith h ''Bearer '' \<longrightarrow> status_of (authenticate toks (Some h)) = Some 401)
   \<and> (toks \<noteq> [] \<and> startsWith h ''Bearer '' \<and> drop 7 h \<notin> set toks \<longrightarrow>
        authenticate toks (Some h) =
          Rejected 401 ''Invalid access token'' ''invalid_request_error'' ''invalid_access_token'')
   \<and> (toks \<noteq> [] \<and> startsWith h ''Bearer '' \<and> drop 7 h \<in> set toks \<longrightarrow>
        authenticate toks (Some h) = Next)
   \<and> (startsWith h ''Bearer '' \<longrightarrow> authenticate [] (Some h) = Next)"
proof -
  have nonempty: "startsWith h ''Bearer '' \<Longrightarrow> h \<noteq> []"
    by (auto simp: startsWith_def)
  show ?thesis
    using nonempty
    by (auto simp: authenticate_def REQUIRE_TOKEN_AUTH_def Let_def)
qed

theorem authenticate_cases_witness:
  "authenticate [''s3cret''] None =
      Rejected 401 ''Invalid authentication credentials'' ''invalid_request_error'' ''invalid_api_key''
   \<and> status_of (authenticate [''s3cret''] (Some ''Basic abc'')) = Some 401
   \<and> authenticate [''s3cret''] (Some ''Bearer wrong'') =
          Rejected 401 ''Invalid access token'' ''invalid_request_error'' ''invalid_access_token''
   \<and> authenticate [''s3cret''] (Some ''Bearer s3cret'') = Next
   \<and> authenticate [] (Some ''Bearer anything'') = Next"
proof -
  have a: "\<not> startsWith ''Basic abc'' ''Bearer ''" by (simp add: startsWith_def)
  have b: "startsWith ''Bearer wrong'' ''Bearer ''" by (simp add: startsWith_def)
  have c: "startsWith ''Bearer s3cret'' ''Bearer ''" by (simp add: startsWith_def)
  have d: "startsWith ''Bearer anything'' ''Bearer ''" by (simp add: startsWith_def)
  show ?thesis
    using authenticate_cases [of "[''s3cret'']" "''Basic abc''"]
      authenticate_cases [of "[''s3cret'']" "''Bearer wrong''"]
      authenticate_cases [of "[''s3cret'']" "''Bearer s3cret''"]
      authenticate_cases [of "[]" "''Bearer anything''"]
      a b c d
    by simp
qed

end

